(* ===== verification/CS_Prelude.thy ===== *)
theory CS_Prelude
  imports Main "HOL-Library.Signed_Division"
begin

text \<open>
  The vocabulary shared by every contract of the development: addresses, the fixed-width
  integers of Rust with their checked, saturating and wrapping operations, results with
  typed errors, and the inversion rules that the component proofs rest on.

  \<^item> An \<open>i128\<close>, \<open>u32\<close> or \<open>u64\<close> of the source is an \<open>int\<close>; the predicates \<open>in_i128\<close>,
    \<open>in_u32\<close>, \<open>in_u64\<close> give its range, and every operation writes out what happens when the
    mathematical result leaves it. The workspace builds with \<open>overflow-checks = true\<close>, so a
    plain \<open>+\<close>, \<open>-\<close>, \<open>*\<close> that leaves the range panics.
  \<^item> A contract entry point that returns \<open>Err(e)\<close>, or that panics, is undone by the host as a
    whole, so a failing call is a value \<open>Inl\<close> with no new state.
\<close>

named_theorems res_inv "inversion rules: when a step of a handler succeeds"
named_theorems chk_inv "inversion rules: when a checked arithmetic operation succeeds"

section \<open>Addresses\<close>

text \<open>\<open>soroban_sdk::Address\<close>: opaque, compared for equality and by a total order.\<close>

datatype address = Address nat

primrec addr_id :: "address \<Rightarrow> nat" where
  "addr_id (Address n) = n"

instantiation address :: linorder
begin

definition less_eq_address :: "address \<Rightarrow> address \<Rightarrow> bool" where
  "less_eq_address a b = (addr_id a \<le> addr_id b)"

definition less_address :: "address \<Rightarrow> address \<Rightarrow> bool" where
  "less_address a b = (addr_id a < addr_id b)"

instance
proof
  fix a b c :: address
  show "(a < b) = (a \<le> b \<and> \<not> b \<le> a)"
    by (auto simp: less_eq_address_def less_address_def)
  show "a \<le> a"
    by (simp add: less_eq_address_def)
  show "a \<le> b \<Longrightarrow> b \<le> c \<Longrightarrow> a \<le> c"
    by (simp add: less_eq_address_def)
  show "a \<le> b \<Longrightarrow> b \<le> a \<Longrightarrow> a = b"
    by (cases a; cases b) (simp add: less_eq_address_def)
  show "a \<le> b \<or> b \<le> a"
    by (auto simp: less_eq_address_def)
qed

end

lemma address_less [simp]: "(Address m < Address n) = (m < n)"
  by (simp add: less_address_def)

lemma address_less_eq [simp]: "(Address m \<le> Address n) = (m \<le> n)"
  by (simp add: less_eq_address_def)

section \<open>Fixed-width integers\<close>

definition i128_max :: int where
  "i128_max = 170141183460469231731687303715884105727"

definition i128_min :: int where
  "i128_min = - 170141183460469231731687303715884105728"

definition in_i128 :: "int \<Rightarrow> bool" where
  "in_i128 x \<longleftrightarrow> i128_min \<le> x \<and> x \<le> i128_max"

definition u32_max :: int where
  "u32_max = 4294967295"

definition in_u32 :: "int \<Rightarrow> bool" where
  "in_u32 x \<longleftrightarrow> 0 \<le> x \<and> x \<le> u32_max"

definition u64_max :: int where
  "u64_max = 18446744073709551615"

definition in_u64 :: "int \<Rightarrow> bool" where
  "in_u64 x \<longleftrightarrow> 0 \<le> x \<and> x \<le> u64_max"

lemma i128_max_pow: "i128_max = 2 ^ 127 - 1"
  by (simp add: i128_max_def)

lemma i128_min_pow: "i128_min = - (2 ^ 127)"
  by (simp add: i128_min_def)

lemma i128_bounds [simp]: "0 < i128_max" "i128_min < 0" "i128_min \<le> 0" "0 \<le> i128_max"
  "in_i128 0" "in_i128 1"
  by (simp_all add: i128_max_def i128_min_def in_i128_def)

lemma in_i128_nonneg: "0 \<le> x \<Longrightarrow> in_i128 x \<longleftrightarrow> x \<le> i128_max"
  by (auto simp: in_i128_def i128_min_def)

lemma in_i128_between: "in_i128 a \<Longrightarrow> in_i128 b \<Longrightarrow> a \<le> x \<Longrightarrow> x \<le> b \<Longrightarrow> in_i128 x"
  by (auto simp: in_i128_def)

text \<open>Rust's integer division truncates towards zero; \<open>sdiv\<close> of the library does the same.\<close>

lemma sdiv_nonneg: "0 \<le> a \<Longrightarrow> 0 \<le> b \<Longrightarrow> a sdiv b = a div (b::int)"
  by (cases "a = 0"; cases "b = 0") (auto simp: signed_divide_int_def)

definition i128_checked_add :: "int \<Rightarrow> int \<Rightarrow> int option" where
  "i128_checked_add a b = (if in_i128 (a + b) then Some (a + b) else None)"

definition i128_checked_sub :: "int \<Rightarrow> int \<Rightarrow> int option" where
  "i128_checked_sub a b = (if in_i128 (a - b) then Some (a - b) else None)"

definition i128_checked_mul :: "int \<Rightarrow> int \<Rightarrow> int option" where
  "i128_checked_mul a b = (if in_i128 (a * b) then Some (a * b) else None)"

definition i128_checked_div :: "int \<Rightarrow> int \<Rightarrow> int option" where
  "i128_checked_div a b =
     (if b = 0 then None else if in_i128 (a sdiv b) then Some (a sdiv b) else None)"

definition i128_saturate :: "int \<Rightarrow> int" where
  "i128_saturate x = max i128_min (min i128_max x)"

definition i128_saturating_add :: "int \<Rightarrow> int \<Rightarrow> int" where
  "i128_saturating_add a b = i128_saturate (a + b)"

definition i128_saturating_sub :: "int \<Rightarrow> int \<Rightarrow> int" where
  "i128_saturating_sub a b = i128_saturate (a - b)"

definition i128_saturating_mul :: "int \<Rightarrow> int \<Rightarrow> int" where
  "i128_saturating_mul a b = i128_saturate (a * b)"

definition i128_wrap :: "int \<Rightarrow> int" where
  "i128_wrap x = (x + 2 ^ 127) mod 2 ^ 128 - 2 ^ 127"

definition u64_saturating_sub :: "int \<Rightarrow> int \<Rightarrow> int" where
  "u64_saturating_sub a b = max 0 (a - b)"

definition u32_saturating_sub :: "int \<Rightarrow> int \<Rightarrow> int" where
  "u32_saturating_sub a b = max 0 (a - b)"

definition u32_saturating_add :: "int \<Rightarrow> int \<Rightarrow> int" where
  "u32_saturating_add a b = min u32_max (a + b)"

lemma checked_add_Some [chk_inv]: "i128_checked_add a b = Some c \<longleftrightarrow> c = a + b \<and> in_i128 (a + b)"
  by (auto simp: i128_checked_add_def)

lemma checked_sub_Some [chk_inv]: "i128_checked_sub a b = Some c \<longleftrightarrow> c = a - b \<and> in_i128 (a - b)"
  by (auto simp: i128_checked_sub_def)

lemma checked_mul_Some [chk_inv]: "i128_checked_mul a b = Some c \<longleftrightarrow> c = a * b \<and> in_i128 (a * b)"
  by (auto simp: i128_checked_mul_def)

lemma checked_div_Some [chk_inv]:
  "i128_checked_div a b = Some c \<longleftrightarrow> b \<noteq> 0 \<and> c = a sdiv b \<and> in_i128 (a sdiv b)"
  by (auto simp: i128_checked_div_def)

lemma saturate_in_range [simp]: "in_i128 (i128_saturate x)"
  using i128_bounds by (auto simp: in_i128_def i128_saturate_def)

lemma saturate_id [simp]: "in_i128 x \<Longrightarrow> i128_saturate x = x"
  by (auto simp: in_i128_def i128_saturate_def)

lemma saturate_mono: "x \<le> y \<Longrightarrow> i128_saturate x \<le> i128_saturate y"
  by (auto simp: i128_saturate_def)

lemma saturate_nonneg: "0 \<le> x \<Longrightarrow> 0 \<le> i128_saturate x"
  by (auto simp: i128_saturate_def i128_max_def)

lemma saturate_le: "0 \<le> x \<Longrightarrow> i128_saturate x \<le> x"
  by (auto simp: i128_saturate_def i128_min_def)

lemma saturate_pos: "0 < x \<Longrightarrow> 0 < i128_saturate x"
  by (auto simp: i128_saturate_def i128_max_def less_max_iff_disj)

lemma wrap_id [simp]: "in_i128 x \<Longrightarrow> i128_wrap x = x"
  by (simp add: i128_wrap_def in_i128_def i128_max_def i128_min_def)

lemma wrap_range: "in_i128 (i128_wrap x)"
proof -
  have "0 \<le> (x + 2 ^ 127) mod 2 ^ 128" "(x + 2 ^ 127) mod 2 ^ 128 < (2::int) ^ 128"
    by simp_all
  then show ?thesis
    by (simp add: i128_wrap_def in_i128_def i128_max_def i128_min_def)
qed

section \<open>Results\<close>

text \<open>
  A fallible function of the source returns \<open>Result<T, E>\<close>: \<open>Inr\<close> is \<open>Ok\<close>, \<open>Inl (Err e)\<close>
  the typed error, \<open>Inl Panic\<close> a panic, a failed \<open>require_auth\<close> or the trap of a nested call.
\<close>

datatype 'e fault = Err 'e | Panic

type_synonym ('e, 'a) res = "'e fault + 'a"

definition bindR :: "('e, 'a) res \<Rightarrow> ('a \<Rightarrow> ('e, 'b) res) \<Rightarrow> ('e, 'b) res" where
  "bindR m f = (case m of Inl e \<Rightarrow> Inl e | Inr x \<Rightarrow> f x)"

text \<open>\<open>if b { return Err(e); } k\<close>\<close>

definition reject :: "bool \<Rightarrow> 'e \<Rightarrow> ('e, 'a) res \<Rightarrow> ('e, 'a) res" where
  "reject b e k = (if b then Inl (Err e) else k)"

text \<open>\<open>opt.ok_or(e)?\<close>\<close>

definition ok_or :: "'a option \<Rightarrow> 'e \<Rightarrow> ('e, 'a) res" where
  "ok_or m e = (case m of None \<Rightarrow> Inl (Err e) | Some x \<Rightarrow> Inr x)"

text \<open>An operation that panics when it has no result (a trapping nested call).\<close>

definition or_panic :: "'a option \<Rightarrow> ('e, 'a) res" where
  "or_panic m = (case m of None \<Rightarrow> Inl Panic | Some x \<Rightarrow> Inr x)"

text \<open>A plain \<open>i128\<close> operator: panics when the result leaves the range.\<close>

definition arith :: "int \<Rightarrow> ('e, int) res" where
  "arith x = (if in_i128 x then Inr x else Inl Panic)"

text \<open>\<open>require_auth\<close> and other conditions whose failure traps.\<close>

definition require :: "bool \<Rightarrow> ('e, 'a) res \<Rightarrow> ('e, 'a) res" where
  "require b k = (if b then k else Inl Panic)"

text \<open>\<open>.map_err(f)\<close>: panics pass through.\<close>

definition map_errR :: "('d \<Rightarrow> 'e) \<Rightarrow> ('d, 'a) res \<Rightarrow> ('e, 'a) res" where
  "map_errR f m = (case m of Inl (Err d) \<Rightarrow> Inl (Err (f d)) | Inl Panic \<Rightarrow> Inl Panic | Inr x \<Rightarrow> Inr x)"

text \<open>A nested call of another contract that is not a \<open>try_\<close> call: its failure traps the caller.\<close>

definition call :: "('d, 'a) res \<Rightarrow> ('e, 'a) res" where
  "call m = (case m of Inl _ \<Rightarrow> Inl Panic | Inr x \<Rightarrow> Inr x)"

lemma bindR_simps [simp]: "bindR (Inl e) f = Inl e" "bindR (Inr x) f = f x"
  by (simp_all add: bindR_def)

lemma bindR_Inr [res_inv]: "bindR m f = Inr y \<longleftrightarrow> (\<exists>x. m = Inr x \<and> f x = Inr y)"
  by (cases m) simp_all

lemma reject_Inr [res_inv]: "reject b e k = Inr y \<longleftrightarrow> \<not> b \<and> k = Inr y"
  by (simp add: reject_def)

lemma ok_or_Inr [res_inv]: "ok_or m e = Inr x \<longleftrightarrow> m = Some x"
  by (cases m) (auto simp: ok_or_def)

lemma or_panic_Inr [res_inv]: "or_panic m = Inr x \<longleftrightarrow> m = Some x"
  by (cases m) (auto simp: or_panic_def)

lemma arith_Inr [res_inv]: "arith x = Inr y \<longleftrightarrow> y = x \<and> in_i128 x"
  by (auto simp: arith_def)

lemma require_Inr [res_inv]: "require b k = Inr y \<longleftrightarrow> b \<and> k = Inr y"
  by (simp add: require_def)

lemma map_errR_Inr [res_inv]: "map_errR f m = Inr x \<longleftrightarrow> m = Inr x"
  by (auto simp: map_errR_def split: sum.splits fault.splits)

lemma call_Inr [res_inv]: "call m = Inr x \<longleftrightarrow> m = Inr x"
  by (auto simp: call_def split: sum.splits)

lemma res_simps [simp]:
  "reject True e k = Inl (Err e)" "reject False e k = k"
  "ok_or None e = Inl (Err e)" "ok_or (Some x) e = Inr x"
  "or_panic None = Inl Panic" "or_panic (Some x) = Inr x"
  "require True k = k" "require False k = Inl Panic"
  "map_errR g (Inr x) = Inr x" "map_errR g (Inl (Err d)) = Inl (Err (g d))"
  "map_errR g (Inl Panic) = Inl Panic"
  "call (Inr x) = Inr x" "call (Inl f) = Inl Panic"
  by (simp_all add: reject_def ok_or_def or_panic_def require_def map_errR_def call_def)

lemma arith_ok [simp]: "in_i128 x \<Longrightarrow> arith x = Inr x"
  by (simp add: arith_def)

text \<open>The range checks and checked operations, for evaluation on concrete inputs.\<close>

lemmas int_ops_defs = in_i128_def i128_max_def i128_min_def in_u32_def u32_max_def in_u64_def
  u64_max_def i128_checked_add_def i128_checked_sub_def i128_checked_mul_def i128_checked_div_def
  i128_saturating_add_def i128_saturating_sub_def i128_saturating_mul_def i128_saturate_def
  u64_saturating_sub_def u32_saturating_sub_def u32_saturating_add_def arith_def
  signed_divide_int_def

section \<open>The invocation environment\<close>

text \<open>
  What the host tells a contract: the ledger's close time and sequence number, the address of
  the running contract, and for which addresses \<open>require_auth\<close> succeeds. In a nested call the
  invoking contract is authorised as well (invoker-contract authorisation).
\<close>

record env =
  e_timestamp :: int
  e_sequence :: int
  e_self :: address
  e_auth :: "address \<Rightarrow> bool"

definition nested_env :: "env \<Rightarrow> address \<Rightarrow> env" where
  "nested_env e callee = e\<lparr>e_self := callee, e_auth := (\<lambda>a. e_auth e a \<or> a = e_self e)\<rparr>"

lemma nested_env_simps [simp]:
  "e_self (nested_env e c) = c" "e_timestamp (nested_env e c) = e_timestamp e"
  "e_sequence (nested_env e c) = e_sequence e"
  "e_auth (nested_env e c) a = (e_auth e a \<or> a = e_self e)"
  by (simp_all add: nested_env_def)

section \<open>Storage maps of integers\<close>

text \<open>A persistent map read with \<open>unwrap_or(0)\<close>, and the sum of its entries.\<close>

definition entry_val :: "('k \<rightharpoonup> int) \<Rightarrow> 'k \<Rightarrow> int" where
  "entry_val m k = (case m k of None \<Rightarrow> 0 | Some x \<Rightarrow> x)"

definition entry_sum :: "('k \<rightharpoonup> int) \<Rightarrow> int" where
  "entry_sum m = (\<Sum>k \<in> dom m. entry_val m k)"

lemma entry_val_upd [simp]:
  "entry_val (m(k := None)) = (entry_val m)(k := 0)"
  "entry_val (m(k \<mapsto> x)) = (entry_val m)(k := x)"
  "entry_val Map.empty = (\<lambda>_. 0)"
  by (auto simp: entry_val_def fun_eq_iff)

text \<open>Any finite set that covers the keys gives the same sum.\<close>

lemma entry_sum_cover:
  assumes "finite A" "dom m \<subseteq> A"
  shows "entry_sum m = (\<Sum>k \<in> A. entry_val m k)"
  unfolding entry_sum_def
proof (rule sum.mono_neutral_left [OF assms])
  show "\<forall>i \<in> A - dom m. entry_val m i = 0"
    by (auto simp: entry_val_def split: option.splits)
qed

lemma entry_sum_upd:
  assumes "finite (dom m)"
  shows "entry_sum (m(k := v)) = entry_sum m - entry_val m k + entry_val (m(k := v)) k"
proof -
  let ?A = "insert k (dom m)"
  have "entry_sum (m(k := v)) = (\<Sum>x \<in> ?A. entry_val (m(k := v)) x)"
    using assms by (intro entry_sum_cover) auto
  also have "\<dots> = entry_val (m(k := v)) k + (\<Sum>x \<in> ?A - {k}. entry_val (m(k := v)) x)"
    using assms by (intro sum.remove) auto
  also have "(\<Sum>x \<in> ?A - {k}. entry_val (m(k := v)) x) = (\<Sum>x \<in> ?A - {k}. entry_val m x)"
    by (rule sum.cong) (auto simp: entry_val_def)
  also have "\<dots> = (\<Sum>x \<in> ?A. entry_val m x) - entry_val m k"
    using assms by (subst sum.remove [of ?A k]) auto
  also have "(\<Sum>x \<in> ?A. entry_val m x) = entry_sum m"
    using assms by (intro entry_sum_cover [symmetric]) auto
  finally show ?thesis by linarith
qed

lemma finite_dom_upd [simp]: "finite (dom (m(k := v))) = finite (dom m)"
proof
  assume "finite (dom (m(k := v)))"
  then have "finite (insert k (dom (m(k := v))))" by simp
  then show "finite (dom m)"
    by (rule rev_finite_subset) auto
next
  assume "finite (dom m)"
  then have "finite (insert k (dom m))" by simp
  then show "finite (dom (m(k := v)))"
    by (rule rev_finite_subset) (auto split: if_splits)
qed

lemma entry_val_le_sum:
  assumes "finite (dom m)" "\<And>k. 0 \<le> entry_val m k"
  shows "entry_val m a \<le> entry_sum m" "a \<noteq> b \<Longrightarrow> entry_val m a + entry_val m b \<le> entry_sum m"
proof -
  have *: "(\<Sum>k \<in> B. entry_val m k) \<le> entry_sum m" if "finite B" for B
  proof -
    have "entry_sum m = (\<Sum>k \<in> B \<union> dom m. entry_val m k)"
      using assms(1) that by (intro entry_sum_cover) auto
    then show ?thesis
      using assms that by (simp add: sum_mono2)
  qed
  show "entry_val m a \<le> entry_sum m"
    using * [of "{a}"] by simp
  show "entry_val m a + entry_val m b \<le> entry_sum m" if "a \<noteq> b"
    using * [of "{a, b}"] that by simp
qed

section \<open>Floor division\<close>

lemma floor_mult_le: "0 < (d::int) \<Longrightarrow> n div d * d \<le> n"
  by (metis minus_mod_eq_div_mult pos_mod_sign diff_ge_0_iff_ge diff_diff_eq2 add.commute
      le_add_same_cancel1 diff_add_cancel)

lemma floor_less_mult: "0 < (d::int) \<Longrightarrow> n < (n div d + 1) * d"
  by (metis add.commute distrib_right div_mult_mod_eq mult_1 pos_mod_bound add_strict_left_mono)

lemma le_floor_iff: "0 < (d::int) \<Longrightarrow> q \<le> n div d \<longleftrightarrow> q * d \<le> n"
proof
  assume d: "0 < d" and "q \<le> n div d"
  then have "q * d \<le> n div d * d"
    by (simp add: mult_right_mono)
  then show "q * d \<le> n"
    using floor_mult_le [OF d, of n] by simp
next
  assume d: "0 < d" and "q * d \<le> n"
  then have "q * d div d \<le> n div d"
    by (intro zdiv_mono1)
  then show "q \<le> n div d"
    using d by simp
qed

lemma floor_less_iff: "0 < (d::int) \<Longrightarrow> n div d < q \<longleftrightarrow> n < q * d"
  using le_floor_iff [of d q n] by auto

end
