(* ===== verification/CS_Shared.thy ===== *)
theory CS_Shared
  imports CS_Prelude "HOL-Library.Word"
begin

unbundle bit_operations_syntax

text \<open>
  \<open>contracts/shared/src/lib.rs\<close>: the policy constants, the constant-product quotes that the
  pair and the router share, and the LP-token metadata derived from a token pair. The lemmas
  characterise the two quotes exactly: the output quote is the floor of the fee-adjusted
  constant-product formula, and the input quote is the least input whose output reaches the
  requested amount.
\<close>

section \<open>Policy constants\<close>

definition LP_DECIMALS :: int where "LP_DECIMALS = 7"

definition LP_NAME :: string where "LP_NAME = ''Coral LP''"

definition LP_SYMBOL :: string where "LP_SYMBOL = ''CLP''"

definition LP_NAME_PREFIX :: string where "LP_NAME_PREFIX = ''CORAL-SWAP-LP-''"

definition LP_SYMBOL_PREFIX :: string where "LP_SYMBOL_PREFIX = ''CLP-''"

definition PROTOCOL_VERSION :: int where "PROTOCOL_VERSION = 1"

definition MINIMUM_RESERVE :: int where "MINIMUM_RESERVE = 1000"

definition MIN_LIQUIDITY_FOR_USER :: int where "MIN_LIQUIDITY_FOR_USER = 1000"

definition DEFAULT_MAX_COMMITS :: int where "DEFAULT_MAX_COMMITS = 32"

definition DEFAULT_COMMIT_EXPIRY_LEDGERS :: int where "DEFAULT_COMMIT_EXPIRY_LEDGERS = 1000"

definition MAX_COMMITS_HARD_CAP :: int where "MAX_COMMITS_HARD_CAP = 1000"

definition COMMIT_EXPIRY_HARD_CAP :: int where "COMMIT_EXPIRY_HARD_CAP = 518400"

definition BPS_DENOMINATOR :: int where "BPS_DENOMINATOR = 10000"

lemmas policy_defs = MINIMUM_RESERVE_def MIN_LIQUIDITY_FOR_USER_def BPS_DENOMINATOR_def

section \<open>256-bit intermediates\<close>

text \<open>\<open>ethnum::U256\<close> is a 256-bit unsigned integer; a value is an \<open>int\<close> in its range.\<close>

definition u256_max :: int where
  "u256_max = 115792089237316195423570985008687907853269984665640564039457584007913129639935"

definition u256_checked_add :: "int \<Rightarrow> int \<Rightarrow> int option" where
  "u256_checked_add a b = (if a + b \<le> u256_max then Some (a + b) else None)"

definition u256_checked_mul :: "int \<Rightarrow> int \<Rightarrow> int option" where
  "u256_checked_mul a b = (if a * b \<le> u256_max then Some (a * b) else None)"

lemma u256_checked_add_Some [chk_inv]:
  "u256_checked_add a b = Some c \<longleftrightarrow> c = a + b \<and> a + b \<le> u256_max"
  by (auto simp: u256_checked_add_def)

lemma u256_checked_mul_Some [chk_inv]:
  "u256_checked_mul a b = Some c \<longleftrightarrow> c = a * b \<and> a * b \<le> u256_max"
  by (auto simp: u256_checked_mul_def)

lemmas u256_defs = u256_max_def u256_checked_add_def u256_checked_mul_def

section \<open>Quotes\<close>

datatype quote_error = QZeroAmount | QInsufficientLiquidity | QOverflow | QDust | QInvalidFee

definition fee_factor :: "int \<Rightarrow> (quote_error, int) res" where
  "fee_factor fee_bps =
     reject (fee_bps \<ge> BPS_DENOMINATOR) QInvalidFee (Inr (BPS_DENOMINATOR - fee_bps))"

definition quote_output_amount :: "int \<Rightarrow> int \<Rightarrow> int \<Rightarrow> int \<Rightarrow> (quote_error, int) res" where
  "quote_output_amount amount_in reserve_in reserve_out fee_bps =
     reject (amount_in \<le> 0) QZeroAmount (
     reject (reserve_in \<le> 0 \<or> reserve_out \<le> 0) QInsufficientLiquidity (
     bindR (fee_factor fee_bps) (\<lambda>factor.
     bindR (ok_or (i128_checked_mul amount_in factor) QOverflow) (\<lambda>amount_in_with_fee.
     bindR (ok_or (i128_checked_mul amount_in_with_fee reserve_out) QOverflow) (\<lambda>numerator.
     bindR (ok_or (i128_checked_mul reserve_in BPS_DENOMINATOR) QOverflow) (\<lambda>scaled.
     bindR (ok_or (i128_checked_add scaled amount_in_with_fee) QOverflow) (\<lambda>denominator.
     let out = numerator sdiv denominator in
     reject (out \<le> 0) QDust (Inr out))))))))"

definition quote_input_amount :: "int \<Rightarrow> int \<Rightarrow> int \<Rightarrow> int \<Rightarrow> (quote_error, int) res" where
  "quote_input_amount amount_out reserve_in reserve_out fee_bps =
     reject (amount_out \<le> 0) QZeroAmount (
     reject (reserve_in \<le> 0 \<or> reserve_out \<le> 0 \<or> amount_out \<ge> reserve_out)
       QInsufficientLiquidity (
     bindR (fee_factor fee_bps) (\<lambda>factor.
     bindR (ok_or (Option.bind (u256_checked_mul reserve_in amount_out)
                    (\<lambda>n. u256_checked_mul n BPS_DENOMINATOR)) QOverflow) (\<lambda>numerator.
     bindR (ok_or (u256_checked_mul (reserve_out - amount_out) factor) QOverflow) (\<lambda>denominator.
     let quotient = numerator div denominator;
         rounded = quotient + (if numerator mod denominator \<noteq> 0 then 1 else 0) in
     reject (rounded > i128_max) QOverflow (Inr rounded))))))"

lemma fee_factor_Inr [res_inv]:
  "fee_factor fee = Inr f \<longleftrightarrow> fee < 10000 \<and> f = 10000 - fee"
  by (auto simp: fee_factor_def BPS_DENOMINATOR_def res_inv)

text \<open>The formula of both quotes, as mathematics.\<close>

definition cp_output :: "int \<Rightarrow> int \<Rightarrow> int \<Rightarrow> int \<Rightarrow> int" where
  "cp_output x r_in r_out fee =
     x * (10000 - fee) * r_out div (r_in * 10000 + x * (10000 - fee))"

lemma quote_output_spec:
  assumes "quote_output_amount x r_in r_out fee = Inr out"
  shows "0 < x" "0 < r_in" "0 < r_out" "fee < 10000" "0 < out" "out = cp_output x r_in r_out fee"
    "in_i128 (x * (10000 - fee) * r_out)"
proof -
  have *: "0 < x \<and> 0 < r_in \<and> 0 < r_out \<and> fee < 10000 \<and> 0 < out \<and>
     out = x * (10000 - fee) * r_out sdiv (r_in * 10000 + x * (10000 - fee)) \<and>
     in_i128 (x * (10000 - fee) * r_out)"
    using assms
    by (auto simp: quote_output_amount_def BPS_DENOMINATOR_def Let_def res_inv chk_inv not_le)
  then show "0 < x" "0 < r_in" "0 < r_out" "fee < 10000" "0 < out"
    "in_i128 (x * (10000 - fee) * r_out)"
    by blast+
  from * have "0 \<le> x * (10000 - fee) * r_out" "0 \<le> r_in * 10000 + x * (10000 - fee)"
    by simp_all
  with * show "out = cp_output x r_in r_out fee"
    by (simp add: cp_output_def sdiv_nonneg)
qed

text \<open>
  When the output formula reaches a target: the condition is linear in the input. Every
  optimality statement about the quotes goes through this equivalence.
\<close>

lemma cp_output_ge_iff:
  assumes "0 < x" "0 < r_in" "fee < 10000"
  shows "t \<le> cp_output x r_in r_out fee \<longleftrightarrow>
     t * r_in * 10000 \<le> x * ((r_out - t) * (10000 - fee))"
proof -
  have "0 < r_in * 10000 + x * (10000 - fee)"
    using assms by (simp add: add_pos_pos)
  then have "t \<le> cp_output x r_in r_out fee \<longleftrightarrow>
     t * (r_in * 10000 + x * (10000 - fee)) \<le> x * (10000 - fee) * r_out"
    unfolding cp_output_def by (rule le_floor_iff)
  also have "\<dots> \<longleftrightarrow> t * r_in * 10000 \<le> x * ((r_out - t) * (10000 - fee))"
    by (simp add: algebra_simps)
  finally show ?thesis .
qed

lemma cp_output_less_reserve:
  assumes "0 < x" "0 < r_in" "0 < r_out" "fee < 10000"
  shows "cp_output x r_in r_out fee < r_out"
proof (rule ccontr)
  assume "\<not> ?thesis"
  then have "r_out * r_in * 10000 \<le> x * ((r_out - r_out) * (10000 - fee))"
    using assms by (subst cp_output_ge_iff [symmetric]) simp_all
  moreover have "0 < r_in * r_out"
    using assms by simp
  ultimately show False
    by simp
qed

lemma cp_output_mono:
  assumes "0 < x" "x \<le> y" "0 < r_in" "0 < r_out" "fee < 10000"
  shows "cp_output x r_in r_out fee \<le> cp_output y r_in r_out fee"
proof -
  let ?t = "cp_output x r_in r_out fee"
  have "?t * r_in * 10000 \<le> x * ((r_out - ?t) * (10000 - fee))"
    using assms by (simp add: cp_output_ge_iff [symmetric])
  also have "\<dots> \<le> y * ((r_out - ?t) * (10000 - fee))"
    using assms cp_output_less_reserve [of x r_in r_out fee]
    by (intro mult_right_mono) simp_all
  finally show ?thesis
    using assms by (simp add: cp_output_ge_iff)
qed

lemma quote_input_spec:
  assumes "quote_input_amount t r_in r_out fee = Inr x"
  shows "0 < t" "0 < r_in" "t < r_out" "fee < 10000" "0 < x" "x \<le> i128_max"
    "\<And>y. t * r_in * 10000 \<le> y * ((r_out - t) * (10000 - fee)) \<longleftrightarrow> x \<le> y"
proof -
  let ?N = "r_in * t * 10000" and ?D = "(r_out - t) * (10000 - fee)"
  have *: "0 < t \<and> 0 < r_in \<and> t < r_out \<and> fee < 10000 \<and> x \<le> i128_max \<and>
     x = ?N div ?D + (if ?N mod ?D \<noteq> 0 then 1 else 0)"
    using assms
    by (auto simp: quote_input_amount_def BPS_DENOMINATOR_def Let_def res_inv chk_inv not_le not_less
        bind_eq_Some_conv)
  then show "0 < t" "0 < r_in" "t < r_out" "fee < 10000" "x \<le> i128_max"
    by blast+
  have D: "0 < ?D" and N: "0 < ?N"
    using * by simp_all
  have x: "?N \<le> y * ?D \<longleftrightarrow> x \<le> y" for y
  proof (cases "?N mod ?D = 0")
    case True
    then have "?N = x * ?D"
      using * by auto
    then show ?thesis
      using D mult_le_cancel_right_pos [of ?D x y] by metis
  next
    case False
    then have "x = ?N div ?D + 1"
      using * by simp
    moreover have "?N \<noteq> y * ?D"
      using False by auto
    ultimately show ?thesis
      using floor_less_iff [OF D, of ?N y] by auto
  qed
  then show "t * r_in * 10000 \<le> y * ?D \<longleftrightarrow> x \<le> y" for y
    by (simp add: mult.commute)
  show "0 < x"
  proof (rule ccontr)
    assume "\<not> 0 < x"
    then have "?N \<le> 0 * ?D"
      by (subst x) simp
    with N show False by simp
  qed
qed

text \<open>
  The input quote and the output formula are adjoint: an input yields at least \<open>t\<close> exactly
  when it is at least the quoted input.
\<close>

lemma quote_input_adjoint:
  assumes "quote_input_amount t r_in r_out fee = Inr x" "0 < y"
  shows "t \<le> cp_output y r_in r_out fee \<longleftrightarrow> x \<le> y"
  using quote_input_spec [OF assms(1)] assms(2) by (simp add: cp_output_ge_iff)

section \<open>LP-token metadata\<close>

text \<open>
  The host's XDR serialisation and SHA-256 are parameters: \<open>to_xdr\<close> and \<open>sha256\<close>.
\<close>

definition HEX_DIGITS :: string where
  "HEX_DIGITS = ''0123456789ABCDEF''"

definition hex_byte :: "8 word \<Rightarrow> string" where
  "hex_byte byte = [HEX_DIGITS ! unat (drop_bit 4 byte), HEX_DIGITS ! unat (byte AND 0x0F)]"

definition derive_lp_metadata ::
  "(address \<Rightarrow> 8 word list) \<Rightarrow> (8 word list \<Rightarrow> 8 word list) \<Rightarrow> address \<Rightarrow> address \<Rightarrow>
   string \<times> string" where
  "derive_lp_metadata to_xdr sha256 token_a token_b =
     (let (t0, t1) = (if token_a < token_b then (token_a, token_b) else (token_b, token_a));
          hash_array = sha256 (to_xdr t0 @ to_xdr t1);
          hex_bytes = concat (map (\<lambda>i. hex_byte (hash_array ! i)) [0..<4]) in
      (LP_NAME_PREFIX @ hex_bytes, LP_SYMBOL_PREFIX @ hex_bytes))"

lemma drop_bit_nibble: "unat (drop_bit 4 (b :: 8 word)) < 16"
proof -
  have "unat b < 2 ^ LENGTH(8)"
    by (rule unsigned_less)
  then have "drop_bit 4 (unat b) < 16"
    by (simp add: drop_bit_eq_div)
  then show ?thesis
    by (simp only: unat_drop_bit_eq)
qed

lemma and_nibble: "unat (b AND 0x0F :: 8 word) < 16"
proof -
  have "unat (b AND 15) \<le> unat (15 :: 8 word)"
    by (rule word_and_le1 [THEN word_le_nat_alt [THEN iffD1]])
  then show ?thesis by simp
qed

lemma hex_byte_digits: "set (hex_byte b) \<subseteq> set HEX_DIGITS"
proof -
  have "length HEX_DIGITS = 16"
    by (simp add: HEX_DIGITS_def)
  then show ?thesis
    using drop_bit_nibble [of b] and_nibble [of b] by (simp add: hex_byte_def)
qed

lemma derive_lp_metadata_eq:
  "derive_lp_metadata to_xdr sha256 a b =
     (LP_NAME_PREFIX @ concat (map (\<lambda>i. hex_byte (sha256 (to_xdr (min a b) @ to_xdr (max a b)) ! i)) [0..<4]),
      LP_SYMBOL_PREFIX @ concat (map (\<lambda>i. hex_byte (sha256 (to_xdr (min a b) @ to_xdr (max a b)) ! i)) [0..<4]))"
  by (cases "a < b") (auto simp: derive_lp_metadata_def min_def max_def Let_def not_less)

lemma length_hex4: "length (concat (map (\<lambda>i. hex_byte (h i)) [0..<4])) = 8"
  by (simp add: length_concat hex_byte_def sum_list_triv comp_def)

lemma set_hex4: "set (concat (map (\<lambda>i. hex_byte (h i)) [0..<4])) \<subseteq> set HEX_DIGITS"
  using hex_byte_digits by (auto simp del: upt_Suc)

section \<open>Properties\<close>

text \<open>
  The output quote is the best the pool can give without losing value: the quoted amount
  leaves a positive reserve and keeps the product of the reserves, with only the input net of
  the fee counted (in units of 1/10000), and one unit more would break it. So the router never
  quotes more than the pair's invariant allows, and never less than it could.
\<close>

lemma output_quote_is_largest_fair_output:
  assumes "quote_output_amount x r_in r_out fee = Inr out"
  shows "0 < out \<and> out < r_out \<and>
    (\<forall>t. t \<le> out \<longleftrightarrow> r_in * 10000 * r_out \<le> (r_in * 10000 + x * (10000 - fee)) * (r_out - t))"
proof -
  note spec = quote_output_spec [OF assms]
  have "t \<le> out \<longleftrightarrow> r_in * 10000 * r_out \<le> (r_in * 10000 + x * (10000 - fee)) * (r_out - t)" for t
    using cp_output_ge_iff [of x r_in fee t r_out] spec by (simp add: algebra_simps)
  then show ?thesis
    using spec cp_output_less_reserve [of x r_in r_out fee] by simp
qed

text \<open>
  The two quotes are adjoint: an input yields at least the amount \<open>t\<close> exactly when it is
  at least the input quoted for \<open>t\<close>. The input quote is therefore the least sufficient input,
  and a path quoted backwards is covered when it is executed forwards.
\<close>

theorem input_quote_is_least_input:
  assumes "quote_input_amount t r_in r_out fee = Inr x"
    and "quote_output_amount y r_in r_out fee = Inr out"
  shows "t \<le> out \<longleftrightarrow> x \<le> y"
  using quote_input_adjoint [OF assms(1)] quote_output_spec [OF assms(2)] by simp

text \<open>
  The LP metadata does not depend on the order of the two tokens, the name has 22
  characters and the symbol 12, so both pass the LP token's limit of 32, and what follows the
  prefixes is upper-case hexadecimal.
\<close>

theorem lp_metadata_is_canonical:
  "derive_lp_metadata to_xdr sha256 a b = derive_lp_metadata to_xdr sha256 b a \<and>
   (case derive_lp_metadata to_xdr sha256 a b of (name, symbol) \<Rightarrow>
      length name = 22 \<and> length symbol = 12 \<and>
      take 14 name = ''CORAL-SWAP-LP-'' \<and> take 4 symbol = ''CLP-'' \<and>
      drop 14 name = drop 4 symbol \<and> set (drop 14 name) \<subseteq> set HEX_DIGITS)"
  using length_hex4 [of "\<lambda>i. sha256 (to_xdr (min a b) @ to_xdr (max a b)) ! i"]
    set_hex4 [of "\<lambda>i. sha256 (to_xdr (min a b) @ to_xdr (max a b)) ! i"]
  by (simp add: derive_lp_metadata_eq LP_NAME_PREFIX_def LP_SYMBOL_PREFIX_def min.commute max.commute
      del: upt_Suc)

end
