(* ===== verification/Pair_Math.thy ===== *)
theory Pair_Math
  imports CS_Shared
begin

text \<open>
  \<open>contracts/pair/src/errors.rs\<close> and \<open>contracts/pair/src/math/mod.rs\<close>: the pair's errors and
  its pure arithmetic. The Newton iteration is proved to compute the integer square root, the
  single-sided split is proved to be the largest integer that satisfies the quadratic of the
  source's comment, and the liquidity formulas are characterised as floors.
\<close>

section \<open>Errors\<close>

datatype pair_error =
    P_AlreadyInitialized | P_NotInitialized | P_InsufficientLiquidity | P_InsufficientInputAmount
  | P_InsufficientOutputAmount | P_InvalidK | P_Locked | P_FlashLoanNotRepaid
  | P_FlashPayloadTooLarge | P_ContractPaused | P_Overflow | P_ZeroAddress
  | P_InsufficientLiquidityMinted | P_InsufficientLiquidityBurned | P_InvalidInput
  | P_InvalidEmaAlpha | P_FeeOverflow | P_FlashCallbackFailed | P_FlashLoanFeeTooHigh
  | P_SlippageExceeded | P_InvalidStaleThreshold | P_DustAmount | P_LpTokenPaused
  | P_LpTokenUnavailable | P_LpTokenRejected | P_ContractFrozen

section \<open>Constants\<close>

definition PRICE_SCALE :: int where "PRICE_SCALE = 100000000000000"

definition MINIMUM_LIQUIDITY :: int where "MINIMUM_LIQUIDITY = 1000"

section \<open>Multiply and divide through 256 bits\<close>

definition mul_div :: "int \<Rightarrow> int \<Rightarrow> int \<Rightarrow> int option" where
  "mul_div a b denominator =
     (if denominator = 0 then None
      else
        let is_negative = ((a < 0) \<noteq> (b < 0)) \<noteq> (denominator < 0) in
        Option.bind (u256_checked_mul \<bar>a\<bar> \<bar>b\<bar>) (\<lambda>product.
        let quotient = product div \<bar>denominator\<bar> in
        if \<not> is_negative then
          (if quotient > i128_max then None else Some quotient)
        else if quotient > i128_max + 1 then None
        else if quotient = i128_max + 1 then Some i128_min
        else Some (- quotient)))"

section \<open>Integer square root\<close>

text \<open>
  The loop of both square roots, \<open>while y < x { x = y; y = (x + value / x) / 2; }\<close>. Its
  variables are positive throughout (\<open>newton_pos\<close>), so no division by zero is hidden.
\<close>

function newton :: "nat \<Rightarrow> nat \<Rightarrow> nat \<Rightarrow> nat" where
  "newton v x y = (if y < x then newton v y ((y + v div y) div 2) else x)"
  by pat_completeness auto
termination
  by (relation "measure (\<lambda>(v, x, y). x)") auto

declare newton.simps [simp del]

definition sqrt_i128 :: "int \<Rightarrow> (pair_error, int) res" where
  "sqrt_i128 value =
     (if value < 0 then Inl Panic
      else if value = 0 then Inr 0
      else bindR (arith (value + 1)) (\<lambda>succ.
        Inr (int (newton (nat value) (nat value) (nat (succ div 2))))))"

definition sqrt_u256 :: "int \<Rightarrow> (pair_error, int) res" where
  "sqrt_u256 value =
     (if value = 0 then Inr 0
      else bindR (or_panic (u256_checked_add value 1)) (\<lambda>succ.
        Inr (int (newton (nat value) (nat value) (nat (succ div 2))))))"

section \<open>Quotes and liquidity\<close>

primrec pair_quote_error :: "quote_error \<Rightarrow> pair_error" where
  "pair_quote_error QZeroAmount = P_DustAmount"
| "pair_quote_error QDust = P_DustAmount"
| "pair_quote_error QInsufficientLiquidity = P_InsufficientLiquidity"
| "pair_quote_error QOverflow = P_Overflow"
| "pair_quote_error QInvalidFee = P_Overflow"

definition pair_get_amount_out :: "int \<Rightarrow> int \<Rightarrow> int \<Rightarrow> int \<Rightarrow> (pair_error, int) res" where
  "pair_get_amount_out amount_in reserve_in reserve_out fee_bps =
     map_errR pair_quote_error (quote_output_amount amount_in reserve_in reserve_out fee_bps)"

definition initial_liquidity :: "int \<Rightarrow> int \<Rightarrow> (pair_error, int) res" where
  "initial_liquidity amount_a amount_b =
     bindR (ok_or (i128_checked_mul amount_a amount_b) P_Overflow) (\<lambda>product.
     bindR (sqrt_i128 product) (\<lambda>root.
     ok_or (i128_checked_sub root MINIMUM_LIQUIDITY) P_InsufficientLiquidityMinted))"

definition mul_then_div :: "int \<Rightarrow> int \<Rightarrow> int \<Rightarrow> (pair_error, int) res" where
  "mul_then_div a b d =
     bindR (ok_or (i128_checked_mul a b) P_Overflow) (\<lambda>product.
     ok_or (i128_checked_div product d) P_Overflow)"

definition subsequent_liquidity ::
  "int \<Rightarrow> int \<Rightarrow> int \<Rightarrow> int \<Rightarrow> int \<Rightarrow> (pair_error, int) res" where
  "subsequent_liquidity amount_a amount_b reserve_a reserve_b total_supply =
     bindR (mul_then_div amount_a total_supply reserve_a) (\<lambda>liquidity_a.
     bindR (mul_then_div amount_b total_supply reserve_b) (\<lambda>liquidity_b.
     Inr (min liquidity_a liquidity_b)))"

definition burn_amounts :: "int \<Rightarrow> int \<Rightarrow> int \<Rightarrow> int \<Rightarrow> (pair_error, int \<times> int) res" where
  "burn_amounts lp_amount reserve_a reserve_b total_supply =
     bindR (mul_then_div lp_amount reserve_a total_supply) (\<lambda>amount_a.
     bindR (mul_then_div lp_amount reserve_b total_supply) (\<lambda>amount_b.
     Inr (amount_a, amount_b)))"

section \<open>The single-sided split\<close>

definition compute_swap_in_for_single_side :: "int \<Rightarrow> int \<Rightarrow> int \<Rightarrow> (pair_error, int) res" where
  "compute_swap_in_for_single_side reserve_in amount fee_bps =
     reject (reserve_in \<le> 0 \<or> amount \<le> 0) P_InvalidInput (
     reject (fee_bps > 10000) P_InvalidInput (
     let f = 10000 - fee_bps; bps = 10000; r = \<bar>reserve_in\<bar>; s = \<bar>amount\<bar> in
     bindR (ok_or (u256_checked_add bps f) P_Overflow) (\<lambda>b_plus_f.
     bindR (ok_or (u256_checked_mul b_plus_f b_plus_f) P_Overflow) (\<lambda>b_plus_f_sq.
     bindR (ok_or (u256_checked_mul r b_plus_f_sq) P_Overflow) (\<lambda>r_b_plus_f_sq.
     bindR (ok_or (u256_checked_mul 4 f) P_Overflow) (\<lambda>four_f.
     bindR (ok_or (u256_checked_mul four_f s) P_Overflow) (\<lambda>four_f_s0.
     bindR (ok_or (u256_checked_mul four_f_s0 bps) P_Overflow) (\<lambda>four_f_s.
     bindR (ok_or (u256_checked_add r_b_plus_f_sq four_f_s) P_Overflow) (\<lambda>inner.
     bindR (ok_or (u256_checked_mul r inner) P_Overflow) (\<lambda>discriminant.
     bindR (sqrt_u256 discriminant) (\<lambda>sqrt_disc.
     bindR (ok_or (u256_checked_mul r b_plus_f) P_Overflow) (\<lambda>r_b_plus_f.
     reject (sqrt_disc < r_b_plus_f) P_InvalidInput (
     let numerator = sqrt_disc - r_b_plus_f in
     bindR (ok_or (u256_checked_mul 2 f) P_Overflow) (\<lambda>denominator.
     reject (denominator = 0) P_InvalidInput (
     let swap_in = numerator div denominator in
     reject (swap_in > i128_max) P_Overflow (Inr swap_in))))))))))))))))"

section \<open>The square root is the floor of the root\<close>

lemma newton_step_ge:
  fixes x v :: nat
  assumes "0 < x"
  shows "v < ((x + v div x) div 2 + 1) ^ 2"
proof -
  let ?q = "v div x" and ?y = "(x + v div x) div 2"
  have "v < x * (?q + 1)"
    using dividend_less_times_div [of x v] assms by (simp add: algebra_simps)
  also have "4 * (x * (?q + 1)) \<le> (x + ?q + 1) ^ 2"
  proof -
    have "4 * (int x * (int ?q + 1)) \<le> (int x + int ?q + 1) ^ 2"
      using zero_le_power2 [of "int x - (int ?q + 1)"]
      by (simp add: power2_eq_square algebra_simps)
    then have "int (4 * (x * (?q + 1))) \<le> int ((x + ?q + 1) ^ 2)"
      by (simp add: algebra_simps)
    then show ?thesis
      by (simp only: of_nat_le_iff)
  qed
  also have "\<dots> \<le> (2 * (?y + 1)) ^ 2"
    by (intro power_mono) auto
  also have "\<dots> = 4 * (?y + 1) ^ 2"
    by (simp only: power_mult_distrib) simp
  finally show ?thesis
    using assms by (simp add: algebra_simps)
qed

lemma newton_pos: "0 < x \<Longrightarrow> 0 < v \<Longrightarrow> 0 < (x + v div x) div (2::nat)"
  by (cases "x = 1") auto

lemma newton_correct:
  assumes "0 < x" "0 < v" "y = (x + v div x) div 2" "v < (x + 1) ^ 2"
  shows "newton v x y ^ 2 \<le> v \<and> v < (newton v x y + 1) ^ 2"
  using assms
proof (induction v x y rule: newton.induct)
  case (1 v x y)
  show ?case
  proof (cases "y < x")
    case True
    have "0 < y" "v < (y + 1) ^ 2"
      using newton_pos [of x v] newton_step_ge [of x v] 1 by simp_all
    then have "newton v y ((y + v div y) div 2) ^ 2 \<le> v \<and>
        v < (newton v y ((y + v div y) div 2) + 1) ^ 2"
      using "1.IH" [OF True] "1.prems"(2) by blast
    moreover have "newton v x y = newton v y ((y + v div y) div 2)"
      using True by (simp add: newton.simps [of v x y])
    ultimately show ?thesis
      by simp
  next
    case False
    then have "x \<le> v div x"
      using "1.prems" by simp
    then have "x * x \<le> v"
      using "1.prems" by (metis div_times_less_eq_dividend le_trans mult_le_mono1)
    moreover have "newton v x y = x"
      using False by (simp add: newton.simps [of v x y])
    ultimately show ?thesis
      using "1.prems"(4) by (simp add: power2_eq_square)
  qed
qed

text \<open>
  No step of the loop overflows: below the start value \<open>(v + 1) / 2\<close> the sum \<open>y + v / y\<close>
  stays within \<open>v + 1\<close>, which the code has already computed.
\<close>

lemma newton_sum_bound:
  assumes "0 < y" "2 * y \<le> v + (1::nat)"
  shows "y + v div y \<le> v + 1"
proof (cases "y = 1")
  case False
  then have "v div y \<le> v div 2"
    using assms by (intro div_le_mono2) simp_all
  then show ?thesis
    using assms by simp
qed simp

text \<open>The start of the loop, \<open>x = value\<close>, \<open>y = (value + 1) / 2\<close>, is a Newton step.\<close>

lemma newton_start:
  assumes "0 < v"
  shows "newton v v ((v + 1) div 2) ^ 2 \<le> v \<and> v < (newton v v ((v + 1) div 2) + 1) ^ 2"
  using assms by (intro newton_correct) (simp_all add: power2_eq_square)

lemma newton_start_int:
  assumes "0 < v"
  defines "r \<equiv> int (newton (nat v) (nat v) (nat ((v + 1) div 2)))"
  shows "0 \<le> r" "r * r \<le> v" "v < (r + 1) * (r + 1)"
proof -
  have "nat ((v + 1) div 2) = (nat v + 1) div 2"
    using assms(1) by (simp add: nat_div_distrib nat_add_distrib)
  then have *: "nat r ^ 2 \<le> nat v \<and> nat v < (nat r + 1) ^ 2"
    using newton_start [of "nat v"] assms(1) by (simp add: r_def)
  show "0 \<le> r"
    by (simp add: r_def)
  have "int (nat r ^ 2) \<le> int (nat v)" "int (nat v) < int ((nat r + 1) ^ 2)"
    using * by (simp_all only: of_nat_le_iff of_nat_less_iff)
  then show "r * r \<le> v" "v < (r + 1) * (r + 1)"
    using assms(1) \<open>0 \<le> r\<close> by (simp_all add: power2_eq_square algebra_simps)
qed

definition is_isqrt :: "int \<Rightarrow> int \<Rightarrow> bool" where
  "is_isqrt v r \<longleftrightarrow> 0 \<le> r \<and> r * r \<le> v \<and> v < (r + 1) * (r + 1)"

lemma sqrt_i128_Inr: "sqrt_i128 v = Inr r \<Longrightarrow> is_isqrt v r"
  using newton_start_int [of v]
  by (auto simp: sqrt_i128_def is_isqrt_def res_inv split: if_splits)

lemma sqrt_u256_Inr: "0 \<le> v \<Longrightarrow> sqrt_u256 v = Inr r \<Longrightarrow> is_isqrt v r"
  using newton_start_int [of v]
  by (auto simp: sqrt_u256_def is_isqrt_def res_inv chk_inv split: if_splits)

lemma sqrt_i128_total: "0 \<le> v \<Longrightarrow> v < i128_max \<Longrightarrow> \<exists>r. sqrt_i128 v = Inr r"
  by (auto simp: sqrt_i128_def in_i128_nonneg)

lemma is_isqrt_unique:
  assumes "is_isqrt v r" "is_isqrt v s"
  shows "r = s"
proof (rule ccontr)
  assume "r \<noteq> s"
  then consider "r + 1 \<le> s" | "s + 1 \<le> r" by linarith
  then show False
  proof cases
    case 1
    then have "(r + 1) * (r + 1) \<le> s * s"
      using assms by (intro mult_mono) (simp_all add: is_isqrt_def)
    with assms show False by (simp add: is_isqrt_def)
  next
    case 2
    then have "(s + 1) * (s + 1) \<le> r * r"
      using assms by (intro mult_mono) (simp_all add: is_isqrt_def)
    with assms show False by (simp add: is_isqrt_def)
  qed
qed

section \<open>The liquidity formulas are floors\<close>

lemma mul_then_div_Inr:
  assumes "mul_then_div a b d = Inr q" "0 \<le> a" "0 \<le> b" "0 \<le> d"
  shows "0 < d \<and> q = a * b div d"
  using assms by (auto simp: mul_then_div_def res_inv chk_inv sdiv_nonneg)

lemma mul_then_div_zero: "mul_then_div a b 0 = Inl (Err P_Overflow)"
  by (cases "i128_checked_mul a b") (simp_all add: mul_then_div_def i128_checked_div_def)

lemma subsequent_liquidity_Inr:
  assumes "subsequent_liquidity a b ra rb s = Inr l" "0 \<le> a" "0 \<le> b" "0 \<le> ra" "0 \<le> rb" "0 \<le> s"
  shows "0 < ra \<and> 0 < rb \<and> l = min (a * s div ra) (b * s div rb)"
  using assms mul_then_div_Inr [of a s ra] mul_then_div_Inr [of b s rb]
  by (auto simp: subsequent_liquidity_def res_inv)

lemma burn_amounts_Inr:
  assumes "burn_amounts l ra rb s = Inr (a, b)" "0 \<le> l" "0 \<le> ra" "0 \<le> rb" "0 \<le> s"
  shows "0 < s \<and> a = l * ra div s \<and> b = l * rb div s"
  using assms mul_then_div_Inr [of l ra s] mul_then_div_Inr [of l rb s]
  by (auto simp: burn_amounts_def res_inv)

lemma initial_liquidity_Inr:
  assumes "initial_liquidity a b = Inr l"
  shows "is_isqrt (a * b) (l + 1000)"
  using assms sqrt_i128_Inr [of "a * b"]
  by (auto simp: initial_liquidity_def MINIMUM_LIQUIDITY_def res_inv chk_inv)

section \<open>The split solves the quadratic\<close>

lemma isqrt_root_of_quadratic:
  fixes f p q S :: int
  assumes "0 < f" "0 \<le> p" "is_isqrt (p * p + 4 * f * q) S" "p \<le> S"
  defines "x \<equiv> (S - p) div (2 * f)"
  shows "0 \<le> x" "f * x * x + p * x \<le> q" "q < f * (x + 1) * (x + 1) + p * (x + 1)"
proof -
  have d: "0 < 2 * f" using assms(1) by simp
  show x0: "0 \<le> x"
    unfolding x_def using assms by (simp add: pos_imp_zdiv_nonneg_iff)
  have "2 * f * x + p \<le> S"
    using floor_mult_le [OF d, of "S - p"] by (simp add: x_def mult.commute)
  moreover have "0 \<le> 2 * f * x + p"
    using x0 assms(1,2) by simp
  ultimately have "(2 * f * x + p) * (2 * f * x + p) \<le> S * S"
    by (intro mult_mono) linarith+
  also have "\<dots> \<le> p * p + 4 * f * q"
    using assms(3) by (simp add: is_isqrt_def)
  finally have "4 * f * (f * x * x + p * x) \<le> 4 * f * q"
    by (simp add: algebra_simps)
  then show "f * x * x + p * x \<le> q"
    using assms(1) by simp
  have "S + 1 \<le> 2 * f * (x + 1) + p"
    using floor_less_mult [OF d, of "S - p"] by (simp add: x_def mult.commute)
  then have "(S + 1) * (S + 1) \<le> (2 * f * (x + 1) + p) * (2 * f * (x + 1) + p)"
    using assms(2,3,4) by (intro mult_mono) (simp_all add: is_isqrt_def)
  then have "p * p + 4 * f * q < (2 * f * (x + 1) + p) * (2 * f * (x + 1) + p)"
    using assms(3) by (simp add: is_isqrt_def)
  then have "4 * f * q < 4 * f * (f * (x + 1) * (x + 1) + p * (x + 1))"
    by (simp add: algebra_simps)
  then show "q < f * (x + 1) * (x + 1) + p * (x + 1)"
    using assms(1) by (simp only: mult_less_cancel_left_pos)
qed

lemma compute_swap_in_spec:
  assumes "compute_swap_in_for_single_side r s fee = Inr x"
  shows "0 < r" "0 < s" "fee < 10000" "0 \<le> x" "x \<le> i128_max"
    "(10000 - fee) * x * x + r * (20000 - fee) * x \<le> 10000 * r * s"
    "10000 * r * s < (10000 - fee) * (x + 1) * (x + 1) + r * (20000 - fee) * (x + 1)"
proof -
  let ?f = "10000 - fee" and ?p = "r * (20000 - fee)" and ?q = "10000 * r * s"
  obtain S where S0: "sqrt_u256 (r * (r * ((10000 + ?f) * (10000 + ?f)) + 4 * ?f * s * 10000)) = Inr S"
    and S1: "r * (10000 + ?f) \<le> S"
    and *: "0 < r" "0 < s" "fee < 10000" "x = (S - r * (10000 + ?f)) div (2 * ?f)" "x \<le> i128_max"
    using assms
    by (auto simp: compute_swap_in_for_single_side_def Let_def res_inv chk_inv not_le not_less
        simp del: right_diff_distrib_numeral left_diff_distrib_numeral)
  have p: "r * (10000 + ?f) = ?p"
    by simp
  have "r * (r * ((10000 + ?f) * (10000 + ?f)) + 4 * ?f * s * 10000) = ?p * ?p + 4 * ?f * ?q"
    by (simp add: algebra_simps)
  note S = S0 [unfolded this] S1 [unfolded p]
  note * = *(1-3) *(4) [unfolded p] *(5)
  have "is_isqrt (?p * ?p + 4 * ?f * ?q) S"
    using * by (intro sqrt_u256_Inr S(1)) simp
  then have q: "0 \<le> x" "?f * x * x + ?p * x \<le> ?q" "?q < ?f * (x + 1) * (x + 1) + ?p * (x + 1)"
    using isqrt_root_of_quadratic [of ?f ?p ?q S] S(2) * by simp_all
  show "0 < r" "0 < s" "fee < 10000" "0 \<le> x" "x \<le> i128_max" "?f * x * x + ?p * x \<le> ?q"
    "?q < ?f * (x + 1) * (x + 1) + ?p * (x + 1)"
    by (fact * q)+
qed

lemma compute_swap_in_less:
  assumes "compute_swap_in_for_single_side r s fee = Inr x"
  shows "x < s"
proof (rule ccontr)
  note spec = compute_swap_in_spec [OF assms]
  assume "\<not> x < s"
  then have "r * (20000 - fee) * s \<le> r * (20000 - fee) * x"
    using spec by (intro mult_left_mono) simp_all
  moreover have "10000 * r * s < r * (20000 - fee) * s"
    using spec by (simp add: algebra_simps)
  moreover have "0 \<le> (10000 - fee) * x * x"
    using spec by simp
  ultimately show False
    using spec(6) by linarith
qed

section \<open>Properties\<close>

text \<open>
  C26. The Newton iteration returns exactly the integer square root, for every non-negative
  \<open>i128\<close> but the largest (where computing the start value overflows), and panics otherwise:
  it always terminates.
\<close>

theorem sqrt_is_floor_of_root:
  "sqrt_i128 v = Inr r \<longleftrightarrow> in_i128 (v + 1) \<and> 0 \<le> r \<and> r * r \<le> v \<and> v < (r + 1) * (r + 1)"
proof
  assume *: "sqrt_i128 v = Inr r"
  then have "in_i128 (v + 1)"
    by (auto simp: sqrt_i128_def res_inv split: if_splits)
  with sqrt_i128_Inr [OF *] show "in_i128 (v + 1) \<and> 0 \<le> r \<and> r * r \<le> v \<and> v < (r + 1) * (r + 1)"
    by (simp add: is_isqrt_def)
next
  assume *: "in_i128 (v + 1) \<and> 0 \<le> r \<and> r * r \<le> v \<and> v < (r + 1) * (r + 1)"
  then have v: "0 \<le> v"
    by (metis mult_nonneg_nonneg order_trans)
  have "v < i128_max"
    using * by (simp add: in_i128_def)
  then obtain s where s: "sqrt_i128 v = Inr s"
    using sqrt_i128_total v by blast
  then have "s = r"
    using is_isqrt_unique [OF sqrt_i128_Inr [OF s], of r] * by (simp add: is_isqrt_def)
  with s show "sqrt_i128 v = Inr r"
    by simp
qed

text \<open>
  C27. The single-sided split picks the largest swap amount that does not overshoot: with
  \<open>f = 10000 - fee\<close>, it is the largest non-negative \<open>x\<close> with
  \<open>f x^2 + r (20000 - fee) x <= 10000 r s\<close>, the quadratic of the comment in the source, and it
  leaves something of the deposit \<open>s\<close> to add.
\<close>

theorem single_side_split_is_largest_root:
  assumes "compute_swap_in_for_single_side r s fee = Inr x"
  shows "0 \<le> x \<and> x < s \<and>
    (\<forall>y. 0 \<le> y \<longrightarrow> (y \<le> x \<longleftrightarrow> (10000 - fee) * y * y + r * (20000 - fee) * y \<le> 10000 * r * s))"
proof -
  note spec = compute_swap_in_spec [OF assms]
  define g where "g y = (10000 - fee) * y * y + r * (20000 - fee) * y" for y
  have mono: "g y \<le> g z" if "0 \<le> y" "y \<le> z" for y z
    unfolding g_def using that spec by (intro add_mono mult_mono) simp_all
  have "y \<le> x \<longleftrightarrow> g y \<le> 10000 * r * s" if "0 \<le> y" for y
  proof
    assume "y \<le> x"
    then show "g y \<le> 10000 * r * s"
      using mono [OF that] spec(6) by (fastforce simp: g_def)
  next
    assume y: "g y \<le> 10000 * r * s"
    show "y \<le> x"
    proof (rule ccontr)
      assume "\<not> y \<le> x"
      then have "g (x + 1) \<le> g y"
        using spec by (intro mono) simp_all
      with y spec(7) show False by (simp add: g_def)
    qed
  qed
  then show ?thesis
    using spec(4) compute_swap_in_less [OF assms] by (simp add: g_def)
qed

theorem single_side_split_is_largest_root_witness:
  "compute_swap_in_for_single_side 1000000 200000 30 = Inr 95588 \<and> (95588::int) < 200000 \<and>
   9970 * 95588 * 95588 + 1000000 * 19970 * 95588 \<le> 10000 * 1000000 * (200000::int)"
proof -
  have q: "compute_swap_in_for_single_side 1000000 200000 30 = Inr 95588"
    by (simp add: compute_swap_in_for_single_side_def sqrt_u256_def newton.simps u256_defs
        i128_max_def)
  show ?thesis
    using single_side_split_is_largest_root [OF q] q by auto
qed

end
