(* ===== verification/Pair_Fee.thy ===== *)
theory Pair_Fee
  imports Pair_Math
begin

text \<open>
  The dynamic fee engine of the pair: \<open>FeeState\<close> (\<open>storage.rs\<close>), the size-weighted EMA and the
  fee formula (\<open>dynamic_fee.rs\<close>), and the time decay (\<open>fee_decay.rs\<close>). The lemmas bound the
  fee, show that the EMA is a convex combination capped at the maximal fee, and give the decay
  loop its closed form.
\<close>

section \<open>State\<close>

record fee_state =
  vol_accumulator :: int
  ema_alpha :: int
  baseline_fee_bps :: int
  min_fee_bps :: int
  max_fee_bps :: int
  ramp_up_multiplier :: int
  cooldown_divisor :: int
  last_fee_update :: int
  decay_threshold_blocks :: int
  stale_threshold :: int

definition DEFAULT_STALE_LEDGER_THRESHOLD :: int where
  "DEFAULT_STALE_LEDGER_THRESHOLD = 100"

definition FEE_SCALE :: int where
  "FEE_SCALE = 100000000000000"

definition SCALE_TO_BPS :: int where
  "SCALE_TO_BPS = FEE_SCALE div 10000"

lemma fee_scale_values: "FEE_SCALE = 100000000000000" "SCALE_TO_BPS = 10000000000"
  by (simp_all add: FEE_SCALE_def SCALE_TO_BPS_def)

text \<open>The ranges the field types of \<open>FeeState\<close> give.\<close>

definition fee_state_typed :: "fee_state \<Rightarrow> bool" where
  "fee_state_typed fs \<longleftrightarrow>
     in_i128 (vol_accumulator fs) \<and> in_i128 (ema_alpha fs) \<and> in_u32 (baseline_fee_bps fs) \<and>
     in_u32 (min_fee_bps fs) \<and> in_u32 (max_fee_bps fs) \<and> in_u32 (ramp_up_multiplier fs) \<and>
     in_u32 (cooldown_divisor fs) \<and> in_u64 (last_fee_update fs) \<and>
     in_u64 (decay_threshold_blocks fs) \<and> in_u32 (stale_threshold fs)"

section \<open>Updating the volatility\<close>

definition volatility_observation :: "int \<Rightarrow> int \<Rightarrow> int \<Rightarrow> (pair_error, int) res" where
  "volatility_observation price_delta_abs trade_size total_reserve =
     bindR (ok_or (i128_checked_mul trade_size FEE_SCALE) P_Overflow) (\<lambda>scaled.
     bindR (ok_or (i128_checked_div scaled total_reserve) P_Overflow) (\<lambda>weight.
     bindR (ok_or (i128_checked_mul price_delta_abs weight) P_Overflow) (\<lambda>weighted.
     ok_or (i128_checked_div weighted FEE_SCALE) P_Overflow)))"

definition ema_blend :: "int \<Rightarrow> int \<Rightarrow> int \<Rightarrow> (pair_error, int) res" where
  "ema_blend alpha observation accumulator =
     bindR (ok_or (i128_checked_mul alpha observation) P_Overflow) (\<lambda>alpha_term.
     bindR (ok_or (i128_checked_sub FEE_SCALE alpha) P_Overflow) (\<lambda>complement.
     bindR (ok_or (i128_checked_mul complement accumulator) P_Overflow) (\<lambda>prev_term.
     bindR (ok_or (i128_checked_add alpha_term prev_term) P_Overflow) (\<lambda>total.
     ok_or (i128_checked_div total FEE_SCALE) P_Overflow))))"

definition cap_accumulator :: "fee_state \<Rightarrow> int \<Rightarrow> int" where
  "cap_accumulator fs accumulator =
     (if ramp_up_multiplier fs > 0 then
        let fee_headroom = i128_saturating_sub (max_fee_bps fs) (baseline_fee_bps fs);
            max_vol = i128_saturating_mul fee_headroom SCALE_TO_BPS sdiv ramp_up_multiplier fs in
        min accumulator max_vol
      else accumulator)"

definition update_volatility ::
  "env \<Rightarrow> fee_state \<Rightarrow> int \<Rightarrow> int \<Rightarrow> int \<Rightarrow> (pair_error, fee_state) res" where
  "update_volatility e fs price_delta_abs trade_size total_reserve =
     reject (price_delta_abs < 0 \<or> trade_size \<le> 0 \<or> total_reserve \<le> 0) P_InvalidInput (
     reject (ema_alpha fs < 0 \<or> ema_alpha fs > FEE_SCALE) P_InvalidEmaAlpha (
     bindR (volatility_observation price_delta_abs trade_size total_reserve) (\<lambda>observation.
     bindR (ema_blend (ema_alpha fs) observation (vol_accumulator fs)) (\<lambda>accumulator.
     Inr (fs\<lparr>vol_accumulator := cap_accumulator fs accumulator,
             last_fee_update := e_timestamp e\<rparr>)))))"

section \<open>The fee\<close>

text \<open>\<open>Ord::clamp\<close> panics when its bounds are out of order.\<close>

definition clampR :: "int \<Rightarrow> int \<Rightarrow> int \<Rightarrow> (pair_error, int) res" where
  "clampR x lo hi = require (lo \<le> hi) (Inr (max lo (min hi x)))"

definition compute_fee_bps :: "fee_state \<Rightarrow> (pair_error, int) res" where
  "compute_fee_bps fs =
     (if vol_accumulator fs = 0 then clampR (baseline_fee_bps fs) (min_fee_bps fs) (max_fee_bps fs)
      else
        let vol_bps = i128_saturating_mul (vol_accumulator fs) (ramp_up_multiplier fs)
              sdiv SCALE_TO_BPS;
            fee = i128_saturating_add (baseline_fee_bps fs) vol_bps in
        clampR fee (min_fee_bps fs) (max_fee_bps fs))"

section \<open>Decay of a stale accumulator\<close>

definition MAX_DECAY_PERIODS :: int where
  "MAX_DECAY_PERIODS = 64"

fun decay_loop :: "nat \<Rightarrow> int \<Rightarrow> int \<Rightarrow> int" where
  "decay_loop 0 divisor vol = vol"
| "decay_loop (Suc n) divisor vol =
     (let vol' = vol sdiv divisor in if vol' \<le> 0 then 0 else decay_loop n divisor vol')"

definition apply_time_decay :: "fee_state \<Rightarrow> int \<Rightarrow> fee_state" where
  "apply_time_decay fs current_ledger =
     (let elapsed = u64_saturating_sub current_ledger (last_fee_update fs) in
      if elapsed = 0 \<or> vol_accumulator fs \<le> 0 then fs
      else
        let divisor = max (cooldown_divisor fs) 2;
            threshold = max (decay_threshold_blocks fs) 1;
            decay_periods = min (elapsed div threshold) MAX_DECAY_PERIODS in
        if decay_periods = 0 then fs
        else
          let vol = decay_loop (nat decay_periods) divisor (vol_accumulator fs) in
          fs\<lparr>vol_accumulator := (if vol < 0 then 0 else vol), last_fee_update := current_ledger\<rparr>)"

definition decay_stale_ema :: "env \<Rightarrow> fee_state \<Rightarrow> (pair_error, fee_state) res" where
  "decay_stale_ema e fs =
     require (in_u64 (last_fee_update fs + stale_threshold fs)) (
     Inr (if e_sequence e > last_fee_update fs + stale_threshold fs
          then apply_time_decay fs (e_sequence e) else fs))"

section \<open>Bounds of the fee\<close>

lemma clampR_Inr [res_inv]: "clampR x lo hi = Inr y \<longleftrightarrow> lo \<le> hi \<and> y = max lo (min hi x)"
  by (auto simp: clampR_def require_def)

lemma compute_fee_bps_bounds:
  "compute_fee_bps fs = Inr fee \<Longrightarrow> min_fee_bps fs \<le> fee \<and> fee \<le> max_fee_bps fs"
  by (auto simp: compute_fee_bps_def Let_def res_inv split: if_splits)

lemma compute_fee_bps_total:
  "(\<exists>fee. compute_fee_bps fs = Inr fee) \<longleftrightarrow> min_fee_bps fs \<le> max_fee_bps fs"
  by (auto simp: compute_fee_bps_def Let_def res_inv)

text \<open>More volatility never lowers the fee.\<close>

lemma compute_fee_bps_mono:
  assumes "compute_fee_bps fs = Inr fee" "compute_fee_bps (fs\<lparr>vol_accumulator := v\<rparr>) = Inr fee'"
    and "0 \<le> vol_accumulator fs" "vol_accumulator fs \<le> v"
    and "0 \<le> ramp_up_multiplier fs" "0 \<le> baseline_fee_bps fs" "in_i128 (baseline_fee_bps fs)"
  shows "fee \<le> fee'"
proof -
  define bps where "bps u = i128_saturating_mul u (ramp_up_multiplier fs) sdiv SCALE_TO_BPS" for u
  have bps_div: "bps u = i128_saturate (u * ramp_up_multiplier fs) div SCALE_TO_BPS"
    and bps_nonneg: "0 \<le> bps u" if "0 \<le> u" for u
  proof -
    have "0 \<le> i128_saturate (u * ramp_up_multiplier fs)"
      using that assms by (intro saturate_nonneg) simp
    then show "bps u = i128_saturate (u * ramp_up_multiplier fs) div SCALE_TO_BPS" "0 \<le> bps u"
      by (simp_all add: bps_def i128_saturating_mul_def sdiv_nonneg fee_scale_values
          pos_imp_zdiv_nonneg_iff)
  qed
  have "bps (vol_accumulator fs) \<le> bps v"
    using assms
    by (simp add: bps_div fee_scale_values)
      (intro zdiv_mono1 saturate_mono mult_right_mono; simp)
  then have le: "i128_saturate (baseline_fee_bps fs + bps (vol_accumulator fs))
      \<le> i128_saturate (baseline_fee_bps fs + bps v)"
    by (intro saturate_mono) simp
  have zero: "i128_saturate (baseline_fee_bps fs + bps 0) = baseline_fee_bps fs"
    using assms by (simp add: bps_div)
  have ge: "baseline_fee_bps fs \<le> i128_saturate (baseline_fee_bps fs + bps v)"
    using assms bps_nonneg [of v]
    by (subst zero [symmetric], intro saturate_mono) (simp add: bps_div)
  show ?thesis
    using assms(1,2) le ge \<open>vol_accumulator fs \<le> v\<close> \<open>0 \<le> vol_accumulator fs\<close>
    by (auto simp: compute_fee_bps_def Let_def res_inv bps_def [symmetric]
        i128_saturating_add_def split: if_splits)
qed

section \<open>The EMA is a capped convex combination\<close>

lemma volatility_observation_Inr:
  assumes "volatility_observation d t r = Inr obs" "0 \<le> d" "0 < t" "0 < r"
  shows "obs = d * (t * FEE_SCALE div r) div FEE_SCALE" "0 \<le> obs"
proof -
  have w: "0 \<le> t * FEE_SCALE div r"
    using assms by (simp add: pos_imp_zdiv_nonneg_iff fee_scale_values)
  with assms show "obs = d * (t * FEE_SCALE div r) div FEE_SCALE"
    by (auto simp: volatility_observation_def res_inv chk_inv sdiv_nonneg fee_scale_values)
  with w assms(2) show "0 \<le> obs"
    by (simp add: pos_imp_zdiv_nonneg_iff fee_scale_values)
qed

lemma ema_blend_Inr:
  assumes "ema_blend alpha obs acc = Inr new" "0 \<le> alpha" "alpha \<le> FEE_SCALE" "0 \<le> obs" "0 \<le> acc"
  shows "new = (alpha * obs + (FEE_SCALE - alpha) * acc) div FEE_SCALE"
    "min obs acc \<le> new" "new \<le> max obs acc"
proof -
  have s: "0 < FEE_SCALE"
    by (simp add: fee_scale_values)
  have nonneg: "0 \<le> alpha * obs + (FEE_SCALE - alpha) * acc"
    using assms by simp
  with assms(1) s show new: "new = (alpha * obs + (FEE_SCALE - alpha) * acc) div FEE_SCALE"
    by (auto simp: ema_blend_def res_inv chk_inv sdiv_nonneg)
  have "min obs acc * FEE_SCALE = alpha * min obs acc + (FEE_SCALE - alpha) * min obs acc"
    by (simp add: algebra_simps)
  also have "\<dots> \<le> alpha * obs + (FEE_SCALE - alpha) * acc"
    using assms by (intro add_mono mult_left_mono) simp_all
  finally show "min obs acc \<le> new"
    using s by (simp add: new le_floor_iff)
  have "alpha * obs + (FEE_SCALE - alpha) * acc
      \<le> alpha * max obs acc + (FEE_SCALE - alpha) * max obs acc"
    using assms by (intro add_mono mult_left_mono) simp_all
  also have "\<dots> = max obs acc * FEE_SCALE"
    by (simp add: algebra_simps)
  also have "\<dots> < (max obs acc + 1) * FEE_SCALE"
    using s by (simp add: algebra_simps)
  finally have "new < max obs acc + 1"
    unfolding new floor_less_iff [OF s] .
  then show "new \<le> max obs acc"
    by simp
qed

lemma cap_accumulator_le: "cap_accumulator fs acc \<le> acc"
  by (simp add: cap_accumulator_def Let_def)

lemma cap_accumulator_nonneg:
  assumes "0 \<le> acc" "baseline_fee_bps fs \<le> max_fee_bps fs"
  shows "0 \<le> cap_accumulator fs acc"
proof -
  have "0 \<le> i128_saturating_mul (i128_saturating_sub (max_fee_bps fs) (baseline_fee_bps fs)) SCALE_TO_BPS"
    using assms
    by (auto simp: i128_saturating_mul_def i128_saturating_sub_def fee_scale_values
        intro!: saturate_nonneg)
  then show ?thesis
    using assms(1)
    by (auto simp: cap_accumulator_def Let_def sdiv_nonneg pos_imp_zdiv_nonneg_iff)
qed

text \<open>
  After an update the accumulator contributes at most the headroom between the baseline and
  the maximal fee, so the fee recovers from the cap as soon as the accumulator decays.
\<close>

lemma cap_accumulator_headroom:
  assumes "0 < ramp_up_multiplier fs" "baseline_fee_bps fs \<le> max_fee_bps fs"
  shows "cap_accumulator fs acc * ramp_up_multiplier fs
    \<le> (max_fee_bps fs - baseline_fee_bps fs) * SCALE_TO_BPS"
proof -
  define h where "h = i128_saturating_sub (max_fee_bps fs) (baseline_fee_bps fs)"
  have h: "0 \<le> h" "h \<le> max_fee_bps fs - baseline_fee_bps fs"
    using assms by (auto simp: h_def i128_saturating_sub_def intro!: saturate_nonneg saturate_le)
  define m where "m = i128_saturating_mul h SCALE_TO_BPS"
  have m: "0 \<le> m" "m \<le> h * SCALE_TO_BPS"
    using h by (auto simp: m_def i128_saturating_mul_def fee_scale_values
        intro!: saturate_nonneg saturate_le)
  have "cap_accumulator fs acc \<le> m div ramp_up_multiplier fs"
    using assms m by (simp add: cap_accumulator_def Let_def h_def [symmetric] m_def [symmetric]
        sdiv_nonneg)
  then have "cap_accumulator fs acc * ramp_up_multiplier fs \<le> m"
    using assms by (simp add: le_floor_iff)
  also have "\<dots> \<le> (max_fee_bps fs - baseline_fee_bps fs) * SCALE_TO_BPS"
    using m(2) mult_right_mono [OF h(2), of SCALE_TO_BPS] by (simp add: fee_scale_values)
  finally show ?thesis .
qed

lemma update_volatility_Inr:
  assumes "update_volatility e fs d t r = Inr fs'"
  shows "\<exists>obs acc. volatility_observation d t r = Inr obs \<and>
     ema_blend (ema_alpha fs) obs (vol_accumulator fs) = Inr acc \<and>
     fs' = fs\<lparr>vol_accumulator := cap_accumulator fs acc, last_fee_update := e_timestamp e\<rparr> \<and>
     0 \<le> d \<and> 0 < t \<and> 0 < r \<and> 0 \<le> ema_alpha fs \<and> ema_alpha fs \<le> FEE_SCALE"
  using assms by (auto simp: update_volatility_def res_inv not_less not_le)

section \<open>The decay loop in closed form\<close>

lemma decay_loop_closed:
  assumes "0 \<le> vol" "2 \<le> divisor"
  shows "decay_loop n divisor vol = vol div divisor ^ n"
  using assms
proof (induction n arbitrary: vol)
  case (Suc n)
  have q: "0 \<le> vol div divisor" "vol sdiv divisor = vol div divisor"
    using Suc.prems by (simp_all add: pos_imp_zdiv_nonneg_iff sdiv_nonneg)
  have "vol div divisor ^ Suc n = vol div divisor div divisor ^ n"
    using Suc.prems by (simp add: zdiv_zmult2_eq)
  with q Suc show ?case
    by (auto simp: Let_def)
qed simp

lemma apply_time_decay_frame:
  "apply_time_decay fs l =
     fs\<lparr>vol_accumulator := vol_accumulator (apply_time_decay fs l),
        last_fee_update := last_fee_update (apply_time_decay fs l)\<rparr>"
  by (simp add: apply_time_decay_def Let_def)

lemma apply_time_decay_vol:
  assumes "0 \<le> vol_accumulator fs"
  shows "0 \<le> vol_accumulator (apply_time_decay fs l)"
    "vol_accumulator (apply_time_decay fs l) \<le> vol_accumulator fs"
proof -
  let ?d = "max (cooldown_divisor fs) 2"
  have closed: "decay_loop n ?d (vol_accumulator fs) = vol_accumulator fs div ?d ^ n" for n
    using assms by (intro decay_loop_closed) simp_all
  have "0 \<le> vol_accumulator fs div ?d ^ n" for n
    using assms by (simp add: pos_imp_zdiv_nonneg_iff)
  moreover have "vol_accumulator fs div ?d ^ n \<le> vol_accumulator fs" for n
    using zdiv_mono2 [of "vol_accumulator fs" 1 "?d ^ n"] assms by simp
  ultimately show "0 \<le> vol_accumulator (apply_time_decay fs l)"
    "vol_accumulator (apply_time_decay fs l) \<le> vol_accumulator fs"
    using assms by (simp_all add: apply_time_decay_def Let_def closed)
qed

text \<open>\<open>compute_fee_decay\<close> in closed form: one division per elapsed period, at most 64 of them.\<close>

definition decay_periods_of :: "fee_state \<Rightarrow> int \<Rightarrow> nat" where
  "decay_periods_of fs l =
     nat (min (max 0 (l - last_fee_update fs) div max (decay_threshold_blocks fs) 1) 64)"

lemma apply_time_decay_closed:
  assumes "0 \<le> vol_accumulator fs"
  shows "vol_accumulator (apply_time_decay fs l) =
    vol_accumulator fs div max (cooldown_divisor fs) 2 ^ decay_periods_of fs l"
proof -
  let ?d = "max (cooldown_divisor fs) 2"
  have closed: "decay_loop n ?d (vol_accumulator fs) = vol_accumulator fs div ?d ^ n" for n
    using assms by (intro decay_loop_closed) simp_all
  have "\<not> vol_accumulator fs div ?d ^ n < 0" for n
    using assms by (simp add: pos_imp_zdiv_nonneg_iff not_less)
  then show ?thesis
    using assms
    by (auto simp: apply_time_decay_def decay_periods_of_def Let_def closed MAX_DECAY_PERIODS_def
        u64_saturating_sub_def)
qed

section \<open>Properties\<close>

text \<open>
  A volatility update blends the size-weighted price move into the accumulator as a convex
  combination, never past the larger of the two, and caps the result so that its contribution
  to the fee does not exceed the room between the baseline and the maximal fee: the accumulator
  cannot run away from what the fee can express.
\<close>

lemma volatility_update_is_capped_blend:
  assumes "update_volatility e fs d t r = Inr fs'"
    and "0 \<le> vol_accumulator fs" "0 < ramp_up_multiplier fs" "baseline_fee_bps fs \<le> max_fee_bps fs"
  shows "0 \<le> vol_accumulator fs' \<and>
    vol_accumulator fs' \<le> max (vol_accumulator fs) (d * (t * FEE_SCALE div r) div FEE_SCALE) \<and>
    vol_accumulator fs' * ramp_up_multiplier fs
      \<le> (max_fee_bps fs - baseline_fee_bps fs) * SCALE_TO_BPS"
proof -
  obtain obs acc where *: "volatility_observation d t r = Inr obs"
    "ema_blend (ema_alpha fs) obs (vol_accumulator fs) = Inr acc"
    "vol_accumulator fs' = cap_accumulator fs acc"
    "0 \<le> d" "0 < t" "0 < r" "0 \<le> ema_alpha fs" "ema_alpha fs \<le> FEE_SCALE"
    using update_volatility_Inr [OF assms(1)] by auto
  note obs = volatility_observation_Inr [OF *(1,4,5,6)]
  note acc = ema_blend_Inr [OF *(2,7,8) obs(2) assms(2)]
  have "0 \<le> acc"
    using acc(2) obs(2) assms(2) by (simp add: min_def split: if_splits)
  then show ?thesis
    using cap_accumulator_nonneg [of acc fs] cap_accumulator_le [of fs acc]
      cap_accumulator_headroom [of fs acc] acc(3) assms *(3) obs(1)
    by (simp add: max.commute)
qed

definition ex_fee_state :: fee_state where
  "ex_fee_state = \<lparr>vol_accumulator = 500000000000, ema_alpha = 10000000000000,
     baseline_fee_bps = 30, min_fee_bps = 10, max_fee_bps = 100, ramp_up_multiplier = 2,
     cooldown_divisor = 2, last_fee_update = 0, decay_threshold_blocks = 100,
     stale_threshold = 100\<rparr>"

definition ex_fee_env :: env where
  "ex_fee_env = \<lparr>e_timestamp = 1750000000, e_sequence = 57000000, e_self = Address 1,
     e_auth = (\<lambda>_. False)\<rparr>"

lemmas ex_fee_defs = ex_fee_state_def ex_fee_env_def

lemma ex_fee_update:
  "update_volatility ex_fee_env ex_fee_state 2000000000000 1000 10000 =
     Inr (ex_fee_state\<lparr>vol_accumulator := 350000000000, last_fee_update := 1750000000\<rparr>)"
  by (simp add: update_volatility_def volatility_observation_def ema_blend_def cap_accumulator_def
      fee_scale_values ex_fee_defs int_ops_defs)

text \<open>
  The decay of a stale accumulator is exponential: it divides by the cooldown divisor (at
  least 2) once per elapsed period, at most 64 times, touches nothing but the accumulator and
  the update mark, and with every period the accumulator only falls.
\<close>

theorem decay_is_exponential:
  assumes "0 \<le> vol_accumulator fs"
  shows "vol_accumulator (apply_time_decay fs l) =
      vol_accumulator fs div max (cooldown_divisor fs) 2 ^ decay_periods_of fs l \<and>
    (\<exists>v u. apply_time_decay fs l = fs\<lparr>vol_accumulator := v, last_fee_update := u\<rparr>) \<and>
    0 \<le> vol_accumulator (apply_time_decay fs l) \<and>
    vol_accumulator (apply_time_decay fs l) \<le> vol_accumulator fs"
  using apply_time_decay_closed [OF assms, of l] apply_time_decay_vol [OF assms, of l]
    apply_time_decay_frame [of fs l] by blast

text \<open>
  The decay does not run after a swap. A volatility update marks the time with the ledger's
  close time in seconds, but the decay compares that mark with the ledger's sequence number:
  while the sequence number is below the timestamp of the last update plus the threshold, the
  stale accumulator is left as it is, however many ledgers have passed.
\<close>

theorem decay_never_runs_after_update:
  assumes "update_volatility e fs d t r = Inr fs'" "fee_state_typed fs"
    and "0 \<le> e_timestamp e" "e_timestamp e + 4294967295 \<le> u64_max"
    and "e_sequence e' \<le> e_timestamp e"
  shows "decay_stale_ema e' fs' = Inr fs'"
proof -
  obtain v where fs': "fs' = fs\<lparr>vol_accumulator := v, last_fee_update := e_timestamp e\<rparr>"
    using update_volatility_Inr [OF assms(1)] by blast
  have "0 \<le> stale_threshold fs" "stale_threshold fs \<le> 4294967295"
    using assms(2) by (simp_all add: fee_state_typed_def in_u32_def u32_max_def)
  then show ?thesis
    using assms(3-5) by (simp add: fs' decay_stale_ema_def in_u64_def)
qed

text \<open>
  More volatility never lowers the fee, and the fee stays within its configured bounds.
\<close>

theorem fee_is_monotone_and_bounded:
  assumes "compute_fee_bps fs = Inr fee" "compute_fee_bps (fs\<lparr>vol_accumulator := v\<rparr>) = Inr fee'"
    and "fee_state_typed fs" "0 \<le> vol_accumulator fs" "vol_accumulator fs \<le> v"
  shows "min_fee_bps fs \<le> fee \<and> fee \<le> fee' \<and> fee' \<le> max_fee_bps fs"
  using compute_fee_bps_mono [OF assms(1,2)] compute_fee_bps_bounds [OF assms(1)]
    compute_fee_bps_bounds [OF assms(2)] assms(3-5)
  by (simp add: fee_state_typed_def in_u32_def u32_max_def in_i128_def i128_max_def i128_min_def)

end
