(* ===== verification/Pair_Oracle.thy ===== *)
theory Pair_Oracle
  imports Pair_Fee
begin

text \<open>
  The price oracle of the pair, \<open>oracle/mod.rs\<close> with \<open>OracleState\<close> of \<open>storage.rs\<close>: the ring
  buffer of samples, the cumulative prices and \<open>consult_twap\<close>. The ring is refined to the list
  of its live samples, oldest first: \<open>push\<close> appends and drops the oldest when full, pruning is
  \<open>dropWhile\<close>, and \<open>sample\<close> is list lookup.
\<close>

section \<open>The ring buffer\<close>

type_synonym observation = "int \<times> int \<times> int"

record oracle_state =
  price_a_cumulative :: int
  price_b_cumulative :: int
  slots :: "observation list"
  head :: nat
  count :: nat

datatype oracle_error = O_WindowTooShort | O_WindowTooLong

definition MAX_TWAP_WINDOW :: int where "MAX_TWAP_WINDOW = 86400"

definition MAX_OBSERVATIONS :: nat where "MAX_OBSERVATIONS = 24"

definition empty_oracle :: oracle_state where
  "empty_oracle =
     \<lparr>price_a_cumulative = 0, price_b_cumulative = 0, slots = [], head = 0, count = 0\<rparr>"

text \<open>\<open>soroban_sdk::Vec::get\<close>\<close>

definition vec_get :: "'a list \<Rightarrow> nat \<Rightarrow> 'a option" where
  "vec_get xs i = (if i < length xs then Some (xs ! i) else None)"

definition oracle_sample :: "oracle_state \<Rightarrow> nat \<Rightarrow> observation option" where
  "oracle_sample st index =
     (if index \<ge> count st then None
      else vec_get (slots st) ((head st + index) mod MAX_OBSERVATIONS))"

definition oracle_oldest :: "oracle_state \<Rightarrow> observation option" where
  "oracle_oldest st = oracle_sample st 0"

definition oracle_newest :: "oracle_state \<Rightarrow> observation option" where
  "oracle_newest st = (if count st = 0 then None else oracle_sample st (count st - 1))"

text \<open>\<open>Vec::set\<close> panics past the end; that case is \<open>None\<close>.\<close>

definition vec_set :: "'a list \<Rightarrow> nat \<Rightarrow> 'a \<Rightarrow> 'a list option" where
  "vec_set xs i x = (if i < length xs then Some (xs[i := x]) else None)"

definition oracle_push :: "observation \<Rightarrow> oracle_state \<Rightarrow> oracle_state option" where
  "oracle_push s st =
     (if count st < MAX_OBSERVATIONS then
        let index = (head st + count st) mod MAX_OBSERVATIONS in
        Some (st\<lparr>slots := (if index < length (slots st) then (slots st)[index := s]
                            else slots st @ [s]),
                 count := count st + 1\<rparr>)
      else
        map_option (\<lambda>slots'. st\<lparr>slots := slots', head := (head st + 1) mod MAX_OBSERVATIONS\<rparr>)
          (vec_set (slots st) (head st) s))"

function prune_expired :: "int \<Rightarrow> oracle_state \<Rightarrow> oracle_state" where
  "prune_expired now st =
     (case oracle_oldest st of
        None \<Rightarrow> st
      | Some (ledger, _, _) \<Rightarrow>
          if ledger + MAX_TWAP_WINDOW \<ge> now then st
          else prune_expired now
            (st\<lparr>head := (head st + 1) mod MAX_OBSERVATIONS, count := count st - 1\<rparr>))"
  by pat_completeness auto
termination
  by (relation "measure (\<lambda>(now, st). count st)")
    (auto simp: oracle_oldest_def oracle_sample_def split: if_splits)

declare prune_expired.simps [simp del]

section \<open>Cumulative prices\<close>

definition update_cumulative_prices ::
  "env \<Rightarrow> int \<Rightarrow> int \<Rightarrow> int \<Rightarrow> oracle_state \<Rightarrow> (oracle_error, oracle_state) res" where
  "update_cumulative_prices e reserve_a reserve_b time_elapsed st =
     (if reserve_a = 0 \<or> reserve_b = 0 \<or> time_elapsed = 0 then Inr st
      else
        bindR (arith (reserve_b sdiv reserve_a)) (\<lambda>price_a.
        bindR (arith (reserve_a sdiv reserve_b)) (\<lambda>price_b.
        let price_a_delta = i128_wrap (price_a * time_elapsed);
            price_b_delta = i128_wrap (price_b * time_elapsed);
            st1 = st\<lparr>price_a_cumulative := i128_wrap (price_a_cumulative st + price_a_delta),
                     price_b_cumulative := i128_wrap (price_b_cumulative st + price_b_delta)\<rparr>;
            now = e_sequence e;
            st2 = prune_expired now st1 in
        or_panic (oracle_push (now, price_a_cumulative st2, price_b_cumulative st2) st2))))"

section \<open>Time-weighted average prices\<close>

fun twap_scan :: "oracle_state \<Rightarrow> int \<Rightarrow> nat list \<Rightarrow> observation \<Rightarrow> observation \<Rightarrow>
    (oracle_error, observation \<times> observation) res" where
  "twap_scan st target [] start end = Inr (start, end)"
| "twap_scan st target (i # is) start end =
     bindR (or_panic (oracle_sample st i)) (\<lambda>s.
     let start' = (if fst s \<le> target then s else start) in
     if fst s \<ge> target \<and> fst end \<le> target then Inr (start', s)
     else twap_scan st target is start' end)"

definition interpolate :: "int \<Rightarrow> int \<Rightarrow> int \<Rightarrow> int \<Rightarrow> int \<Rightarrow> (oracle_error, int) res" where
  "interpolate target start_ledger start_v end_ledger end_v =
     (if end_ledger = start_ledger then Inr start_v
      else
        bindR (arith (i128_wrap (end_v - start_v) * (target - start_ledger))) (\<lambda>scaled.
        Inr (i128_wrap (start_v + scaled sdiv (end_ledger - start_ledger)))))"

definition consult_twap ::
  "env \<Rightarrow> int \<Rightarrow> oracle_state \<Rightarrow> (oracle_error, int \<times> int) res" where
  "consult_twap e window_ledgers st =
     reject (window_ledgers = 0) O_WindowTooShort (
     reject (window_ledgers > MAX_TWAP_WINDOW) O_WindowTooLong (
     reject (count st = 0) O_WindowTooShort (
     let target = u64_saturating_sub (e_sequence e) window_ledgers in
     bindR (or_panic (oracle_sample st 0)) (\<lambda>oldest.
     reject (fst oldest > target) O_WindowTooShort (
     bindR (twap_scan st target [0..<count st] oldest oldest) (\<lambda>(start, end).
     case (start, end) of ((start_ledger, start_a, start_b), (end_ledger, end_a, end_b)) \<Rightarrow>
     bindR (interpolate target start_ledger start_a end_ledger end_a) (\<lambda>interpolated_a.
     bindR (interpolate target start_ledger start_b end_ledger end_b) (\<lambda>interpolated_b.
     bindR (or_panic (oracle_newest st)) (\<lambda>(latest_ledger, latest_a, latest_b).
     reject (latest_ledger < target + window_ledgers) O_WindowTooShort (
     let time_elapsed = u64_saturating_sub latest_ledger target in
     if time_elapsed = 0 then Inr (0, 0)
     else
       Inr (i128_wrap (latest_a - interpolated_a) sdiv time_elapsed,
            i128_wrap (latest_b - interpolated_b) sdiv time_elapsed)))))))))))"

section \<open>The ring refines a list\<close>

text \<open>
  The representation invariant. The last conjunct is what makes the append branch of \<open>push\<close>
  correct: the slot after the newest sample either exists already or is the next free one.
\<close>

definition ring_ok :: "oracle_state \<Rightarrow> bool" where
  "ring_ok st \<longleftrightarrow>
     length (slots st) \<le> 24 \<and> head st < 24 \<and> count st \<le> 24 \<and>
     (\<forall>i < count st. (head st + i) mod 24 < length (slots st)) \<and>
     (head st + count st) mod 24 \<le> length (slots st)"

definition ring_list :: "oracle_state \<Rightarrow> observation list" where
  "ring_list st = map (\<lambda>i. slots st ! ((head st + i) mod 24)) [0..<count st]"

lemma length_ring_list [simp]: "length (ring_list st) = count st"
  by (simp add: ring_list_def)

lemma ring_slot_inj_le:
  assumes "j < 24" "(h + j) mod 24 = (h + i) mod (24::nat)" "i \<le> j"
  shows "i = j"
proof -
  have "24 dvd (h + j) - (h + i)"
    using assms(2,3) mod_eq_dvd_iff_nat [of "h + i" "h + j" 24] by simp
  then have "24 dvd j - i" by simp
  then show ?thesis
    using assms dvd_imp_le [of 24 "j - i"] by fastforce
qed

lemma ring_slot_inj:
  assumes "i < 24" "j < 24" "(h + i) mod 24 = (h + j) mod (24::nat)"
  shows "i = j"
  using ring_slot_inj_le [of j h i] ring_slot_inj_le [of i h j] assms
  by (cases "i \<le> j") auto

lemma ring_ok_empty: "ring_ok empty_oracle" "ring_list empty_oracle = []"
  by (simp_all add: ring_ok_def ring_list_def empty_oracle_def)

lemma ring_sample:
  assumes "ring_ok st"
  shows "oracle_sample st i = (if i < count st then Some (ring_list st ! i) else None)"
  using assms
  by (auto simp: oracle_sample_def vec_get_def ring_ok_def ring_list_def MAX_OBSERVATIONS_def)

lemma ring_full_slots:
  assumes "ring_ok st" "count st = 24"
  shows "length (slots st) = 24"
proof (rule ccontr)
  assume "length (slots st) \<noteq> 24"
  with assms have "length (slots st) \<le> 23"
    by (simp add: ring_ok_def)
  moreover have all: "\<forall>i<24. (head st + i) mod 24 < length (slots st)" "head st < 24"
    using assms by (simp_all add: ring_ok_def)
  have "(head st + (23 - head st)) mod 24 < length (slots st)"
    by (rule all(1) [rule_format]) simp
  with all(2) have "23 < length (slots st)" by simp
  ultimately show False by simp
qed

lemma ring_push_room:
  assumes "ring_ok st" "count st < 24"
  shows "\<exists>st'. oracle_push s st = Some st' \<and> ring_ok st' \<and> ring_list st' = ring_list st @ [s]"
proof -
  let ?i = "(head st + count st) mod 24"
  let ?slots = "if ?i < length (slots st) then (slots st)[?i := s] else slots st @ [s]"
  let ?st = "st\<lparr>slots := ?slots, count := count st + 1\<rparr>"
  have push: "oracle_push s st = Some ?st"
    using assms by (simp add: oracle_push_def Let_def MAX_OBSERVATIONS_def)
  have le: "?i \<le> length (slots st)" "length (slots st) \<le> 24" "?i < 24" "head st < 24"
    using assms by (simp_all add: ring_ok_def)
  have new: "?slots ! ?i = s" "?i < length ?slots" "length ?slots \<le> 24"
    using le by (auto simp: nth_append)
  have old: "?slots ! ((head st + i) mod 24) = slots st ! ((head st + i) mod 24)"
    "(head st + i) mod 24 < length ?slots" if "i < count st" for i
  proof -
    have lt: "(head st + i) mod 24 < length (slots st)"
      using assms that by (simp add: ring_ok_def)
    have "(head st + i) mod 24 \<noteq> ?i"
      using ring_slot_inj [of i "count st" "head st"] assms that by auto
    with lt show "?slots ! ((head st + i) mod 24) = slots st ! ((head st + i) mod 24)"
      "(head st + i) mod 24 < length ?slots"
      by (auto simp: nth_append)
  qed
  have next_slot: "(head st + (count st + 1)) mod 24 \<le> length ?slots"
  proof -
    have "(head st + (count st + 1)) mod 24 = 0 \<or> (head st + (count st + 1)) mod 24 = ?i + 1"
      by (simp add: mod_Suc)
    with new(2) show ?thesis by linarith
  qed
  have "ring_ok ?st"
    unfolding ring_ok_def
    using new(2,3) old(2) next_slot assms(2) le(4) by (auto simp: less_Suc_eq simp del: mod_add_self2)
  moreover have "ring_list ?st = ring_list st @ [s]"
    using new(1) old(1) by (auto simp: ring_list_def)
  ultimately show ?thesis
    using push by blast
qed

lemma ring_push_full:
  assumes "ring_ok st" "count st = 24"
  shows "\<exists>st'. oracle_push s st = Some st' \<and> ring_ok st' \<and> ring_list st' = tl (ring_list st) @ [s]"
proof -
  let ?st = "st\<lparr>slots := (slots st)[head st := s], head := (head st + 1) mod 24\<rparr>"
  have len: "length (slots st) = 24" and h: "head st < 24"
    using assms ring_full_slots [OF assms] by (simp_all add: ring_ok_def)
  have "oracle_push s st = Some ?st"
    using assms len h by (simp add: oracle_push_def vec_set_def MAX_OBSERVATIONS_def)
  moreover have "ring_ok ?st"
    using assms len by (simp add: ring_ok_def)
  moreover have "ring_list ?st = tl (ring_list st) @ [s]"
  proof (rule nth_equalityI)
    show "length (ring_list ?st) = length (tl (ring_list st) @ [s])"
      using assms(2) by simp
    fix i
    assume "i < length (ring_list ?st)"
    then have i: "i < 24" by (simp add: assms(2))
    have eq: "((head st + 1) mod 24 + i) mod 24 = (head st + (i + 1)) mod 24"
      by (simp add: mod_add_left_eq add.assoc)
    show "ring_list ?st ! i = (tl (ring_list st) @ [s]) ! i"
    proof (cases "i = 23")
      case True
      have "(head st + 24) mod 24 = head st" using h by simp
      then show ?thesis
        using True i len h eq assms(2)
        by (simp add: ring_list_def nth_append)
    next
      case False
      then have "(head st + (i + 1)) mod 24 \<noteq> head st"
        using ring_slot_inj [of "i + 1" 0 "head st"] i h by auto
      then show ?thesis
        using False i eq assms(2) by (simp add: ring_list_def nth_append nth_tl)
    qed
  qed
  ultimately show ?thesis by blast
qed

lemma ring_list_drop_one:
  assumes "0 < count st"
  shows "ring_list (st\<lparr>head := (head st + 1) mod 24, count := count st - 1\<rparr>) = tl (ring_list st)"
proof (rule nth_equalityI)
  fix i
  assume "i < length (ring_list (st\<lparr>head := (head st + 1) mod 24, count := count st - 1\<rparr>))"
  then have i: "i < count st - 1" "Suc i < count st" by simp_all
  have "(Suc (head st) mod 24 + i) mod 24 = (head st + Suc i) mod 24"
    by (metis add_Suc_shift mod_add_left_eq)
  then show "ring_list (st\<lparr>head := (head st + 1) mod 24, count := count st - 1\<rparr>) ! i = tl (ring_list st) ! i"
    using i by (simp add: ring_list_def nth_tl del: upt_Suc)
qed simp

lemma ring_ok_drop_one:
  assumes "ring_ok st" "0 < count st"
  shows "ring_ok (st\<lparr>head := (head st + 1) mod 24, count := count st - 1\<rparr>)"
proof -
  obtain n where n: "count st = Suc n"
    using assms(2) by (cases "count st") simp_all
  have eq: "((head st + 1) mod 24 + i) mod 24 = (head st + Suc i) mod 24" for i
    by (metis Suc_eq_plus1 add_Suc_shift mod_add_left_eq)
  have "\<forall>i < n. (head st + Suc i) mod 24 < length (slots st)"
    "(head st + Suc n) mod 24 \<le> length (slots st)"
    using assms(1) n by (auto simp: ring_ok_def simp del: add_Suc_right)
  then show ?thesis
    using assms n unfolding ring_ok_def
    by (simp add: eq del: add_Suc_right One_nat_def)
qed

lemma ring_prune:
  assumes "ring_ok st"
  shows "ring_ok (prune_expired now st) \<and>
    ring_list (prune_expired now st) = dropWhile (\<lambda>s. fst s + 86400 < now) (ring_list st)"
  using assms
proof (induction now st rule: prune_expired.induct)
  case (1 now st)
  show ?case
  proof (cases "count st = 0")
    case True
    then show ?thesis
      using "1.prems" ring_sample [OF "1.prems", of 0]
      by (simp add: prune_expired.simps [of now st] oracle_oldest_def ring_list_def)
  next
    case False
    then obtain l a b rest where list: "ring_list st = (l, a, b) # rest"
      by (metis length_ring_list list.size(3) neq_Nil_conv prod_cases3)
    then have old: "oracle_oldest st = Some (l, a, b)"
      using False ring_sample [OF "1.prems", of 0] by (simp add: oracle_oldest_def)
    show ?thesis
    proof (cases "now \<le> l + 86400")
      case True
      then show ?thesis
        using "1.prems" list old by (simp add: prune_expired.simps [of now st] MAX_TWAP_WINDOW_def)
    next
      case stale: False
      let ?st = "st\<lparr>head := (head st + 1) mod 24, count := count st - 1\<rparr>"
      have step: "prune_expired now st = prune_expired now ?st"
        using stale old
        by (simp add: prune_expired.simps [of now st] MAX_TWAP_WINDOW_def MAX_OBSERVATIONS_def)
      have "ring_ok (prune_expired now ?st) \<and>
          ring_list (prune_expired now ?st) = dropWhile (\<lambda>s. fst s + 86400 < now) (ring_list ?st)"
        using "1.IH" [OF old refl refl] stale ring_ok_drop_one [OF "1.prems"] False
        by (simp add: MAX_TWAP_WINDOW_def MAX_OBSERVATIONS_def)
      then show ?thesis
        using step stale list False ring_list_drop_one [of st] by simp
    qed
  qed
qed

text \<open>The list operation that \<open>push\<close> implements.\<close>

definition bounded_snoc :: "nat \<Rightarrow> 'a list \<Rightarrow> 'a \<Rightarrow> 'a list" where
  "bounded_snoc n xs x = (if length xs < n then xs @ [x] else tl xs @ [x])"

lemma ring_push:
  assumes "ring_ok st"
  shows "\<exists>st'. oracle_push s st = Some st' \<and> ring_ok st' \<and>
    ring_list st' = bounded_snoc 24 (ring_list st) s"
  using ring_push_room [OF assms, of s] ring_push_full [OF assms, of s] assms
  by (cases "count st < 24") (auto simp: bounded_snoc_def ring_ok_def)

section \<open>Properties\<close>

text \<open>
  The ring buffer implements a bounded queue: whatever the wrap-around, pushing appends and
  drops the oldest sample once 24 are held (and never panics), pruning drops exactly the
  leading samples older than the largest window, and reading an index reads the list.
\<close>

lemma ring_refines_bounded_queue:
  assumes "ring_ok st"
  shows "(\<exists>st'. oracle_push s st = Some st' \<and> ring_ok st' \<and>
      ring_list st' = bounded_snoc 24 (ring_list st) s) \<and>
    ring_ok (prune_expired now st) \<and>
    ring_list (prune_expired now st) = dropWhile (\<lambda>s. fst s + 86400 < now) (ring_list st) \<and>
    oracle_sample st i = (if i < length (ring_list st) then Some (ring_list st ! i) else None)"
  using ring_push [OF assms, of s] ring_prune [OF assms, of now] ring_sample [OF assms, of i]
  by simp

definition ex_ring :: oracle_state where
  "ex_ring = \<lparr>price_a_cumulative = 70, price_b_cumulative = 7,
     slots = map (\<lambda>i. (1000 * int i, 10 * int i, int i)) [0..<24], head = 20, count = 24\<rparr>"

lemma ex_ring_ok: "ring_ok ex_ring"
  by (simp add: ring_ok_def ex_ring_def)

lemma oracle_newest_ring:
  "ring_ok st \<Longrightarrow> 0 < count st \<Longrightarrow> oracle_newest st = Some (last (ring_list st))"
  by (simp add: oracle_newest_def ring_sample last_conv_nth del: length_0_conv
      flip: length_greater_0_conv)

text \<open>
  An average is served only in the ledger of the newest sample: \<open>consult_twap\<close> answers only
  when the oldest sample is at or before the start of the window and the newest one is not older
  than the current ledger.
\<close>

theorem twap_needs_sample_of_current_ledger:
  assumes "consult_twap e w st = Inr r" "ring_ok st" "w \<le> e_sequence e" "in_u32 w"
  shows "0 < w \<and> w \<le> 86400 \<and> ring_list st \<noteq> [] \<and>
    fst (hd (ring_list st)) \<le> e_sequence e - w \<and> e_sequence e \<le> fst (last (ring_list st))"
proof -
  have c: "0 < count st" "w \<noteq> 0" "w \<le> 86400"
    using assms(1) by (auto simp: consult_twap_def MAX_TWAP_WINDOW_def res_inv)
  have target: "u64_saturating_sub (e_sequence e) w = e_sequence e - w"
    using assms(3) by (simp add: u64_saturating_sub_def)
  obtain l a b where new: "oracle_newest st = Some (l, a, b)" "last (ring_list st) = (l, a, b)"
    using oracle_newest_ring [OF assms(2) c(1)] by (metis prod_cases3)
  have ne: "ring_list st \<noteq> []"
    using c(1) by (metis length_greater_0_conv length_ring_list)
  then have first: "oracle_sample st 0 = Some (hd (ring_list st))"
    using ring_sample [OF assms(2), of 0] c(1) by (simp add: hd_conv_nth)
  have "fst (hd (ring_list st)) \<le> e_sequence e - w \<and> e_sequence e \<le> l"
    using assms(1) unfolding consult_twap_def Let_def target first new(1) bindR_Inr reject_Inr
      or_panic_Inr split_paired_Ex prod.case
    by (elim exE conjE) (simp add: not_less)
  moreover have "0 < w"
    using c(2) assms(4) by (simp add: in_u32_def)
  ultimately show ?thesis
    using c new(2) ne by simp
qed

end
