(* ===== verification/Lp_Token.thy ===== *)
theory Lp_Token
  imports CS_Shared
begin

text \<open>
  \<open>contracts/lp_token\<close>: the SEP-41 token of a pool. The state is the contract's storage, one
  field per storage key, and the log of published events. Every entry point is a definition;
  \<open>lp_step\<close> dispatches them and \<open>lp_reachable\<close> is the set of states that any sequence of
  invocations can lead to. Shown: the supply is the sum of the balances in every reachable
  state, transfers move exactly the amount, allowances bound what a spender takes, a pause
  stops every movement, and a permit's digest determines what was signed.
\<close>

section \<open>Storage\<close>

datatype lp_error =
  L_AlreadyInitialized | L_NotInitialized | L_Unauthorized | L_InsufficientBalance
| L_InsufficientAllowance | L_Overflow | L_InvalidExpiration | L_ContractPaused
| L_PermitExpired | L_InvalidSignature | L_InvalidMetadata | L_MintAmountTooLarge
| L_TotalSupplyExceeded

record token_metadata =
  tm_decimals :: int
  tm_name :: string
  tm_symbol :: string

record allowance_entry =
  ae_amount :: int
  ae_expiration_ledger :: int

datatype lp_event =
  LE_adm_xfer address address
| LE_paused address
| LE_unpaused address
| LE_approve address address int int
| LE_mint address address int
| LE_burn address int
| LE_transfer address address int

record lp_state =
  lp_balances :: "address \<rightharpoonup> int"
  lp_allowances :: "address \<times> address \<rightharpoonup> allowance_entry"
  lp_total_supply :: int
  lp_metadata :: "token_metadata option"
  lp_admin :: "address option"
  lp_paused :: bool
  lp_nonces :: "address \<rightharpoonup> int"
  lp_log :: "lp_event list"

definition lp_empty :: lp_state where
  "lp_empty = \<lparr>lp_balances = Map.empty, lp_allowances = Map.empty, lp_total_supply = 0,
     lp_metadata = None, lp_admin = None, lp_paused = False, lp_nonces = Map.empty, lp_log = []\<rparr>"

definition lp_publish :: "lp_event \<Rightarrow> lp_state \<Rightarrow> lp_state" where
  "lp_publish ev s = s\<lparr>lp_log := lp_log s @ [ev]\<rparr>"

text \<open>The cryptography and the XDR encoding of addresses belong to the host.\<close>

record crypto =
  c_to_xdr :: "address \<Rightarrow> 8 word list"
  c_sha256 :: "8 word list \<Rightarrow> 8 word list"
  c_ed25519_verify :: "8 word list \<Rightarrow> 8 word list \<Rightarrow> 8 word list \<Rightarrow> bool"

section \<open>Views\<close>

definition lp_is_paused :: "lp_state \<Rightarrow> bool" where
  "lp_is_paused s = lp_paused s"

definition lp_get_admin :: "lp_state \<Rightarrow> (lp_error, address) res" where
  "lp_get_admin s = ok_or (lp_admin s) L_NotInitialized"

definition lp_balance :: "lp_state \<Rightarrow> address \<Rightarrow> int" where
  "lp_balance s a = (case lp_balances s a of None \<Rightarrow> 0 | Some b \<Rightarrow> b)"

definition lp_allowance :: "env \<Rightarrow> lp_state \<Rightarrow> address \<Rightarrow> address \<Rightarrow> int" where
  "lp_allowance e s from spender =
     (case lp_allowances s (from, spender) of
        Some en \<Rightarrow> if ae_expiration_ledger en \<le> e_sequence e then 0 else ae_amount en
      | None \<Rightarrow> 0)"

definition lp_nonce :: "lp_state \<Rightarrow> address \<Rightarrow> int" where
  "lp_nonce s owner = (case lp_nonces s owner of None \<Rightarrow> 0 | Some n \<Rightarrow> n)"

definition lp_decimals :: "lp_state \<Rightarrow> (lp_error, int) res" where
  "lp_decimals s = bindR (ok_or (lp_metadata s) L_NotInitialized) (\<lambda>m. Inr (tm_decimals m))"

definition lp_name :: "lp_state \<Rightarrow> (lp_error, string) res" where
  "lp_name s = bindR (ok_or (lp_metadata s) L_NotInitialized) (\<lambda>m. Inr (tm_name m))"

definition lp_symbol :: "lp_state \<Rightarrow> (lp_error, string) res" where
  "lp_symbol s = bindR (ok_or (lp_metadata s) L_NotInitialized) (\<lambda>m. Inr (tm_symbol m))"

section \<open>Internal helpers\<close>

definition lp_write_balance :: "address \<Rightarrow> int \<Rightarrow> lp_state \<Rightarrow> lp_state" where
  "lp_write_balance a b s =
     (if b = 0 then s\<lparr>lp_balances := (lp_balances s)(a := None)\<rparr>
      else s\<lparr>lp_balances := (lp_balances s)(a \<mapsto> b)\<rparr>)"

definition lp_transfer_internal ::
  "address \<Rightarrow> address \<Rightarrow> int \<Rightarrow> lp_state \<Rightarrow> (lp_error, lp_state) res" where
  "lp_transfer_internal from to amount s =
     reject (amount < 0) L_InsufficientBalance (
     if amount = 0 then Inr s
     else
       let from_balance = lp_balance s from in
       reject (from_balance < amount) L_InsufficientBalance (
       bindR (arith (from_balance - amount)) (\<lambda>new_from_balance.
       let s1 = lp_write_balance from new_from_balance s in
       bindR (ok_or (i128_checked_add (lp_balance s1 to) amount) L_Overflow) (\<lambda>new_to_balance.
       Inr (lp_publish (LE_transfer from to amount) (lp_write_balance to new_to_balance s1))))))"

definition lp_spend_allowance ::
  "env \<Rightarrow> address \<Rightarrow> address \<Rightarrow> int \<Rightarrow> lp_state \<Rightarrow> (lp_error, lp_state) res" where
  "lp_spend_allowance e from spender amount s =
     bindR (ok_or (lp_allowances s (from, spender)) L_InsufficientAllowance) (\<lambda>en.
     reject (ae_expiration_ledger en \<le> e_sequence e) L_InsufficientAllowance (
     reject (ae_amount en < amount) L_InsufficientAllowance (
     bindR (arith (ae_amount en - amount)) (\<lambda>new_amount.
     if new_amount = 0 then
       Inr (s\<lparr>lp_allowances := (lp_allowances s)((from, spender) := None)\<rparr>)
     else
       Inr (s\<lparr>lp_allowances := (lp_allowances s)((from, spender) \<mapsto>
         \<lparr>ae_amount = new_amount, ae_expiration_ledger = ae_expiration_ledger en\<rparr>)\<rparr>)))))"

section \<open>Administration\<close>

definition lp_initialize ::
  "address \<Rightarrow> int \<Rightarrow> string \<Rightarrow> string \<Rightarrow> lp_state \<Rightarrow> (lp_error, lp_state) res" where
  "lp_initialize admin decimals name symbol s =
     reject (lp_admin s \<noteq> None) L_AlreadyInitialized (
     reject (decimals > 18) L_InvalidMetadata (
     let effective_name = (if name = [] then LP_NAME else name);
         effective_symbol = (if symbol = [] then LP_SYMBOL else symbol) in
     reject (length effective_name > 32 \<or> length effective_symbol > 32) L_InvalidMetadata (
     Inr (s\<lparr>lp_admin := Some admin,
            lp_metadata := Some \<lparr>tm_decimals = decimals, tm_name = effective_name,
                                 tm_symbol = effective_symbol\<rparr>,
            lp_total_supply := 0, lp_paused := False\<rparr>))))"

definition lp_admin_transfer :: "env \<Rightarrow> address \<Rightarrow> lp_state \<Rightarrow> (lp_error, lp_state) res" where
  "lp_admin_transfer e new_admin s =
     bindR (ok_or (lp_admin s) L_NotInitialized) (\<lambda>old_admin.
     require (e_auth e old_admin) (
     Inr (lp_publish (LE_adm_xfer old_admin new_admin) (s\<lparr>lp_admin := Some new_admin\<rparr>))))"

definition lp_set_admin :: "env \<Rightarrow> address \<Rightarrow> lp_state \<Rightarrow> (lp_error, lp_state) res" where
  "lp_set_admin e new_admin s = lp_admin_transfer e new_admin s"

definition lp_pause :: "env \<Rightarrow> lp_state \<Rightarrow> (lp_error, lp_state) res" where
  "lp_pause e s =
     bindR (ok_or (lp_admin s) L_NotInitialized) (\<lambda>admin.
     require (e_auth e admin) (
     Inr (lp_publish (LE_paused admin) (s\<lparr>lp_paused := True\<rparr>))))"

definition lp_unpause :: "env \<Rightarrow> lp_state \<Rightarrow> (lp_error, lp_state) res" where
  "lp_unpause e s =
     bindR (ok_or (lp_admin s) L_NotInitialized) (\<lambda>admin.
     require (e_auth e admin) (
     Inr (lp_publish (LE_unpaused admin) (s\<lparr>lp_paused := False\<rparr>))))"

section \<open>Allowances and permits\<close>

definition lp_approve ::
  "env \<Rightarrow> address \<Rightarrow> address \<Rightarrow> int \<Rightarrow> int \<Rightarrow> lp_state \<Rightarrow> (lp_error, lp_state) res" where
  "lp_approve e from spender amount expiration_ledger s =
     require (e_auth e from) (
     reject (amount \<noteq> 0 \<and> expiration_ledger \<le> e_sequence e) L_InvalidExpiration (
     let s1 =
       (if amount = 0 then s\<lparr>lp_allowances := (lp_allowances s)((from, spender) := None)\<rparr>
        else s\<lparr>lp_allowances := (lp_allowances s)((from, spender) \<mapsto>
          \<lparr>ae_amount = amount, ae_expiration_ledger = expiration_ledger\<rparr>)\<rparr>) in
     Inr (lp_publish (LE_approve from spender amount expiration_ledger) s1)))"

text \<open>\<open>to_be_bytes\<close> of an \<open>n\<close>-byte integer.\<close>

fun be_bytes :: "nat \<Rightarrow> int \<Rightarrow> 8 word list" where
  "be_bytes 0 x = []"
| "be_bytes (Suc n) x = be_bytes n (x div 256) @ [word_of_int x]"

definition permit_data ::
  "crypto \<Rightarrow> address \<Rightarrow> address \<Rightarrow> int \<Rightarrow> int \<Rightarrow> int \<Rightarrow> 8 word list" where
  "permit_data c owner spender amount nonce deadline =
     c_to_xdr c owner @ c_to_xdr c spender @ be_bytes 16 amount @ be_bytes 8 nonce
       @ be_bytes 4 deadline"

definition permit_digest ::
  "crypto \<Rightarrow> address \<Rightarrow> address \<Rightarrow> int \<Rightarrow> int \<Rightarrow> int \<Rightarrow> 8 word list" where
  "permit_digest c owner spender amount nonce deadline =
     c_sha256 c (permit_data c owner spender amount nonce deadline)"

definition lp_permit ::
  "crypto \<Rightarrow> env \<Rightarrow> address \<Rightarrow> address \<Rightarrow> int \<Rightarrow> int \<Rightarrow> 8 word list \<Rightarrow> lp_state \<Rightarrow>
     (lp_error, lp_state) res" where
  "lp_permit c e owner spender amount deadline signature s =
     reject (e_sequence e > deadline) L_PermitExpired (
     let nonce = lp_nonce s owner;
         digest = permit_digest c owner spender amount nonce deadline in
     require (32 \<le> length (c_to_xdr c owner)) (
     let pk_bytes = take 32 (c_to_xdr c owner) in
     require (c_ed25519_verify c pk_bytes digest signature) (
     require (in_u64 (nonce + 1)) (
     Inr (s\<lparr>lp_allowances := (lp_allowances s)((owner, spender) \<mapsto>
              \<lparr>ae_amount = amount, ae_expiration_ledger = deadline\<rparr>),
            lp_nonces := (lp_nonces s)(owner \<mapsto> nonce + 1)\<rparr>)))))"

section \<open>Transfers, minting and burning\<close>

definition lp_transfer ::
  "env \<Rightarrow> address \<Rightarrow> address \<Rightarrow> int \<Rightarrow> lp_state \<Rightarrow> (lp_error, lp_state) res" where
  "lp_transfer e from to amount s =
     reject (lp_is_paused s) L_ContractPaused (
     require (e_auth e from) (
     lp_transfer_internal from to amount s))"

definition lp_transfer_from ::
  "env \<Rightarrow> address \<Rightarrow> address \<Rightarrow> address \<Rightarrow> int \<Rightarrow> lp_state \<Rightarrow> (lp_error, lp_state) res" where
  "lp_transfer_from e spender from to amount s =
     reject (lp_is_paused s) L_ContractPaused (
     require (e_auth e spender) (
     bindR (if spender \<noteq> from then lp_spend_allowance e from spender amount s else Inr s) (\<lambda>s1.
     lp_transfer_internal from to amount s1)))"

definition MAX_MINT_PER_CALL :: int where
  "MAX_MINT_PER_CALL = 1000000000000000000"

definition MAX_TOTAL_SUPPLY :: int where
  "MAX_TOTAL_SUPPLY = 1000000000000000000000000000"

definition lp_mint :: "env \<Rightarrow> address \<Rightarrow> int \<Rightarrow> lp_state \<Rightarrow> (lp_error, lp_state) res" where
  "lp_mint e to amount s =
     reject (lp_is_paused s) L_ContractPaused (
     bindR (ok_or (lp_admin s) L_NotInitialized) (\<lambda>admin.
     require (e_auth e admin) (
     reject (amount > MAX_MINT_PER_CALL) L_MintAmountTooLarge (
     bindR (ok_or (i128_checked_add (lp_balance s to) amount) L_Overflow) (\<lambda>new_balance.
     let s1 = lp_write_balance to new_balance s in
     bindR (ok_or (i128_checked_add (lp_total_supply s1) amount) L_Overflow) (\<lambda>new_total_supply.
     reject (new_total_supply > MAX_TOTAL_SUPPLY) L_TotalSupplyExceeded (
     Inr (lp_publish (LE_mint admin to amount)
       (s1\<lparr>lp_total_supply := new_total_supply\<rparr>)))))))))"

definition lp_burn_balance :: "address \<Rightarrow> int \<Rightarrow> lp_state \<Rightarrow> (lp_error, lp_state) res" where
  "lp_burn_balance from amount s =
     reject (lp_balance s from < amount) L_InsufficientBalance (
     bindR (arith (lp_balance s from - amount)) (\<lambda>new_balance.
     let s1 = lp_write_balance from new_balance s in
     bindR (ok_or (i128_checked_sub (lp_total_supply s1) amount) L_InsufficientBalance) (\<lambda>new_total.
     Inr (lp_publish (LE_burn from amount) (s1\<lparr>lp_total_supply := new_total\<rparr>)))))"

definition lp_burn :: "env \<Rightarrow> address \<Rightarrow> int \<Rightarrow> lp_state \<Rightarrow> (lp_error, lp_state) res" where
  "lp_burn e from amount s =
     reject (lp_is_paused s) L_ContractPaused (
     require (e_auth e from) (
     lp_burn_balance from amount s))"

definition lp_burn_from ::
  "env \<Rightarrow> address \<Rightarrow> address \<Rightarrow> int \<Rightarrow> lp_state \<Rightarrow> (lp_error, lp_state) res" where
  "lp_burn_from e spender from amount s =
     reject (lp_is_paused s) L_ContractPaused (
     require (e_auth e spender) (
     bindR (lp_spend_allowance e from spender amount s) (\<lambda>s1.
     lp_burn_balance from amount s1)))"

section \<open>The contract as a state machine\<close>

datatype lp_call =
  LC_initialize address int string string
| LC_admin_transfer address
| LC_set_admin address
| LC_pause
| LC_unpause
| LC_approve address address int int
| LC_permit address address int int "8 word list"
| LC_transfer address address int
| LC_transfer_from address address address int
| LC_mint address int
| LC_burn address int
| LC_burn_from address address int

fun lp_step :: "crypto \<Rightarrow> env \<Rightarrow> lp_call \<Rightarrow> lp_state \<Rightarrow> (lp_error, lp_state) res" where
  "lp_step c e (LC_initialize a d n y) s = lp_initialize a d n y s"
| "lp_step c e (LC_admin_transfer a) s = lp_admin_transfer e a s"
| "lp_step c e (LC_set_admin a) s = lp_set_admin e a s"
| "lp_step c e LC_pause s = lp_pause e s"
| "lp_step c e LC_unpause s = lp_unpause e s"
| "lp_step c e (LC_approve f sp x l) s = lp_approve e f sp x l s"
| "lp_step c e (LC_permit ow sp x d sg) s = lp_permit c e ow sp x d sg s"
| "lp_step c e (LC_transfer f t x) s = lp_transfer e f t x s"
| "lp_step c e (LC_transfer_from sp f t x) s = lp_transfer_from e sp f t x s"
| "lp_step c e (LC_mint t x) s = lp_mint e t x s"
| "lp_step c e (LC_burn f x) s = lp_burn e f x s"
| "lp_step c e (LC_burn_from sp f x) s = lp_burn_from e sp f x s"

text \<open>
  A token exists initialised: \<open>Factory::create_pair\<close> deploys and initialises it in one
  invocation.
\<close>

inductive lp_reachable :: "crypto \<Rightarrow> lp_state \<Rightarrow> bool" for c where
  lp_reach_deployed: "lp_initialize a d n y lp_empty = Inr s \<Longrightarrow> lp_reachable c s"
| lp_reach_step: "lp_reachable c s \<Longrightarrow> lp_step c e op s = Inr s' \<Longrightarrow> lp_reachable c s'"

inductive_cases lp_reachable_cases: "lp_reachable c s"

section \<open>Balances and supply\<close>

lemma lp_write_balance_simps [simp]:
  "lp_balance (lp_write_balance a b s) = (lp_balance s)(a := b)"
  "lp_total_supply (lp_write_balance a b s) = lp_total_supply s"
  "lp_allowances (lp_write_balance a b s) = lp_allowances s"
  "lp_admin (lp_write_balance a b s) = lp_admin s"
  "lp_paused (lp_write_balance a b s) = lp_paused s"
  "lp_nonces (lp_write_balance a b s) = lp_nonces s"
  "lp_metadata (lp_write_balance a b s) = lp_metadata s"
  "lp_log (lp_write_balance a b s) = lp_log s"
  by (auto simp: lp_write_balance_def lp_balance_def)

lemma lp_publish_simps [simp]:
  "lp_balances (lp_publish ev s) = lp_balances s"
  "lp_balance (lp_publish ev s) = lp_balance s"
  "lp_total_supply (lp_publish ev s) = lp_total_supply s"
  "lp_allowances (lp_publish ev s) = lp_allowances s"
  "lp_admin (lp_publish ev s) = lp_admin s"
  "lp_paused (lp_publish ev s) = lp_paused s"
  "lp_nonces (lp_publish ev s) = lp_nonces s"
  "lp_metadata (lp_publish ev s) = lp_metadata s"
  "lp_log (lp_publish ev s) = lp_log s @ [ev]"
  by (simp_all add: lp_publish_def lp_balance_def fun_eq_iff)

lemma lp_balance_update [simp]:
  "lp_balance (s\<lparr>lp_total_supply := x1\<rparr>) = lp_balance s"
  "lp_balance (s\<lparr>lp_allowances := x2\<rparr>) = lp_balance s"
  "lp_balance (s\<lparr>lp_admin := x3\<rparr>) = lp_balance s"
  "lp_balance (s\<lparr>lp_paused := x4\<rparr>) = lp_balance s"
  "lp_balance (s\<lparr>lp_nonces := x5\<rparr>) = lp_balance s"
  "lp_balance (s\<lparr>lp_metadata := x6\<rparr>) = lp_balance s"
  by (simp_all add: lp_balance_def fun_eq_iff)

definition lp_balance_sum :: "lp_state \<Rightarrow> int" where
  "lp_balance_sum s = (\<Sum>a \<in> dom (lp_balances s). lp_balance s a)"

definition lp_supply_ok :: "lp_state \<Rightarrow> bool" where
  "lp_supply_ok s \<longleftrightarrow>
     finite (dom (lp_balances s)) \<and> lp_total_supply s = lp_balance_sum s"

lemma lp_balance_map: "lp_balance s = entry_val (lp_balances s)"
  by (simp add: lp_balance_def entry_val_def fun_eq_iff)

lemma lp_balance_sum_map: "lp_balance_sum s = entry_sum (lp_balances s)"
  by (simp add: lp_balance_sum_def entry_sum_def lp_balance_map)

lemma lp_balance_sum_frame [simp]:
  "lp_balance_sum (lp_publish ev s) = lp_balance_sum s"
  "lp_balance_sum (s\<lparr>lp_allowances := al\<rparr>) = lp_balance_sum s"
  "lp_balance_sum (s\<lparr>lp_admin := ad\<rparr>) = lp_balance_sum s"
  "lp_balance_sum (s\<lparr>lp_paused := pa\<rparr>) = lp_balance_sum s"
  "lp_balance_sum (s\<lparr>lp_nonces := no\<rparr>) = lp_balance_sum s"
  "lp_balance_sum (s\<lparr>lp_total_supply := ts\<rparr>) = lp_balance_sum s"
  "lp_balance_sum (s\<lparr>lp_metadata := me\<rparr>) = lp_balance_sum s"
  by (simp_all add: lp_balance_sum_def)

lemma finite_write_balance [simp]:
  "finite (dom (lp_balances (lp_write_balance a b s))) = finite (dom (lp_balances s))"
  by (simp add: lp_write_balance_def)

lemma lp_sum_write_balance:
  assumes "finite (dom (lp_balances s))"
  shows "lp_balance_sum (lp_write_balance a b s) = lp_balance_sum s - lp_balance s a + b"
  using entry_sum_upd [OF assms, of a "if b = 0 then None else Some b"]
  by (cases "b = 0") (simp_all add: lp_balance_sum_map lp_balance_map lp_write_balance_def)

text \<open>With no negative balance, no balance exceeds the supply.\<close>

lemma lp_balance_le_supply:
  assumes "lp_supply_ok s" "\<And>a. 0 \<le> lp_balance s a"
  shows "lp_balance s a \<le> lp_total_supply s"
    "a \<noteq> b \<Longrightarrow> lp_balance s a + lp_balance s b \<le> lp_total_supply s"
  using assms entry_val_le_sum [of "lp_balances s"]
  by (simp_all add: lp_supply_ok_def lp_balance_sum_map lp_balance_map)

lemma lp_supply_ok_write:
  "lp_supply_ok s \<Longrightarrow> t = lp_total_supply s - lp_balance s a + b \<Longrightarrow>
    lp_supply_ok ((lp_write_balance a b s)\<lparr>lp_total_supply := t\<rparr>)"
  by (simp add: lp_supply_ok_def lp_sum_write_balance)

lemma lp_supply_ok_frame [simp]:
  "lp_supply_ok (lp_publish ev s) = lp_supply_ok s"
  "lp_supply_ok (s\<lparr>lp_allowances := al\<rparr>) = lp_supply_ok s"
  "lp_supply_ok (s\<lparr>lp_admin := ad\<rparr>) = lp_supply_ok s"
  "lp_supply_ok (s\<lparr>lp_paused := pa\<rparr>) = lp_supply_ok s"
  "lp_supply_ok (s\<lparr>lp_nonces := no\<rparr>) = lp_supply_ok s"
  by (simp_all add: lp_supply_ok_def)

section \<open>What each operation does\<close>

text \<open>The balances after moving \<open>x\<close> from \<open>f\<close> to \<open>t\<close>, in that order.\<close>

definition moved :: "address \<Rightarrow> address \<Rightarrow> int \<Rightarrow> (address \<Rightarrow> int) \<Rightarrow> address \<Rightarrow> int" where
  "moved f t x b = (let b1 = b(f := b f - x) in b1(t := b1 t + x))"

lemma moved_self [simp]: "moved f f x b = b"
  by (simp add: moved_def)

lemma moved_zero [simp]: "moved f t 0 b = b"
  by (simp add: moved_def Let_def fun_eq_iff)

lemma moved_apply: "moved f t x b a = b a + (if a = t then x else 0) - (if a = f then x else 0)"
  by (simp add: moved_def)

lemma lp_transfer_internal_Inr:
  assumes "lp_transfer_internal f t x s = Inr s'"
  shows "0 \<le> x \<and> (x = 0 \<or> x \<le> lp_balance s f) \<and> lp_balance s' = moved f t x (lp_balance s)
    \<and> lp_total_supply s' = lp_total_supply s \<and> lp_allowances s' = lp_allowances s
    \<and> lp_admin s' = lp_admin s \<and> lp_paused s' = lp_paused s \<and> lp_nonces s' = lp_nonces s
    \<and> lp_metadata s' = lp_metadata s"
  using assms
  by (cases "x = 0")
    (auto simp: lp_transfer_internal_def Let_def res_inv chk_inv moved_def fun_eq_iff)

lemma lp_transfer_internal_supply_ok:
  assumes "lp_transfer_internal f t x s = Inr s'" "lp_supply_ok s"
  shows "lp_supply_ok s'"
proof (cases "x = 0")
  case True
  then show ?thesis
    using assms by (simp add: lp_transfer_internal_def)
next
  case False
  define s1 where "s1 = lp_write_balance f (lp_balance s f - x) s"
  have s': "s' = lp_publish (LE_transfer f t x) (lp_write_balance t (lp_balance s1 t + x) s1)"
    using assms(1) False unfolding lp_transfer_internal_def Let_def s1_def [symmetric]
    by (auto simp: res_inv chk_inv s1_def)
  have fin: "finite (dom (lp_balances s))" "finite (dom (lp_balances s1))"
    using assms(2) by (simp_all add: lp_supply_ok_def s1_def)
  have "lp_balance_sum (lp_write_balance t (lp_balance s1 t + x) s1) = lp_balance_sum s1 + x"
    by (simp add: lp_sum_write_balance [OF fin(2)])
  moreover have "lp_balance_sum s1 = lp_balance_sum s - x"
    unfolding s1_def by (simp add: lp_sum_write_balance [OF fin(1)])
  ultimately show ?thesis
    using assms(2) fin by (simp add: s' lp_supply_ok_def) (simp add: s1_def)
qed

lemma lp_spend_allowance_Inr:
  assumes "lp_spend_allowance e f sp x s = Inr s'"
  shows "\<exists>en. lp_allowances s (f, sp) = Some en \<and> e_sequence e < ae_expiration_ledger en
    \<and> x \<le> ae_amount en \<and> lp_balances s' = lp_balances s \<and> lp_total_supply s' = lp_total_supply s
    \<and> lp_paused s' = lp_paused s \<and> lp_admin s' = lp_admin s \<and> lp_nonces s' = lp_nonces s
    \<and> lp_metadata s' = lp_metadata s \<and> lp_log s' = lp_log s
    \<and> lp_allowances s' = (lp_allowances s)((f, sp) :=
         if x = ae_amount en then None
         else Some \<lparr>ae_amount = ae_amount en - x, ae_expiration_ledger = ae_expiration_ledger en\<rparr>)"
proof -
  from assms obtain en where en: "lp_allowances s (f, sp) = Some en"
    by (auto simp: lp_spend_allowance_def res_inv)
  with assms show ?thesis
    by (cases "x = ae_amount en") (auto simp: lp_spend_allowance_def res_inv)
qed

lemma lp_mint_Inr:
  assumes "lp_mint e to x s = Inr s'"
  shows "(\<exists>ad. lp_admin s = Some ad \<and> e_auth e ad) \<and> \<not> lp_paused s \<and> x \<le> MAX_MINT_PER_CALL
    \<and> lp_balance s' = (lp_balance s)(to := lp_balance s to + x)
    \<and> lp_total_supply s' = lp_total_supply s + x \<and> lp_total_supply s' \<le> MAX_TOTAL_SUPPLY
    \<and> lp_allowances s' = lp_allowances s \<and> lp_admin s' = lp_admin s \<and> lp_paused s' = lp_paused s
    \<and> lp_nonces s' = lp_nonces s \<and> lp_metadata s' = lp_metadata s
    \<and> (lp_supply_ok s \<longrightarrow> lp_supply_ok s')"
  using assms by (auto simp: lp_mint_def Let_def res_inv chk_inv lp_is_paused_def lp_supply_ok_write)

lemma lp_burn_balance_Inr:
  assumes "lp_burn_balance f x s = Inr s'"
  shows "x \<le> lp_balance s f \<and> lp_balance s' = (lp_balance s)(f := lp_balance s f - x)
    \<and> lp_total_supply s' = lp_total_supply s - x
    \<and> lp_allowances s' = lp_allowances s \<and> lp_admin s' = lp_admin s \<and> lp_paused s' = lp_paused s
    \<and> lp_nonces s' = lp_nonces s \<and> lp_metadata s' = lp_metadata s
    \<and> (lp_supply_ok s \<longrightarrow> lp_supply_ok s')"
  using assms by (auto simp: lp_burn_balance_def Let_def res_inv chk_inv lp_supply_ok_write)

lemma lp_burn_Inr [res_inv]:
  "lp_burn e f x s = Inr s' \<longleftrightarrow> \<not> lp_paused s \<and> e_auth e f \<and> lp_burn_balance f x s = Inr s'"
  by (simp add: lp_burn_def res_inv lp_is_paused_def)

lemma lp_transfer_Inr [res_inv]:
  "lp_transfer e f t x s = Inr s' \<longleftrightarrow> \<not> lp_paused s \<and> e_auth e f \<and> lp_transfer_internal f t x s = Inr s'"
  by (simp add: lp_transfer_def res_inv lp_is_paused_def)

lemma lp_initialize_Inr [res_inv]:
  "lp_initialize a d n y s = Inr s' \<longleftrightarrow>
    lp_admin s = None \<and> d \<le> 18 \<and> length (if n = [] then LP_NAME else n) \<le> 32
    \<and> length (if y = [] then LP_SYMBOL else y) \<le> 32
    \<and> s' = s\<lparr>lp_admin := Some a,
            lp_metadata := Some \<lparr>tm_decimals = d, tm_name = (if n = [] then LP_NAME else n),
                                 tm_symbol = (if y = [] then LP_SYMBOL else y)\<rparr>,
            lp_total_supply := 0, lp_paused := False\<rparr>"
  by (auto simp: lp_initialize_def Let_def res_inv)

lemmas lp_movement_defs = lp_transfer_from_def lp_burn_from_def lp_is_paused_def

section \<open>Invariants\<close>

definition lp_good :: "lp_state \<Rightarrow> bool" where
  "lp_good s \<longleftrightarrow> lp_admin s \<noteq> None \<and> lp_supply_ok s"

lemma lp_admin_ops_good:
  "lp_admin_transfer e a s = Inr s' \<Longrightarrow> lp_good s \<Longrightarrow> lp_good s'"
  "lp_pause e s = Inr s' \<Longrightarrow> lp_good s \<Longrightarrow> lp_good s'"
  "lp_unpause e s = Inr s' \<Longrightarrow> lp_good s \<Longrightarrow> lp_good s'"
  by (auto simp: lp_good_def lp_admin_transfer_def lp_pause_def lp_unpause_def res_inv)

lemma lp_allowance_ops_good:
  "lp_approve e f sp x l s = Inr s' \<Longrightarrow> lp_good s \<Longrightarrow> lp_good s'"
  "lp_permit c e f sp x l sg s = Inr s' \<Longrightarrow> lp_good s \<Longrightarrow> lp_good s'"
  "lp_spend_allowance e f sp x s = Inr s' \<Longrightarrow> lp_good s \<Longrightarrow> lp_good s'"
  by (auto simp: lp_good_def lp_approve_def lp_permit_def lp_spend_allowance_def res_inv Let_def
      lp_supply_ok_def split: if_splits)

lemma lp_movement_good:
  "lp_transfer_internal f t x s = Inr s' \<Longrightarrow> lp_good s \<Longrightarrow> lp_good s'"
  "lp_mint e t x s = Inr s' \<Longrightarrow> lp_good s \<Longrightarrow> lp_good s'"
  "lp_burn_balance f x s = Inr s' \<Longrightarrow> lp_good s \<Longrightarrow> lp_good s'"
  using lp_transfer_internal_supply_ok [of f t x s s'] lp_transfer_internal_Inr [of f t x s s']
    lp_mint_Inr [of e t x s s'] lp_burn_balance_Inr [of f x s s']
  by (auto simp: lp_good_def)

lemma lp_step_good: "lp_step c e op s = Inr s' \<Longrightarrow> lp_good s \<Longrightarrow> lp_good s'"
proof (cases op)
  case (LC_initialize a d n y)
  then show "lp_step c e op s = Inr s' \<Longrightarrow> lp_good s \<Longrightarrow> lp_good s'"
    by (auto simp: res_inv lp_good_def)
qed (auto simp: lp_set_admin_def res_inv lp_movement_defs split: if_splits
    dest: lp_admin_ops_good lp_allowance_ops_good lp_movement_good)

lemma lp_empty_simps [simp]:
  "lp_balance lp_empty a = 0" "lp_balances lp_empty = Map.empty" "lp_admin lp_empty = None"
  by (simp_all add: lp_empty_def lp_balance_def)

lemma lp_reachable_good:
  assumes "lp_reachable c s"
  shows "lp_good s"
  using assms
proof induction
  case (lp_reach_deployed a d n y s)
  then show ?case by (auto simp: res_inv lp_good_def lp_supply_ok_def lp_balance_sum_def)
next
  case (lp_reach_step s e op s')
  then show ?case using lp_step_good by blast
qed

section \<open>Allowances and nonces over a run\<close>

text \<open>The balance-moving calls, which \<open>pause\<close> is to stop.\<close>

fun lp_moves :: "lp_call \<Rightarrow> bool" where
  "lp_moves (LC_transfer f t x) = True"
| "lp_moves (LC_transfer_from sp f t x) = True"
| "lp_moves (LC_mint t x) = True"
| "lp_moves (LC_burn f x) = True"
| "lp_moves (LC_burn_from sp f x) = True"
| "lp_moves _ = False"

text \<open>The stored allowance, whether expired or not.\<close>

definition lp_allowance_entry :: "lp_state \<Rightarrow> address \<Rightarrow> address \<Rightarrow> int" where
  "lp_allowance_entry s f sp = (case lp_allowances s (f, sp) of None \<Rightarrow> 0 | Some en \<Rightarrow> ae_amount en)"

text \<open>A spender's successive \<open>transfer_from\<close> calls, each at its own ledger.\<close>

fun lp_spends :: "address \<Rightarrow> address \<Rightarrow> (env \<times> address \<times> int) list \<Rightarrow> lp_state \<Rightarrow>
    (lp_error, lp_state) res" where
  "lp_spends sp f [] s = Inr s"
| "lp_spends sp f ((e, t, x) # cs) s =
     bindR (lp_transfer_from e sp f t x s) (lp_spends sp f cs)"

lemma lp_transfer_from_Inr:
  assumes "lp_transfer_from e sp f t x s = Inr s'" "sp \<noteq> f"
  shows "0 \<le> x \<and> x \<le> lp_allowance_entry s f sp
    \<and> lp_allowance_entry s' f sp = lp_allowance_entry s f sp - x"
proof -
  obtain s1 where spend: "lp_spend_allowance e f sp x s = Inr s1"
    and tr: "lp_transfer_internal f t x s1 = Inr s'"
    using assms by (auto simp: lp_transfer_from_def res_inv split: if_splits)
  then show ?thesis
    using lp_spend_allowance_Inr [OF spend] lp_transfer_internal_Inr [OF tr]
    by (auto simp: lp_allowance_entry_def)
qed

lemma lp_spends_sum:
  assumes "lp_spends sp f cs s = Inr s'" "sp \<noteq> f"
  shows "lp_allowance_entry s' f sp = lp_allowance_entry s f sp - (\<Sum>(e, t, x) \<leftarrow> cs. x)
    \<and> (cs \<noteq> [] \<longrightarrow> (\<Sum>(e, t, x) \<leftarrow> cs. x) \<le> lp_allowance_entry s f sp)"
  using assms
proof (induction cs arbitrary: s)
  case (Cons c cs)
  obtain e t x where c: "c = (e, t, x)" by (cases c)
  then obtain s1 where s1: "lp_transfer_from e sp f t x s = Inr s1" "lp_spends sp f cs s1 = Inr s'"
    using Cons.prems(1) by (auto simp: res_inv)
  have "lp_allowance_entry s' f sp = lp_allowance_entry s1 f sp - (\<Sum>(e, t, x) \<leftarrow> cs. x)"
    "cs \<noteq> [] \<Longrightarrow> (\<Sum>(e, t, x) \<leftarrow> cs. x) \<le> lp_allowance_entry s1 f sp"
    using Cons.IH [OF s1(2)] Cons.prems(2) by auto
  then show ?case
    using lp_transfer_from_Inr [OF s1(1) Cons.prems(2)] by (cases "cs = []") (auto simp: c)
qed simp

text \<open>An invocation as the ledger applies it: a failing one leaves no trace.\<close>

definition lp_exec :: "crypto \<Rightarrow> env \<times> lp_call \<Rightarrow> lp_state \<Rightarrow> lp_state" where
  "lp_exec c = (\<lambda>(e, op) s. case lp_step c e op s of Inr s' \<Rightarrow> s' | Inl _ \<Rightarrow> s)"

definition lp_run :: "crypto \<Rightarrow> (env \<times> lp_call) list \<Rightarrow> lp_state \<Rightarrow> lp_state" where
  "lp_run c = fold (lp_exec c)"

lemma lp_nonce_frame:
  "lp_nonces s' = lp_nonces s \<Longrightarrow> lp_nonce s' a = lp_nonce s a"
  by (simp add: lp_nonce_def)

lemma lp_permit_nonce:
  "lp_permit c e ow sp x d sg s = Inr s' \<Longrightarrow>
    lp_nonce s' a = (if a = ow then lp_nonce s ow + 1 else lp_nonce s a) \<and> in_u64 (lp_nonce s ow + 1)
    \<and> c_ed25519_verify c (take 32 (c_to_xdr c ow)) (permit_digest c ow sp x (lp_nonce s ow) d) sg"
  by (auto simp: lp_permit_def res_inv Let_def lp_nonce_def)

lemma lp_other_nonces:
  assumes "lp_step c e op s = Inr s'" "\<nexists>ow sp x d sg. op = LC_permit ow sp x d sg"
  shows "lp_nonces s' = lp_nonces s"
  using assms
proof (cases op)
  case (LC_transfer_from sp f t x)
  then show ?thesis
    using assms(1)
    by (auto simp: lp_movement_defs res_inv split: if_splits
        dest!: lp_spend_allowance_Inr lp_transfer_internal_Inr)
next
  case (LC_burn_from sp f x)
  then show ?thesis
    using assms(1)
    by (auto simp: lp_movement_defs res_inv dest!: lp_spend_allowance_Inr lp_burn_balance_Inr)
next
  case (LC_initialize a d n y)
  then show ?thesis
    using assms(1) by (auto simp: res_inv)
qed (auto simp: lp_admin_transfer_def lp_set_admin_def lp_pause_def lp_unpause_def lp_approve_def
    res_inv Let_def dest!: lp_transfer_internal_Inr lp_mint_Inr lp_burn_balance_Inr)

lemma lp_exec_nonce_mono: "lp_nonce s a \<le> lp_nonce (lp_exec c (e, op) s) a"
proof (cases "lp_step c e op s")
  case (Inr s')
  show ?thesis
  proof (cases "\<exists>ow sp x d sg. op = LC_permit ow sp x d sg")
    case True
    then obtain ow sp x d sg where op: "op = LC_permit ow sp x d sg" by blast
    then show ?thesis
      using Inr lp_permit_nonce [of c e ow sp x d sg s s' a] by (auto simp: lp_exec_def)
  next
    case False
    then show ?thesis
      using Inr lp_nonce_frame [OF lp_other_nonces [OF Inr False]] by (simp add: lp_exec_def)
  qed
qed (simp add: lp_exec_def)

lemma lp_run_nonce_mono: "lp_nonce s a \<le> lp_nonce (lp_run c ops s) a"
proof (induction ops arbitrary: s)
  case (Cons op ops)
  have "lp_nonce s a \<le> lp_nonce (lp_exec c op s) a"
    using lp_exec_nonce_mono [of s a c "fst op" "snd op"] by simp
  then show ?case
    using Cons.IH [of "lp_exec c op s"] by (simp add: lp_run_def)
qed (simp add: lp_run_def)

lemma length_be_bytes [simp]: "length (be_bytes n x) = n"
  by (induction n arbitrary: x) simp_all

lemma be_bytes_mod: "be_bytes n x = be_bytes n y \<Longrightarrow> x mod 256 ^ n = y mod 256 ^ n"
proof (induction n arbitrary: x y)
  case (Suc n)
  have "(word_of_int x :: 8 word) = word_of_int y"
    using Suc.prems by simp
  then have "x mod 256 = y mod 256"
    by (simp add: word_of_int_eq_iff take_bit_eq_mod)
  moreover have "x div 256 mod 256 ^ n = y div 256 mod 256 ^ n"
    using Suc.IH [of "x div 256" "y div 256"] Suc.prems by simp
  moreover have "z mod (256 * 256 ^ n) = 256 * (z div 256 mod 256 ^ n) + z mod 256" for z :: int
    by (simp add: zmod_zmult2_eq)
  ultimately show ?case by simp
qed simp

text \<open>
  The last twelve bytes of what a permit signs are its nonce and its deadline, whoever the
  owner and the spender are: equal bytes have equal nonces.
\<close>

lemma permit_data_nonce:
  assumes "permit_data c ow sp x n d = permit_data c ow' sp' x' n' d'"
  shows "n mod 2 ^ 64 = n' mod 2 ^ 64"
proof -
  let ?pre = "\<lambda>ow sp x. c_to_xdr c ow @ c_to_xdr c sp @ be_bytes 16 x"
    and ?suf = "\<lambda>n d. be_bytes 8 n @ be_bytes 4 d"
  have "?pre ow sp x @ ?suf n d = ?pre ow' sp' x' @ ?suf n' d'"
    using assms by (simp add: permit_data_def)
  then have "?suf n d = ?suf n' d'"
    using append_eq_append_conv [of "?pre ow sp x" "?pre ow' sp' x'" "?suf n d" "?suf n' d'"]
    by simp
  then show ?thesis
    using be_bytes_mod [of 8 n n'] by simp
qed

section \<open>Properties\<close>

text \<open>
  A concrete token for the witnesses: deployed by address 1, the admin, who mints 500 to
  address 2 and has address 2 approve address 3 for 120 until ledger 90.
\<close>

definition ex_env :: env where
  "ex_env = \<lparr>e_timestamp = 1000, e_sequence = 50, e_self = Address 0, e_auth = (\<lambda>a. True)\<rparr>"

definition ex_crypto :: crypto where
  "ex_crypto = \<lparr>c_to_xdr = (\<lambda>a. replicate 40 (word_of_nat (addr_id a))), c_sha256 = take 32,
     c_ed25519_verify = (\<lambda>pk msg sg. sg = pk @ msg)\<rparr>"

definition ex_lp :: lp_state where
  "ex_lp = \<lparr>lp_balances = [Address 2 \<mapsto> 500],
     lp_allowances = [(Address 2, Address 3) \<mapsto> \<lparr>ae_amount = 120, ae_expiration_ledger = 90\<rparr>],
     lp_total_supply = 500,
     lp_metadata = Some \<lparr>tm_decimals = 7, tm_name = ''Coral LP'', tm_symbol = ''CLP''\<rparr>,
     lp_admin = Some (Address 1), lp_paused = False, lp_nonces = Map.empty,
     lp_log = [LE_mint (Address 1) (Address 2) 500, LE_approve (Address 2) (Address 3) 120 90]\<rparr>"

lemmas ex_lp_defs = ex_env_def ex_crypto_def ex_lp_def

lemma ex_lp_reachable: "lp_reachable ex_crypto ex_lp"
proof -
  define s0 where "s0 = lp_empty\<lparr>lp_admin := Some (Address 1),
    lp_metadata := Some \<lparr>tm_decimals = 7, tm_name = LP_NAME, tm_symbol = LP_SYMBOL\<rparr>,
    lp_total_supply := 0, lp_paused := False\<rparr>"
  define s1 where "s1 = s0\<lparr>lp_balances := [Address 2 \<mapsto> 500], lp_total_supply := 500,
    lp_log := [LE_mint (Address 1) (Address 2) 500]\<rparr>"
  have "lp_initialize (Address 1) 7 [] [] lp_empty = Inr s0"
    by (simp add: lp_initialize_Inr s0_def LP_NAME_def LP_SYMBOL_def)
  then have "lp_reachable ex_crypto s0" by (rule lp_reach_deployed)
  moreover have "lp_step ex_crypto ex_env (LC_mint (Address 2) 500) s0 = Inr s1"
    by (simp add: lp_mint_def s0_def s1_def lp_is_paused_def ex_env_def lp_empty_def lp_publish_def
        lp_write_balance_def lp_balance_def int_ops_defs MAX_MINT_PER_CALL_def
        MAX_TOTAL_SUPPLY_def)
  ultimately have "lp_reachable ex_crypto s1" by (rule lp_reach_step)
  moreover have
    "lp_step ex_crypto ex_env (LC_approve (Address 2) (Address 3) 120 90) s1 = Inr ex_lp"
    by (simp add: lp_approve_def s1_def s0_def ex_env_def lp_empty_def lp_publish_def ex_lp_def
        LP_NAME_def LP_SYMBOL_def)
  ultimately show ?thesis by (rule lp_reach_step)
qed

text \<open>
  C13. In every reachable state of a deployed LP token the recorded total supply is the sum of
  all balances, and only finitely many addresses hold the token. No sign or size of the
  amounts is assumed: the equation survives the negative burns of the last property here.
\<close>

theorem lp_supply_is_sum:
  assumes "lp_reachable c s"
  shows "finite (dom (lp_balances s)) \<and>
    lp_total_supply s = (\<Sum>a \<in> dom (lp_balances s). lp_balance s a)"
  using lp_reachable_good [OF assms]
  by (simp add: lp_good_def lp_supply_ok_def lp_balance_sum_def)

theorem lp_supply_is_sum_witness:
  "lp_reachable ex_crypto ex_lp \<and>
    lp_total_supply ex_lp = (\<Sum>a \<in> dom (lp_balances ex_lp). lp_balance ex_lp a)"
  using lp_supply_is_sum [OF ex_lp_reachable] ex_lp_reachable by simp

text \<open>
  When \<open>transfer\<close> succeeds, and what it does: the contract is not paused, the sender
  authorised it, the amount is not negative and (unless it is zero) is covered by the
  sender's balance and fits the receiver's; then exactly that amount moves, no other balance,
  allowance, nonce or the supply changes. In every other case it fails.
\<close>

lemma lp_transfer_exact:
  "(\<exists>s'. lp_transfer e f t x s = Inr s') =
     (\<not> lp_paused s \<and> e_auth e f \<and> 0 \<le> x \<and>
      (x = 0 \<or> (x \<le> lp_balance s f \<and> in_i128 (lp_balance s f - x) \<and>
                in_i128 ((if t = f then lp_balance s f - x else lp_balance s t) + x)))) \<and>
   (\<forall>s'. lp_transfer e f t x s = Inr s' \<longrightarrow>
      (\<forall>a. lp_balance s' a = lp_balance s a + (if a = t then x else 0) - (if a = f then x else 0)) \<and>
      lp_total_supply s' = lp_total_supply s \<and> lp_allowances s' = lp_allowances s \<and>
      lp_nonces s' = lp_nonces s \<and> lp_admin s' = lp_admin s)"
proof (intro conjI)
  show "(\<exists>s'. lp_transfer e f t x s = Inr s') =
     (\<not> lp_paused s \<and> e_auth e f \<and> 0 \<le> x \<and>
      (x = 0 \<or> (x \<le> lp_balance s f \<and> in_i128 (lp_balance s f - x) \<and>
                in_i128 ((if t = f then lp_balance s f - x else lp_balance s t) + x))))"
    by (cases "x = 0") (auto simp: res_inv chk_inv lp_transfer_internal_def Let_def)
  show "\<forall>s'. lp_transfer e f t x s = Inr s' \<longrightarrow>
      (\<forall>a. lp_balance s' a = lp_balance s a + (if a = t then x else 0) - (if a = f then x else 0)) \<and>
      lp_total_supply s' = lp_total_supply s \<and> lp_allowances s' = lp_allowances s \<and>
      lp_nonces s' = lp_nonces s \<and> lp_admin s' = lp_admin s"
    using lp_transfer_internal_Inr by (auto simp: lp_transfer_Inr moved_apply)
qed

text \<open>
  However a spender splits its \<open>transfer_from\<close> calls, over whatever ledgers and
  receivers, the amounts it moved out of another account add up to at most the allowance it
  was given, and the allowance that is left is the difference. (Self-spends take no
  allowance.)
\<close>

lemma lp_allowance_bounds_spending:
  assumes "lp_spends sp f cs s = Inr s'" "sp \<noteq> f" "cs \<noteq> []"
  shows "(\<Sum>(e, t, x) \<leftarrow> cs. x) \<le> lp_allowance_entry s f sp \<and>
    lp_allowance_entry s' f sp = lp_allowance_entry s f sp - (\<Sum>(e, t, x) \<leftarrow> cs. x)"
  using lp_spends_sum [OF assms(1,2)] assms(3) by simp

text \<open>
  While the token is paused every call that moves a balance or the supply (transfer,
  transfer_from, mint, burn, burn_from) returns \<open>ContractPaused\<close>, whoever makes it and
  whatever its arguments.
\<close>

theorem lp_pause_blocks_movement:
  assumes "lp_paused s" "lp_moves op"
  shows "lp_step c e op s = Inl (Err L_ContractPaused)"
  using assms
  by (cases op)
    (simp_all add: lp_transfer_def lp_transfer_from_def lp_mint_def lp_burn_def lp_burn_from_def
      lp_is_paused_def)

text \<open>
  C31. Permits cannot be replayed. Once the contract has accepted a signature for a permit of
  an owner, then after any further invocations it refuses every permit of that owner that
  carries the same signature, for the same or another spender, amount and deadline: the nonce
  in the signed bytes has grown. Assumed of the host's cryptography, for the two calls at
  hand: SHA-256 does not map two different byte strings to one digest, and one signature does
  not verify for two different digests under the owner's key.
\<close>

theorem lp_permit_no_replay:
  assumes first: "lp_permit c e ow sp x d sg s = Inr s'" and nonneg: "0 \<le> lp_nonce s ow"
    and digest: "dg = permit_digest c ow sp x (lp_nonce s ow) d"
      "dg2 = permit_digest c ow sp2 x2 (lp_nonce (lp_run c ops s') ow) d2"
    and no_collision: "dg = dg2 \<Longrightarrow>
      permit_data c ow sp x (lp_nonce s ow) d
        = permit_data c ow sp2 x2 (lp_nonce (lp_run c ops s') ow) d2"
    and one_message: "c_ed25519_verify c (take 32 (c_to_xdr c ow)) dg sg \<Longrightarrow>
      c_ed25519_verify c (take 32 (c_to_xdr c ow)) dg2 sg \<Longrightarrow> dg = dg2"
  shows "\<exists>err. lp_permit c e2 ow sp2 x2 d2 sg (lp_run c ops s') = Inl err"
proof (cases "lp_permit c e2 ow sp2 x2 d2 sg (lp_run c ops s')")
  case (Inr t)
  note fst = lp_permit_nonce [OF first, of ow] and snd = lp_permit_nonce [OF Inr, of ow]
  have "lp_nonce s ow mod 2 ^ 64 = lp_nonce (lp_run c ops s') ow mod 2 ^ 64"
    using permit_data_nonce [OF no_collision [OF one_message]] fst snd by (simp add: digest)
  moreover have "lp_nonce s ow < lp_nonce (lp_run c ops s') ow"
    using fst lp_run_nonce_mono [of s' ow c ops] by simp
  ultimately show ?thesis
    using nonneg fst snd by (simp add: in_u64_def u64_max_def)
qed simp

text \<open>
  A signature over the digest itself and a hash without collisions: address 2 permits 7 to
  address 3, and the same signature is refused the second time.
\<close>

definition ex_permit_crypto :: crypto where
  "ex_permit_crypto = ex_crypto\<lparr>c_sha256 := \<lambda>m. m\<rparr>"

theorem lp_permit_no_replay_witness:
  "\<exists>sg s'. lp_permit ex_permit_crypto ex_env (Address 2) (Address 3) 7 90 sg ex_lp = Inr s' \<and>
    (\<exists>err. lp_permit ex_permit_crypto ex_env (Address 2) (Address 3) 7 90 sg s' = Inl err)"
proof -
  define sg where
    "sg = replicate 32 (2 :: 8 word) @ permit_digest ex_permit_crypto (Address 2) (Address 3) 7 0 90"
  define s' where "s' = ex_lp\<lparr>lp_allowances := (lp_allowances ex_lp)((Address 2, Address 3) \<mapsto>
      \<lparr>ae_amount = 7, ae_expiration_ledger = 90\<rparr>), lp_nonces := [Address 2 \<mapsto> 1]\<rparr>"
  have nonce: "lp_nonce ex_lp (Address 2) = 0"
    by (simp add: ex_lp_def lp_nonce_def)
  have ok: "lp_permit ex_permit_crypto ex_env (Address 2) (Address 3) 7 90 sg ex_lp = Inr s'"
    by (simp add: lp_permit_def nonce sg_def s'_def Let_def)
      (simp add: ex_permit_crypto_def ex_lp_defs in_u64_def u64_max_def)
  have run: "lp_run ex_permit_crypto [] s' = s'"
    by (simp add: lp_run_def)
  have "\<exists>err. lp_permit ex_permit_crypto ex_env (Address 2) (Address 3) 7 90 sg
      (lp_run ex_permit_crypto [] s') = Inl err"
    by (rule lp_permit_no_replay [OF ok _ refl refl])
      (simp_all add: nonce permit_digest_def ex_permit_crypto_def ex_crypto_def)
  then show ?thesis
    using ok run by auto
qed

text \<open>
  The sign of a burn is not checked: any holder can burn a negative amount of its own
  tokens, which credits it with that many new tokens and raises the total supply, without
  the admin and without the mint limits.
\<close>

theorem lp_burn_negative_mints:
  assumes "\<not> lp_paused s" "e_auth e f" "0 < x" "0 \<le> lp_balance s f"
    and "in_i128 (lp_balance s f + x)" "in_i128 (lp_total_supply s + x)"
  shows "\<exists>s'. lp_burn e f (- x) s = Inr s' \<and> lp_balance s' f = lp_balance s f + x \<and>
    lp_total_supply s' = lp_total_supply s + x"
  using assms
  by (simp add: lp_burn_def lp_burn_balance_def lp_is_paused_def i128_checked_sub_def)

end
