(* ===== verification/Token_Iface.thy ===== *)
theory Token_Iface
  imports Lp_Token
begin

text \<open>
  The interface the pair and the router have to the tokens they hold: SEP-41 \<open>transfer\<close> and
  \<open>balance\<close>, called through \<open>TokenClient\<close>. The token contracts are not part of the repository,
  so the two calls are a parameter (\<open>token_ops\<close>) over an arbitrary token state, and the locale
  \<open>sep41\<close> states the documented contract that the pair relies on. The interpretation at the
  end shows that the repository's own \<open>LpToken\<close> keeps it, for a bank of independent token
  contracts.
\<close>

text \<open>
  \<open>tok_transfer T e token from to amount\<close> is the nested call from a contract running in \<open>e\<close>;
  a trap of the token is \<open>None\<close>.
\<close>

record 'tok token_ops =
  tok_transfer :: "env \<Rightarrow> address \<Rightarrow> address \<Rightarrow> address \<Rightarrow> int \<Rightarrow> 'tok \<Rightarrow> 'tok option"
  tok_balance :: "address \<Rightarrow> address \<Rightarrow> 'tok \<Rightarrow> int"

locale sep41 =
  fixes T :: "'tok token_ops"
  assumes transfer_moves: "tok_transfer T e tk f t x w = Some w' \<Longrightarrow>
      tok_balance T tk' a w' =
        (if tk' = tk then moved f t x (\<lambda>b. tok_balance T tk b w) a else tok_balance T tk' a w)"
    and transfer_nonneg: "tok_transfer T e tk f t x w = Some w' \<Longrightarrow> 0 \<le> x"
    and transfer_authorised: "tok_transfer T e tk f t x w = Some w' \<Longrightarrow> e_auth e f \<or> f = e_self e"
begin

lemma transfer_balance:
  "tok_transfer T e tk f t x w = Some w' \<Longrightarrow>
    tok_balance T tk a w' = tok_balance T tk a w + (if a = t then x else 0) - (if a = f then x else 0)"
  by (simp add: transfer_moves moved_apply)

lemma transfer_other_token:
  "tok_transfer T e tk f t x w = Some w' \<Longrightarrow> tk' \<noteq> tk \<Longrightarrow>
    tok_balance T tk' a w' = tok_balance T tk' a w"
  by (simp add: transfer_moves)

end

text \<open>
  \<open>transfer\<close> fails when the sender's balance does not cover the amount, so no balance ever
  becomes negative.
\<close>

definition tok_solvent :: "'tok token_ops \<Rightarrow> 'tok \<Rightarrow> bool" where
  "tok_solvent T t \<longleftrightarrow> (\<forall>tk a. 0 \<le> tok_balance T tk a t)"

locale sep41_funded = sep41 +
  assumes transfer_funded: "tok_transfer T e tk f t x w = Some w' \<Longrightarrow> x = 0 \<or> x \<le> tok_balance T tk f w"
begin

lemma transfer_solvent:
  assumes "tok_transfer T e tk f t x w = Some w'" "tok_solvent T w"
  shows "tok_solvent T w'"
  using assms transfer_nonneg [OF assms(1)] transfer_funded [OF assms(1)]
  by (force simp: tok_solvent_def transfer_moves [OF assms(1)] moved_apply)

end

section \<open>The repository's token keeps the contract\<close>

type_synonym bank = "address \<Rightarrow> lp_state"

definition bank_transfer ::
  "env \<Rightarrow> address \<Rightarrow> address \<Rightarrow> address \<Rightarrow> int \<Rightarrow> bank \<Rightarrow> bank option" where
  "bank_transfer e tk f t x b =
     (case lp_transfer (nested_env e tk) f t x (b tk) of
        Inr s' \<Rightarrow> Some (b(tk := s'))
      | Inl _ \<Rightarrow> None)"

definition bank_ops :: "bank token_ops" where
  "bank_ops = \<lparr>tok_transfer = bank_transfer, tok_balance = (\<lambda>tk a b. lp_balance (b tk) a)\<rparr>"

lemma bank_transfer_Some:
  "bank_transfer e tk f t x b = Some b' \<longleftrightarrow>
    (\<exists>s'. lp_transfer (nested_env e tk) f t x (b tk) = Inr s' \<and> b' = b(tk := s'))"
  by (auto simp: bank_transfer_def split: sum.splits)

interpretation lp_bank: sep41 bank_ops
proof
  fix e tk f t x b b'
  assume "tok_transfer bank_ops e tk f t x b = Some b'"
  then obtain s' where s': "lp_transfer (nested_env e tk) f t x (b tk) = Inr s'" "b' = b(tk := s')"
    by (auto simp: bank_ops_def bank_transfer_Some)
  note moved = lp_transfer_internal_Inr [of f t x "b tk" s']
  have int: "lp_transfer_internal f t x (b tk) = Inr s'" and "e_auth (nested_env e tk) f"
    using s'(1) by (simp_all add: lp_transfer_Inr)
  then show "e_auth e f \<or> f = e_self e"
    by simp
  show "0 \<le> x"
    using moved int by simp
  fix tk' a
  show "tok_balance bank_ops tk' a b' =
      (if tk' = tk then moved f t x (\<lambda>c. tok_balance bank_ops tk c b) a
       else tok_balance bank_ops tk' a b)"
    using moved int s'(2) by (simp add: bank_ops_def)
qed

interpretation lp_bank_funded: sep41_funded bank_ops
proof
  fix e tk f t x b b'
  assume "tok_transfer bank_ops e tk f t x b = Some b'"
  then obtain s' where "lp_transfer (nested_env e tk) f t x (b tk) = Inr s'"
    by (auto simp: bank_ops_def bank_transfer_Some)
  then show "x = 0 \<or> x \<le> tok_balance bank_ops tk f b"
    using lp_transfer_internal_Inr [of f t x "b tk" s'] by (simp add: lp_transfer_Inr bank_ops_def)
qed

end
