(* ===== verification/Pair_State.thy ===== *)
theory Pair_State
  imports Pair_Oracle Token_Iface
begin

text \<open>
  The pair contract's storage (\<open>storage.rs\<close>), its events (\<open>events.rs\<close>), the reentrancy guard
  (\<open>reentrancy.rs\<close>), the factory as the pair sees it (\<open>factory_client.rs\<close>), and the clients
  through which it calls its LP token and the pool tokens. A world is what a transaction can
  change: the pair, its LP token, the pool tokens and the event log.
\<close>

section \<open>Storage\<close>

record pair_storage =
  ps_factory :: address
  ps_token_a :: address
  ps_token_b :: address
  ps_lp_token :: address
  ps_reserve_a :: int
  ps_reserve_b :: int
  ps_timestamp_last :: int
  ps_k_last :: int

record pair_contract =
  pc_state :: "pair_storage option"
  pc_fee :: "fee_state option"
  pc_locked :: bool
  pc_oracle :: oracle_state
  pc_lp_paused :: bool
  pc_frozen :: bool
  pc_pending :: "address \<rightharpoonup> int"
  pc_pending_total :: int
  pc_protocol_fee_a :: int
  pc_protocol_fee_b :: int

definition pair_deployed :: pair_contract where
  "pair_deployed = \<lparr>pc_state = None, pc_fee = None, pc_locked = False, pc_oracle = empty_oracle,
     pc_lp_paused = False, pc_frozen = False, pc_pending = Map.empty, pc_pending_total = 0,
     pc_protocol_fee_a = 0, pc_protocol_fee_b = 0\<rparr>"

datatype pair_event =
  PE_swap address address address int int int int int address
| PE_mint address int int
| PE_burn address int int address
| PE_sync int int
| PE_burn_single_side address int address int
| PE_mint_single_side address address int int int
| PE_stale_threshold_updated int
| PE_protocol_fee_collected address int int int
| PE_flash_loan address int int int int int

record 'tok world =
  w_pair :: pair_contract
  w_lp :: lp_state
  w_tok :: 'tok
  w_events :: "pair_event list"

definition emit :: "pair_event \<Rightarrow> 'tok world \<Rightarrow> 'tok world" where
  "emit ev w = w\<lparr>w_events := w_events w @ [ev]\<rparr>"

definition set_pair :: "(pair_contract \<Rightarrow> pair_contract) \<Rightarrow> 'tok world \<Rightarrow> 'tok world" where
  "set_pair f w = w\<lparr>w_pair := f (w_pair w)\<rparr>"

definition get_pair_state :: "'tok world \<Rightarrow> pair_storage option" where
  "get_pair_state w = pc_state (w_pair w)"

definition set_pair_state :: "pair_storage \<Rightarrow> 'tok world \<Rightarrow> 'tok world" where
  "set_pair_state ps = set_pair (\<lambda>c. c\<lparr>pc_state := Some ps\<rparr>)"

definition get_fee_state :: "'tok world \<Rightarrow> fee_state option" where
  "get_fee_state w = pc_fee (w_pair w)"

definition set_fee_state :: "fee_state \<Rightarrow> 'tok world \<Rightarrow> 'tok world" where
  "set_fee_state fs = set_pair (\<lambda>c. c\<lparr>pc_fee := Some fs\<rparr>)"

definition get_pending_lp :: "'tok world \<Rightarrow> address \<Rightarrow> int" where
  "get_pending_lp w who = (case pc_pending (w_pair w) who of None \<Rightarrow> 0 | Some x \<Rightarrow> x)"

definition set_pending_lp :: "address \<Rightarrow> int \<Rightarrow> 'tok world \<Rightarrow> 'tok world" where
  "set_pending_lp who amount =
     set_pair (\<lambda>c. c\<lparr>pc_pending := (pc_pending c)(who := if amount = 0 then None else Some amount)\<rparr>)"

definition get_pending_lp_total :: "'tok world \<Rightarrow> int" where
  "get_pending_lp_total w = pc_pending_total (w_pair w)"

definition set_pending_lp_total :: "int \<Rightarrow> 'tok world \<Rightarrow> 'tok world" where
  "set_pending_lp_total x = set_pair (\<lambda>c. c\<lparr>pc_pending_total := x\<rparr>)"

section \<open>The reentrancy guard\<close>

definition acquire_lock :: "'tok world \<Rightarrow> (pair_error, 'tok world) res" where
  "acquire_lock w = reject (pc_locked (w_pair w)) P_Locked (Inr (set_pair (\<lambda>c. c\<lparr>pc_locked := True\<rparr>) w))"

definition release_lock :: "'tok world \<Rightarrow> 'tok world" where
  "release_lock w = set_pair (\<lambda>c. c\<lparr>pc_locked := False\<rparr>) w"

text \<open>
  \<open>let _guard = ReentrancyGuard::acquire(&env)?;\<close> at the head of a body: the lock is released
  when the body returns. (On an error the host undoes the call and the lock with it.)
\<close>

definition with_guard ::
  "('tok world \<Rightarrow> (pair_error, 'a \<times> 'tok world) res) \<Rightarrow> 'tok world \<Rightarrow>
     (pair_error, 'a \<times> 'tok world) res" where
  "with_guard body w =
     bindR (acquire_lock w) (\<lambda>w1.
     bindR (body w1) (\<lambda>(x, w2). Inr (x, release_lock w2)))"

definition ensure_lp_token_not_paused :: "'tok world \<Rightarrow> (pair_error, unit) res" where
  "ensure_lp_token_not_paused w = reject (pc_lp_paused (w_pair w)) P_LpTokenPaused (Inr ())"

definition ensure_not_frozen :: "'tok world \<Rightarrow> (pair_error, unit) res" where
  "ensure_not_frozen w = reject (pc_frozen (w_pair w)) P_ContractFrozen (Inr ())"

section \<open>Clients\<close>

text \<open>
  What the pair learns from its factory. Each field is the outcome of a \<open>try_\<close> call, \<open>None\<close>
  when the call fails.
\<close>

record factory_view =
  fv_fee_override :: "address \<Rightarrow> int option option"
  fv_fee_to :: "address option option"
  fv_fee_bps :: "int option"
  fv_is_pair :: "address \<Rightarrow> bool option"
  fv_is_lp_token :: "address \<Rightarrow> bool option"

definition tok_call ::
  "'tok token_ops \<Rightarrow> env \<Rightarrow> address \<Rightarrow> address \<Rightarrow> address \<Rightarrow> int \<Rightarrow> 'tok world \<Rightarrow>
     (pair_error, 'tok world) res" where
  "tok_call T e tk from to amount w =
     bindR (or_panic (tok_transfer T e tk from to amount (w_tok w))) (\<lambda>t. Inr (w\<lparr>w_tok := t\<rparr>))"

definition tok_held :: "'tok token_ops \<Rightarrow> env \<Rightarrow> address \<Rightarrow> 'tok world \<Rightarrow> int" where
  "tok_held T e tk w = tok_balance T tk (e_self e) (w_tok w)"

text \<open>\<open>if amount > 0 { TokenClient::new(..).transfer(&contract, to, &amount); }\<close>\<close>

definition pay_out ::
  "'tok token_ops \<Rightarrow> env \<Rightarrow> address \<Rightarrow> address \<Rightarrow> int \<Rightarrow> 'tok world \<Rightarrow>
     (pair_error, 'tok world) res" where
  "pay_out T e tk to amount w =
     (if amount > 0 then tok_call T e tk (e_self e) to amount w else Inr w)"

definition lp_client_mint :: "env \<Rightarrow> address \<Rightarrow> address \<Rightarrow> int \<Rightarrow> 'tok world \<Rightarrow>
    (pair_error, 'tok world) res" where
  "lp_client_mint e lp to amount w =
     bindR (call (lp_mint (nested_env e lp) to amount (w_lp w))) (\<lambda>l. Inr (w\<lparr>w_lp := l\<rparr>))"

definition lp_client_burn :: "env \<Rightarrow> address \<Rightarrow> address \<Rightarrow> int \<Rightarrow> 'tok world \<Rightarrow>
    (pair_error, 'tok world) res" where
  "lp_client_burn e lp from amount w =
     bindR (call (lp_burn (nested_env e lp) from amount (w_lp w))) (\<lambda>l. Inr (w\<lparr>w_lp := l\<rparr>))"

definition lp_client_transfer :: "env \<Rightarrow> address \<Rightarrow> address \<Rightarrow> address \<Rightarrow> int \<Rightarrow> 'tok world \<Rightarrow>
    (pair_error, 'tok world) res" where
  "lp_client_transfer e lp from to amount w =
     bindR (call (lp_transfer (nested_env e lp) from to amount (w_lp w))) (\<lambda>l. Inr (w\<lparr>w_lp := l\<rparr>))"

definition lp_held :: "env \<Rightarrow> 'tok world \<Rightarrow> int" where
  "lp_held e w = lp_balance (w_lp w) (e_self e)"

section \<open>Frame rules\<close>

text \<open>The part of the pair's storage that its accounting depends on.\<close>

definition pair_core ::
  "'tok world \<Rightarrow> pair_storage option \<times> (address \<rightharpoonup> int) \<times> int \<times> bool" where
  "pair_core w = (pc_state (w_pair w), pc_pending (w_pair w), pc_pending_total (w_pair w),
     pc_locked (w_pair w))"

lemma pair_core_eq: "pair_core w' = pair_core w \<Longrightarrow>
    get_pair_state w' = get_pair_state w \<and> get_pending_lp w' = get_pending_lp w
    \<and> get_pending_lp_total w' = get_pending_lp_total w \<and> pc_pending (w_pair w') = pc_pending (w_pair w)
    \<and> pc_locked (w_pair w') = pc_locked (w_pair w)"
  by (auto simp: pair_core_def get_pair_state_def get_pending_lp_def get_pending_lp_total_def)

lemma set_pair_simps [simp]:
  "w_pair (set_pair f w) = f (w_pair w)" "w_lp (set_pair f w) = w_lp w"
  "w_tok (set_pair f w) = w_tok w" "w_events (set_pair f w) = w_events w"
  by (simp_all add: set_pair_def)

lemma emit_simps [simp]:
  "w_pair (emit ev w) = w_pair w" "w_lp (emit ev w) = w_lp w" "w_tok (emit ev w) = w_tok w"
  "w_events (emit ev w) = w_events w @ [ev]"
  by (simp_all add: emit_def)

lemma world_setters [simp]:
  "w_lp (set_pair_state ps w) = w_lp w" "w_tok (set_pair_state ps w) = w_tok w"
  "w_events (set_pair_state ps w) = w_events w"
  "w_lp (set_fee_state fs w) = w_lp w" "w_tok (set_fee_state fs w) = w_tok w"
  "w_events (set_fee_state fs w) = w_events w"
  "w_lp (set_pending_lp a x w) = w_lp w" "w_tok (set_pending_lp a x w) = w_tok w"
  "w_lp (set_pending_lp_total x w) = w_lp w" "w_tok (set_pending_lp_total x w) = w_tok w"
  "w_lp (release_lock w) = w_lp w" "w_tok (release_lock w) = w_tok w"
  "w_events (release_lock w) = w_events w"
  by (simp_all add: set_pair_state_def set_fee_state_def set_pending_lp_def
      set_pending_lp_total_def release_lock_def)

lemma pair_setters [simp]:
  "w_pair (set_pair_state ps w) = (w_pair w)\<lparr>pc_state := Some ps\<rparr>"
  "w_pair (set_fee_state fs w) = (w_pair w)\<lparr>pc_fee := Some fs\<rparr>"
  "w_pair (release_lock w) = (w_pair w)\<lparr>pc_locked := False\<rparr>"
  "w_pair (set_pending_lp_total x w) = (w_pair w)\<lparr>pc_pending_total := x\<rparr>"
  "w_pair (set_pending_lp a x w) = (w_pair w)\<lparr>pc_pending :=
     (pc_pending (w_pair w))(a := if x = 0 then None else Some x)\<rparr>"
  by (simp_all add: set_pair_state_def set_fee_state_def release_lock_def
      set_pending_lp_total_def set_pending_lp_def)

lemma tok_held_frame [simp]:
  "tok_held T e tk (emit ev w) = tok_held T e tk w"
  "tok_held T e tk (set_pair f w) = tok_held T e tk w"
  "tok_held T e tk (set_pair_state ps w) = tok_held T e tk w"
  "tok_held T e tk (set_fee_state fs w) = tok_held T e tk w"
  "tok_held T e tk (set_pending_lp a x w) = tok_held T e tk w"
  "tok_held T e tk (set_pending_lp_total x w) = tok_held T e tk w"
  "tok_held T e tk (release_lock w) = tok_held T e tk w"
  "tok_held T e tk (w\<lparr>w_lp := l\<rparr>) = tok_held T e tk w"
  "tok_held T e tk (w\<lparr>w_pair := c\<rparr>) = tok_held T e tk w"
  "tok_held T e tk (w\<lparr>w_events := es\<rparr>) = tok_held T e tk w"
  by (simp_all add: tok_held_def)

lemma state_frame [simp]:
  "get_pair_state (emit ev w) = get_pair_state w"
  "get_pair_state (set_pair_state ps w) = Some ps"
  "get_pair_state (set_fee_state fs w) = get_pair_state w"
  "get_pair_state (set_pending_lp a x w) = get_pair_state w"
  "get_pair_state (set_pending_lp_total x w) = get_pair_state w"
  "get_pair_state (release_lock w) = get_pair_state w"
  "get_pair_state (w\<lparr>w_lp := l\<rparr>) = get_pair_state w"
  "get_pair_state (w\<lparr>w_tok := t\<rparr>) = get_pair_state w"
  "get_pair_state (w\<lparr>w_pair := (w_pair w)\<lparr>pc_locked := b\<rparr>\<rparr>) = get_pair_state w"
  "get_fee_state (w\<lparr>w_pair := (w_pair w)\<lparr>pc_locked := b\<rparr>\<rparr>) = get_fee_state w"
  "get_fee_state (w\<lparr>w_tok := t\<rparr>) = get_fee_state w"
  "get_fee_state (w\<lparr>w_lp := l\<rparr>) = get_fee_state w"
  "get_fee_state (emit ev w) = get_fee_state w"
  "get_fee_state (set_pair_state ps w) = get_fee_state w"
  "get_fee_state (release_lock w) = get_fee_state w"
  "get_fee_state (set_fee_state fs w) = Some fs"
  by (simp_all add: get_pair_state_def get_fee_state_def)

lemma pending_frame [simp]:
  "get_pending_lp (w\<lparr>w_lp := l\<rparr>) = get_pending_lp w"
  "get_pending_lp (w\<lparr>w_tok := t\<rparr>) = get_pending_lp w"
  "get_pending_lp (w\<lparr>w_pair := (w_pair w)\<lparr>pc_locked := b\<rparr>\<rparr>) = get_pending_lp w"
  "get_pending_lp (emit ev w) = get_pending_lp w"
  "get_pending_lp (set_pair_state ps w) = get_pending_lp w"
  "get_pending_lp (release_lock w) = get_pending_lp w"
  "get_pending_lp (set_pending_lp_total x w) = get_pending_lp w"
  "get_pending_lp (set_pending_lp a x w) = (get_pending_lp w)(a := x)"
  "get_pending_lp_total (w\<lparr>w_lp := l\<rparr>) = get_pending_lp_total w"
  "get_pending_lp_total (w\<lparr>w_tok := t\<rparr>) = get_pending_lp_total w"
  "get_pending_lp_total (w\<lparr>w_pair := (w_pair w)\<lparr>pc_locked := b\<rparr>\<rparr>) = get_pending_lp_total w"
  "get_pending_lp_total (emit ev w) = get_pending_lp_total w"
  "get_pending_lp_total (set_pair_state ps w) = get_pending_lp_total w"
  "get_pending_lp_total (release_lock w) = get_pending_lp_total w"
  "get_pending_lp_total (set_pending_lp_total x w) = x"
  by (auto simp: get_pending_lp_def get_pending_lp_total_def fun_eq_iff)

lemma acquire_lock_Inr [res_inv]:
  "acquire_lock w = Inr w' \<longleftrightarrow>
    \<not> pc_locked (w_pair w) \<and> w' = w\<lparr>w_pair := (w_pair w)\<lparr>pc_locked := True\<rparr>\<rparr>"
  by (auto simp: acquire_lock_def res_inv set_pair_def)

lemma acquire_lock_locked [simp]: "pc_locked (w_pair w) \<Longrightarrow> acquire_lock w = Inl (Err P_Locked)"
  by (simp add: acquire_lock_def)

lemma acquire_lock_free [simp]:
  "\<not> pc_locked (w_pair w) \<Longrightarrow> acquire_lock w = Inr (w\<lparr>w_pair := (w_pair w)\<lparr>pc_locked := True\<rparr>\<rparr>)"
  by (simp add: acquire_lock_def set_pair_def)

lemma with_guard_locked [simp]:
  "pc_locked (w_pair w) \<Longrightarrow> with_guard body w = Inl (Err P_Locked)"
  by (simp add: with_guard_def)

lemma with_guard_Inr:
  "with_guard body w = Inr (x, w') \<longleftrightarrow>
    \<not> pc_locked (w_pair w) \<and>
    (\<exists>w2. body (w\<lparr>w_pair := (w_pair w)\<lparr>pc_locked := True\<rparr>\<rparr>) = Inr (x, w2) \<and> w' = release_lock w2)"
  by (auto simp: with_guard_def res_inv)

lemma ensure_Inr [res_inv]:
  "ensure_lp_token_not_paused w = Inr u \<longleftrightarrow> \<not> pc_lp_paused (w_pair w)"
  "ensure_not_frozen w = Inr v \<longleftrightarrow> \<not> pc_frozen (w_pair w)"
  by (auto simp: ensure_lp_token_not_paused_def ensure_not_frozen_def res_inv)

text \<open>A nested call changes one component of the world.\<close>

lemma tok_call_Inr [res_inv]:
  "tok_call T e tk f t x w = Inr w' \<longleftrightarrow>
    (\<exists>s. tok_transfer T e tk f t x (w_tok w) = Some s \<and> w' = w\<lparr>w_tok := s\<rparr>)"
  by (auto simp: tok_call_def res_inv)

lemma lp_client_mint_Inr [res_inv]:
  "lp_client_mint e lp to x w = Inr w' \<longleftrightarrow>
    (\<exists>l. lp_mint (nested_env e lp) to x (w_lp w) = Inr l \<and> w' = w\<lparr>w_lp := l\<rparr>)"
  by (auto simp: lp_client_mint_def res_inv)

lemma lp_client_burn_Inr [res_inv]:
  "lp_client_burn e lp f x w = Inr w' \<longleftrightarrow>
    (\<exists>l. lp_burn (nested_env e lp) f x (w_lp w) = Inr l \<and> w' = w\<lparr>w_lp := l\<rparr>)"
  by (auto simp: lp_client_burn_def res_inv)

lemma lp_client_transfer_Inr [res_inv]:
  "lp_client_transfer e lp f t x w = Inr w' \<longleftrightarrow>
    (\<exists>l. lp_transfer (nested_env e lp) f t x (w_lp w) = Inr l \<and> w' = w\<lparr>w_lp := l\<rparr>)"
  by (auto simp: lp_client_transfer_def res_inv)

section \<open>What the token contract gives the pair\<close>

context sep41 begin

lemma pay_out_frame:
  assumes "pay_out T e tk to x w = Inr w'"
  shows "w_pair w' = w_pair w \<and> w_lp w' = w_lp w \<and> w_events w' = w_events w
    \<and> pair_core w' = pair_core w"
  using assms by (auto simp: pay_out_def res_inv pair_core_def split: if_splits)

lemma pay_out_held:
  assumes "pay_out T e tk to x w = Inr w'"
  shows "tok_held T e tk' w' =
    tok_held T e tk' w - (if tk' = tk \<and> to \<noteq> e_self e then max x 0 else 0)"
  using assms
  by (cases "tk' = tk")
    (auto simp: pay_out_def res_inv tok_held_def transfer_balance transfer_other_token max_def
      split: if_splits)

lemma pull_held:
  assumes "tok_call T e tk from (e_self e) x w = Inr w'" "from \<noteq> e_self e"
  shows "tok_held T e tk' w' = tok_held T e tk' w + (if tk' = tk then x else 0)"
  using assms
  by (cases "tk' = tk") (auto simp: res_inv tok_held_def transfer_balance transfer_other_token)

end

end
