(* ===== verification/Pair_Contract.thy ===== *)
theory Pair_Contract
  imports Pair_State
begin

text \<open>
  The entry points of the pair contract (\<open>contracts/pair/src/lib.rs\<close>, \<open>flash_loan.rs\<close>), each
  with its checks and effects in the order of the source. \<open>T\<close> is the token interface, \<open>fv\<close> the
  factory as the pair sees it, \<open>e\<close> the invocation environment.
\<close>

section \<open>Initialisation\<close>

definition initial_fee_state :: fee_state where
  "initial_fee_state = \<lparr>vol_accumulator = 0, ema_alpha = 10000000000000, baseline_fee_bps = 30,
     min_fee_bps = 10, max_fee_bps = 100, ramp_up_multiplier = 2, cooldown_divisor = 2,
     last_fee_update = 0, decay_threshold_blocks = 100,
     stale_threshold = DEFAULT_STALE_LEDGER_THRESHOLD\<rparr>"

definition token_is_known_contract :: "factory_view \<Rightarrow> address \<Rightarrow> bool" where
  "token_is_known_contract fv token \<longleftrightarrow>
     fv_is_pair fv token = Some True \<or> fv_is_lp_token fv token = Some True"

definition pair_initialize ::
  "factory_view \<Rightarrow> env \<Rightarrow> address \<Rightarrow> address \<Rightarrow> address \<Rightarrow> address \<Rightarrow> 'tok world \<Rightarrow>
     (pair_error, 'tok world) res" where
  "pair_initialize fv e factory token_a token_b lp_token w =
     reject (get_pair_state w \<noteq> None) P_AlreadyInitialized (
     reject (token_a = token_b) P_InvalidInput (
     reject (token_a = factory \<or> token_b = factory \<or> token_a = e_self e \<or> token_b = e_self e
       \<or> token_a = lp_token \<or> token_b = lp_token) P_InvalidInput (
     reject (token_is_known_contract fv token_a \<or> token_is_known_contract fv token_b)
       P_InvalidInput (
     let state = \<lparr>ps_factory = factory, ps_token_a = token_a, ps_token_b = token_b,
           ps_lp_token = lp_token, ps_reserve_a = 0, ps_reserve_b = 0,
           ps_timestamp_last = e_timestamp e, ps_k_last = 0\<rparr> in
     Inr (set_pair (\<lambda>c. c\<lparr>pc_locked := False\<rparr>)
       (set_fee_state initial_fee_state (set_pair_state state w)))))))"

section \<open>Mint\<close>

text \<open>The liquidity of a deposit; the first one also mints the locked seed to the pair.\<close>

definition mint_liquidity ::
  "env \<Rightarrow> pair_storage \<Rightarrow> int \<Rightarrow> int \<Rightarrow> 'tok world \<Rightarrow> (pair_error, int \<times> 'tok world) res" where
  "mint_liquidity e ps amount_a amount_b w =
     (let total_supply = lp_total_supply (w_lp w) in
      if total_supply = 0 then
        bindR (initial_liquidity amount_a amount_b) (\<lambda>liquidity.
        bindR (lp_client_mint e (ps_lp_token ps) (e_self e) MINIMUM_LIQUIDITY w) (\<lambda>w1.
        Inr (liquidity, w1)))
      else
        bindR (subsequent_liquidity amount_a amount_b (ps_reserve_a ps) (ps_reserve_b ps)
          total_supply) (\<lambda>liquidity. Inr (liquidity, w)))"

definition pair_mint ::
  "'tok token_ops \<Rightarrow> env \<Rightarrow> address \<Rightarrow> 'tok world \<Rightarrow> (pair_error, int \<times> 'tok world) res" where
  "pair_mint T e to w0 =
     require (e_auth e to) (
     with_guard (\<lambda>w.
       bindR (ensure_not_frozen w) (\<lambda>_.
       bindR (ok_or (get_pair_state w) P_NotInitialized) (\<lambda>ps.
       bindR (ensure_lp_token_not_paused w) (\<lambda>_.
       let balance_a = tok_held T e (ps_token_a ps) w;
           balance_b = tok_held T e (ps_token_b ps) w in
       bindR (ok_or (i128_checked_sub balance_a (ps_reserve_a ps)) P_InvalidInput) (\<lambda>amount_a.
       bindR (ok_or (i128_checked_sub balance_b (ps_reserve_b ps)) P_InvalidInput) (\<lambda>amount_b.
       reject (amount_a < MINIMUM_RESERVE \<or> amount_b < MINIMUM_RESERVE) P_DustAmount (
       bindR (mint_liquidity e ps amount_a amount_b w) (\<lambda>(liquidity, w1).
       reject (liquidity \<le> 0) P_InsufficientLiquidityMinted (
       reject (liquidity < MIN_LIQUIDITY_FOR_USER) P_DustAmount (
       bindR (lp_client_mint e (ps_lp_token ps) to liquidity w1) (\<lambda>w2.
       bindR (ok_or (i128_checked_mul balance_a balance_b) P_Overflow) (\<lambda>k.
       let ps' = ps\<lparr>ps_reserve_a := balance_a, ps_reserve_b := balance_b, ps_k_last := k,
             ps_timestamp_last := e_timestamp e\<rparr> in
       Inr (liquidity, emit (PE_mint to amount_a amount_b) (set_pair_state ps' w2)))))))))))))) w0)"

section \<open>Swap\<close>

text \<open>The output limits: below the reserves, and at least \<open>MINIMUM_RESERVE\<close> stays.\<close>

definition check_outputs :: "pair_storage \<Rightarrow> int \<Rightarrow> int \<Rightarrow> (pair_error, unit) res" where
  "check_outputs ps amount_a_out amount_b_out =
     reject (amount_a_out \<ge> ps_reserve_a ps \<or> amount_b_out \<ge> ps_reserve_b ps)
       P_InsufficientLiquidity (
     bindR (ok_or (i128_checked_sub (ps_reserve_a ps) amount_a_out) P_Overflow) (\<lambda>left_a.
     bindR (ok_or (i128_checked_sub (ps_reserve_b ps) amount_b_out) P_Overflow) (\<lambda>left_b.
     reject (left_a < MINIMUM_RESERVE \<or> left_b < MINIMUM_RESERVE) P_DustAmount (Inr ()))))"

definition effective_fee :: "factory_view \<Rightarrow> address \<Rightarrow> int \<Rightarrow> int" where
  "effective_fee fv pair dynamic_fee_bps =
     (case fv_fee_override fv pair of
        Some (Some override_bps) \<Rightarrow> if override_bps > 0 then override_bps else dynamic_fee_bps
      | _ \<Rightarrow> dynamic_fee_bps)"

definition swap_input :: "int \<Rightarrow> int \<Rightarrow> int \<Rightarrow> (pair_error, int) res" where
  "swap_input balance reserve amount_out =
     bindR (arith (reserve - amount_out)) (\<lambda>left.
     bindR (arith (balance - left)) (\<lambda>d. Inr (max d 0)))"

definition adjusted_balance :: "int \<Rightarrow> int \<Rightarrow> int \<Rightarrow> (pair_error, int) res" where
  "adjusted_balance balance amount_in fee =
     bindR (ok_or (i128_checked_mul balance BPS_DENOMINATOR) P_Overflow) (\<lambda>scaled.
     bindR (arith (amount_in * fee)) (\<lambda>f.
     ok_or (i128_checked_sub scaled f) P_Overflow))"

definition check_k ::
  "pair_storage \<Rightarrow> int \<Rightarrow> int \<Rightarrow> int \<Rightarrow> int \<Rightarrow> int \<Rightarrow> (pair_error, unit) res" where
  "check_k ps balance_a balance_b amount_a_in amount_b_in fee =
     bindR (adjusted_balance balance_a amount_a_in fee) (\<lambda>balance_a_adj.
     bindR (adjusted_balance balance_b amount_b_in fee) (\<lambda>balance_b_adj.
     bindR (ok_or (i128_checked_mul (ps_reserve_a ps) (ps_reserve_b ps)) P_Overflow) (\<lambda>k0.
     bindR (ok_or (i128_checked_mul k0 100000000) P_Overflow) (\<lambda>k_before.
     bindR (ok_or (i128_checked_mul balance_a_adj balance_b_adj) P_Overflow) (\<lambda>k_after.
     reject (k_after < k_before) P_InvalidK (Inr ()))))))"

definition protocol_cut :: "int \<Rightarrow> int \<Rightarrow> int \<Rightarrow> int" where
  "protocol_cut amount_in fee protocol_fee_bps =
     i128_saturating_mul (i128_saturating_mul amount_in fee) protocol_fee_bps sdiv 100000000"

text \<open>The protocol's share of the swap fee, forwarded to the factory's \<open>fee_to\<close>.\<close>

definition collect_protocol_fee ::
  "'tok token_ops \<Rightarrow> factory_view \<Rightarrow> env \<Rightarrow> pair_storage \<Rightarrow> int \<Rightarrow> int \<Rightarrow> int \<Rightarrow> 'tok world \<Rightarrow>
     (pair_error, (int \<times> int) \<times> 'tok world) res" where
  "collect_protocol_fee T fv e ps amount_a_in amount_b_in fee w =
     (let protocol_fee_to = (case fv_fee_to fv of Some (Some fee_to) \<Rightarrow> Some fee_to | _ \<Rightarrow> None);
          protocol_fee_bps = (case fv_fee_bps fv of Some bps \<Rightarrow> min bps 10000 | None \<Rightarrow> 0) in
      case protocol_fee_to of
        None \<Rightarrow> Inr ((0, 0), w)
      | Some fee_to \<Rightarrow>
          let fee_a = (if protocol_fee_bps > 0 \<and> amount_a_in > 0
                       then protocol_cut amount_a_in fee protocol_fee_bps else 0);
              fee_b = (if protocol_fee_bps > 0 \<and> amount_b_in > 0
                       then protocol_cut amount_b_in fee protocol_fee_bps else 0) in
          bindR (pay_out T e (ps_token_a ps) fee_to fee_a w) (\<lambda>w1.
          bindR (pay_out T e (ps_token_b ps) fee_to fee_b w1) (\<lambda>w2.
          Inr ((fee_a, fee_b),
            if fee_a > 0 \<or> fee_b > 0 then
              emit (PE_protocol_fee_collected fee_to fee_a fee_b fee)
                (set_pair (\<lambda>c. c\<lparr>
                   pc_protocol_fee_a := i128_saturating_add (pc_protocol_fee_a c) fee_a,
                   pc_protocol_fee_b := i128_saturating_add (pc_protocol_fee_b c) fee_b\<rparr>) w2)
            else w2))))"

definition scaled_price :: "int \<Rightarrow> int \<Rightarrow> int" where
  "scaled_price reserve_b reserve_a =
     (case Option.bind (i128_checked_mul reserve_b PRICE_SCALE)
             (\<lambda>v. i128_checked_div v reserve_a) of
        None \<Rightarrow> 0 | Some p \<Rightarrow> p)"

text \<open>\<open>let _ = update_volatility(..)\<close>: an error leaves the state, a panic aborts the swap.\<close>

definition track_volatility ::
  "env \<Rightarrow> fee_state \<Rightarrow> int \<Rightarrow> int \<Rightarrow> int \<Rightarrow> int \<Rightarrow> int \<Rightarrow> int \<Rightarrow> (pair_error, fee_state) res" where
  "track_volatility e fs before_a before_b reserve_a reserve_b amount_a_in amount_b_in =
     (if before_a > 0 \<and> before_b > 0 \<and> reserve_a > 0 \<and> reserve_b > 0 then
        let price_before = scaled_price before_b before_a;
            price_after = scaled_price reserve_b reserve_a in
        bindR (arith (if price_after > price_before then price_after - price_before
                      else price_before - price_after)) (\<lambda>price_delta_abs.
        case update_volatility e fs price_delta_abs (max amount_a_in amount_b_in)
               (i128_saturating_add reserve_a reserve_b) of
          Inr fs' \<Rightarrow> Inr fs'
        | Inl (Err _) \<Rightarrow> Inr fs
        | Inl Panic \<Rightarrow> Inl Panic)
      else Inr fs)"

definition swap_inner ::
  "'tok token_ops \<Rightarrow> factory_view \<Rightarrow> env \<Rightarrow> int \<Rightarrow> int \<Rightarrow> address \<Rightarrow> 'tok world \<Rightarrow>
     (pair_error, unit \<times> 'tok world) res" where
  "swap_inner T fv e amount_a_out amount_b_out to w =
     reject (amount_a_out \<le> 0 \<and> amount_b_out \<le> 0) P_InsufficientOutputAmount (
     bindR (ok_or (get_pair_state w) P_NotInitialized) (\<lambda>ps.
     bindR (ok_or (get_fee_state w) P_NotInitialized) (\<lambda>fs0.
     bindR (check_outputs ps amount_a_out amount_b_out) (\<lambda>_.
     bindR (decay_stale_ema e fs0) (\<lambda>fs.
     bindR (compute_fee_bps fs) (\<lambda>dynamic_fee_bps.
     let fee = effective_fee fv (e_self e) dynamic_fee_bps in
     bindR (pay_out T e (ps_token_a ps) to amount_a_out w) (\<lambda>w1.
     bindR (pay_out T e (ps_token_b ps) to amount_b_out w1) (\<lambda>w2.
     let balance_a = tok_held T e (ps_token_a ps) w2;
         balance_b = tok_held T e (ps_token_b ps) w2 in
     bindR (swap_input balance_a (ps_reserve_a ps) amount_a_out) (\<lambda>amount_a_in.
     bindR (swap_input balance_b (ps_reserve_b ps) amount_b_out) (\<lambda>amount_b_in.
     reject (amount_a_in \<le> 0 \<and> amount_b_in \<le> 0) P_InsufficientInputAmount (
     bindR (check_k ps balance_a balance_b amount_a_in amount_b_in fee) (\<lambda>_.
     bindR (collect_protocol_fee T fv e ps amount_a_in amount_b_in fee w2)
       (\<lambda>((protocol_fee_a, protocol_fee_b), w3).
     bindR (ok_or (i128_checked_sub balance_a protocol_fee_a) P_Overflow) (\<lambda>reserve_a.
     bindR (ok_or (i128_checked_sub balance_b protocol_fee_b) P_Overflow) (\<lambda>reserve_b.
     bindR (ok_or (i128_checked_mul reserve_a reserve_b) P_Overflow) (\<lambda>k.
     bindR (track_volatility e fs (ps_reserve_a ps) (ps_reserve_b ps) reserve_a reserve_b
       amount_a_in amount_b_in) (\<lambda>fs'.
     let ps' = ps\<lparr>ps_reserve_a := reserve_a, ps_reserve_b := reserve_b, ps_k_last := k,
           ps_timestamp_last := e_timestamp e\<rparr> in
     Inr ((), emit (PE_swap to (ps_token_a ps) (ps_token_b ps) amount_a_in amount_b_in
             amount_a_out amount_b_out fee to)
           (set_fee_state fs' (set_pair_state ps' w3))))))))))))))))))))"

definition pair_swap ::
  "'tok token_ops \<Rightarrow> factory_view \<Rightarrow> env \<Rightarrow> int \<Rightarrow> int \<Rightarrow> address \<Rightarrow> 'tok world \<Rightarrow>
     (pair_error, unit \<times> 'tok world) res" where
  "pair_swap T fv e amount_a_out amount_b_out to w0 =
     with_guard (\<lambda>w.
       bindR (ensure_not_frozen w) (\<lambda>_.
       swap_inner T fv e amount_a_out amount_b_out to w)) w0"

section \<open>Mint with one token\<close>

definition pair_mint_with_one_token ::
  "'tok token_ops \<Rightarrow> factory_view \<Rightarrow> env \<Rightarrow> address \<Rightarrow> address \<Rightarrow> int \<Rightarrow> int \<Rightarrow> 'tok world \<Rightarrow>
     (pair_error, int \<times> 'tok world) res" where
  "pair_mint_with_one_token T fv e to token_in amount min_lp_out w0 =
     require (e_auth e to) (
     with_guard (\<lambda>w.
       bindR (ensure_not_frozen w) (\<lambda>_.
       bindR (ok_or (get_pair_state w) P_NotInitialized) (\<lambda>ps.
       bindR (ok_or (get_fee_state w) P_NotInitialized) (\<lambda>fs.
       bindR (ensure_lp_token_not_paused w) (\<lambda>_.
       reject (amount \<le> 0) P_InvalidInput (
       reject (min_lp_out \<le> 0) P_InvalidInput (
       reject (token_in \<noteq> ps_token_a ps \<and> token_in \<noteq> ps_token_b ps) P_InvalidInput (
       let in_is_a = (token_in = ps_token_a ps);
           reserve_in = (if in_is_a then ps_reserve_a ps else ps_reserve_b ps);
           reserve_out = (if in_is_a then ps_reserve_b ps else ps_reserve_a ps) in
       reject (reserve_in \<le> 0 \<or> reserve_out \<le> 0) P_InsufficientLiquidity (
       bindR (compute_fee_bps fs) (\<lambda>fee_bps.
       bindR (compute_swap_in_for_single_side reserve_in amount fee_bps) (\<lambda>swap_in.
       reject (swap_in \<le> 0 \<or> swap_in \<ge> amount) P_InvalidInput (
       bindR (tok_call T e token_in to (e_self e) amount w) (\<lambda>w1.
       bindR (pair_get_amount_out swap_in reserve_in reserve_out fee_bps) (\<lambda>swap_out.
       reject (swap_out \<le> 0) P_InsufficientLiquidity (
       bindR (ok_or (i128_checked_sub amount swap_in) P_Overflow) (\<lambda>deposit_in.
       let deposit_out = swap_out in
       reject (deposit_in \<le> 0 \<or> deposit_out \<le> 0) P_InsufficientLiquidityMinted (
       bindR (if in_is_a then swap_inner T fv e 0 swap_out (e_self e) w1
              else swap_inner T fv e swap_out 0 (e_self e) w1) (\<lambda>(_, w2).
       bindR (ok_or (get_pair_state w2) P_NotInitialized) (\<lambda>post.
       let deposit_a = (if in_is_a then deposit_in else deposit_out);
           deposit_b = (if in_is_a then deposit_out else deposit_in);
           total_supply = lp_total_supply (w_lp w2) in
       reject (total_supply = 0) P_InsufficientLiquidityMinted (
       bindR (subsequent_liquidity deposit_a deposit_b (ps_reserve_a post) (ps_reserve_b post)
         total_supply) (\<lambda>lp_minted.
       reject (lp_minted \<le> 0) P_InsufficientLiquidityMinted (
       reject (lp_minted < MIN_LIQUIDITY_FOR_USER) P_DustAmount (
       reject (lp_minted < min_lp_out) P_SlippageExceeded (
       bindR (lp_client_mint e (ps_lp_token post) to lp_minted w2) (\<lambda>w3.
       bindR (ok_or (i128_checked_add (ps_reserve_a post) deposit_a) P_Overflow) (\<lambda>new_a.
       bindR (ok_or (i128_checked_add (ps_reserve_b post) deposit_b) P_Overflow) (\<lambda>new_b.
       bindR (ok_or (i128_checked_mul new_a new_b) P_Overflow) (\<lambda>k.
       let ps' = post\<lparr>ps_reserve_a := new_a, ps_reserve_b := new_b, ps_k_last := k,
             ps_timestamp_last := e_timestamp e\<rparr> in
       Inr (lp_minted, emit (PE_mint_single_side to token_in amount swap_in lp_minted)
         (set_pair_state ps' w3)))))))))))))))))))))))))))))) w0)"

section \<open>Withdrawals\<close>

definition pair_deposit_lp ::
  "env \<Rightarrow> address \<Rightarrow> int \<Rightarrow> 'tok world \<Rightarrow> (pair_error, unit \<times> 'tok world) res" where
  "pair_deposit_lp e from amount w0 =
     require (e_auth e from) (
     with_guard (\<lambda>w.
       bindR (ok_or (get_pair_state w) P_NotInitialized) (\<lambda>ps.
       bindR (ensure_lp_token_not_paused w) (\<lambda>_.
       reject (amount \<le> 0 \<or> from = e_self e) P_InvalidInput (
       bindR (lp_client_transfer e (ps_lp_token ps) from (e_self e) amount w) (\<lambda>w1.
       bindR (ok_or (i128_checked_add (get_pending_lp w1 from) amount) P_Overflow) (\<lambda>pending.
       bindR (ok_or (i128_checked_add (get_pending_lp_total w1) amount) P_Overflow) (\<lambda>total.
       Inr ((), set_pending_lp_total total (set_pending_lp from pending w1))))))))) w0)"

definition pair_pending_lp :: "'tok world \<Rightarrow> address \<Rightarrow> int" where
  "pair_pending_lp w who = get_pending_lp w who"

text \<open>The LP that \<open>burn\<close> redeems for a caller with the given pending amount.\<close>

definition burn_lp_amount :: "int \<Rightarrow> int \<Rightarrow> int \<Rightarrow> (pair_error, int) res" where
  "burn_lp_amount held pending pending_total =
     (if pending > 0 then Inr pending
      else ok_or (Option.bind (i128_checked_sub held MINIMUM_LIQUIDITY)
                   (\<lambda>v. i128_checked_sub v pending_total)) P_InsufficientLiquidityBurned)"

definition pair_burn ::
  "'tok token_ops \<Rightarrow> env \<Rightarrow> address \<Rightarrow> 'tok world \<Rightarrow>
     (pair_error, (int \<times> int) \<times> 'tok world) res" where
  "pair_burn T e to w0 =
     require (e_auth e to) (
     with_guard (\<lambda>w.
       bindR (ok_or (get_pair_state w) P_NotInitialized) (\<lambda>ps.
       bindR (ensure_lp_token_not_paused w) (\<lambda>_.
       let lp_bal = lp_held e w; total_supply = lp_total_supply (w_lp w) in
       reject (total_supply = 0) P_InsufficientLiquidityBurned (
       bindR (ok_or (i128_checked_sub total_supply MINIMUM_LIQUIDITY) P_Overflow) (\<lambda>burnable.
       reject (burnable = 0) P_InsufficientLiquidityBurned (
       let pending = get_pending_lp w to; pending_total = get_pending_lp_total w in
       bindR (burn_lp_amount lp_bal pending pending_total) (\<lambda>burn_lp.
       reject (burn_lp \<le> 0) P_InsufficientLiquidityBurned (
       bindR (burn_amounts burn_lp (ps_reserve_a ps) (ps_reserve_b ps) burnable)
         (\<lambda>(amount_a, amount_b).
       reject (amount_a \<le> 0 \<or> amount_b \<le> 0) P_InsufficientLiquidityBurned (
       reject (amount_a < MINIMUM_RESERVE \<or> amount_b < MINIMUM_RESERVE) P_DustAmount (
       bindR (ok_or (i128_checked_sub (ps_reserve_a ps) amount_a) P_Overflow) (\<lambda>after_a.
       bindR (ok_or (i128_checked_sub (ps_reserve_b ps) amount_b) P_Overflow) (\<lambda>after_b.
       reject ((after_a > 0 \<and> after_a < MINIMUM_RESERVE) \<or> (after_b > 0 \<and> after_b < MINIMUM_RESERVE))
         P_DustAmount (
       bindR (lp_client_burn e (ps_lp_token ps) (e_self e) burn_lp w) (\<lambda>w1.
       bindR (if pending > 0 then
                bindR (arith (pending_total - pending)) (\<lambda>rest.
                Inr (set_pending_lp_total rest (set_pending_lp to 0 w1)))
              else Inr w1) (\<lambda>w2.
       bindR (tok_call T e (ps_token_a ps) (e_self e) to amount_a w2) (\<lambda>w3.
       bindR (tok_call T e (ps_token_b ps) (e_self e) to amount_b w3) (\<lambda>w4.
       bindR (ok_or (i128_checked_mul after_a after_b) P_Overflow) (\<lambda>k.
       let ps' = ps\<lparr>ps_reserve_a := after_a, ps_reserve_b := after_b, ps_k_last := k,
             ps_timestamp_last := e_timestamp e\<rparr> in
       Inr ((amount_a, amount_b), emit (PE_burn to amount_a amount_b to)
         (set_pair_state ps' w4))))))))))))))))))))) w0)"

text \<open>The swap leg of \<open>burn_single_side\<close>: a dust-sized leg yields nothing.\<close>

definition single_side_out :: "int \<Rightarrow> int \<Rightarrow> int \<Rightarrow> int \<Rightarrow> (pair_error, int) res" where
  "single_side_out share_unwanted unwanted_post preferred_post fee_bps =
     (if preferred_post = 0 then Inr 0
      else
        case pair_get_amount_out share_unwanted unwanted_post preferred_post fee_bps of
          Inr out \<Rightarrow> Inr out
        | Inl (Err err) \<Rightarrow> if err = P_DustAmount then Inr 0 else Inl (Err err)
        | Inl Panic \<Rightarrow> Inl Panic)"

definition single_side_k ::
  "int \<Rightarrow> int \<Rightarrow> int \<Rightarrow> int \<Rightarrow> int \<Rightarrow> int \<Rightarrow> (pair_error, unit) res" where
  "single_side_k preferred_post unwanted_post preferred_final unwanted_final share_unwanted fee_bps =
     bindR (ok_or (i128_checked_mul preferred_post unwanted_post) P_Overflow) (\<lambda>k0.
     bindR (ok_or (i128_checked_mul k0 100000000) P_Overflow) (\<lambda>k_before.
     bindR (ok_or (i128_checked_mul preferred_final BPS_DENOMINATOR) P_Overflow) (\<lambda>preferred_adj.
     bindR (ok_or (i128_checked_mul unwanted_final BPS_DENOMINATOR) P_Overflow) (\<lambda>unwanted0.
     bindR (ok_or (i128_checked_mul share_unwanted fee_bps) P_Overflow) (\<lambda>fee.
     bindR (ok_or (i128_checked_sub unwanted0 fee) P_Overflow) (\<lambda>unwanted_adj.
     bindR (ok_or (i128_checked_mul preferred_adj unwanted_adj) P_Overflow) (\<lambda>k_after.
     reject (k_after < k_before) P_InvalidK (Inr ()))))))))"

definition pair_burn_single_side ::
  "'tok token_ops \<Rightarrow> env \<Rightarrow> address \<Rightarrow> int \<Rightarrow> address \<Rightarrow> int \<Rightarrow> 'tok world \<Rightarrow>
     (pair_error, int \<times> 'tok world) res" where
  "pair_burn_single_side T e to lp_amount preferred_token min_amount_out w0 =
     require (e_auth e to) (
     with_guard (\<lambda>w.
       bindR (ensure_not_frozen w) (\<lambda>_.
       bindR (ok_or (get_pair_state w) P_NotInitialized) (\<lambda>ps.
       bindR (ok_or (get_fee_state w) P_NotInitialized) (\<lambda>fs.
       bindR (ensure_lp_token_not_paused w) (\<lambda>_.
       reject (lp_amount \<le> 0 \<or> min_amount_out \<le> 0) P_InvalidInput (
       reject (preferred_token \<noteq> ps_token_a ps \<and> preferred_token \<noteq> ps_token_b ps) P_InvalidInput (
       let prefer_a = (preferred_token = ps_token_a ps);
           total_supply = lp_total_supply (w_lp w) in
       reject (total_supply = 0) P_InsufficientLiquidityBurned (
       bindR (lp_client_burn e (ps_lp_token ps) to lp_amount w) (\<lambda>w1.
       bindR (ok_or (i128_checked_sub total_supply MINIMUM_LIQUIDITY) P_Overflow) (\<lambda>burnable.
       reject (burnable = 0) P_InsufficientLiquidityBurned (
       bindR (mul_then_div lp_amount (ps_reserve_a ps) burnable) (\<lambda>share_a.
       bindR (mul_then_div lp_amount (ps_reserve_b ps) burnable) (\<lambda>share_b.
       reject (share_a \<le> 0 \<or> share_b \<le> 0) P_InsufficientLiquidityBurned (
       let share_preferred = (if prefer_a then share_a else share_b);
           share_unwanted = (if prefer_a then share_b else share_a);
           reserve_preferred = (if prefer_a then ps_reserve_a ps else ps_reserve_b ps);
           reserve_unwanted = (if prefer_a then ps_reserve_b ps else ps_reserve_a ps) in
       bindR (ok_or (i128_checked_sub reserve_preferred share_preferred) P_Overflow) (\<lambda>preferred_post.
       bindR (ok_or (i128_checked_sub reserve_unwanted share_unwanted) P_Overflow) (\<lambda>unwanted_post.
       bindR (compute_fee_bps fs) (\<lambda>fee_bps.
       bindR (single_side_out share_unwanted unwanted_post preferred_post fee_bps) (\<lambda>swap_out.
       bindR (ok_or (i128_checked_add share_preferred swap_out) P_Overflow) (\<lambda>total_out.
       reject (total_out < min_amount_out) P_SlippageExceeded (
       bindR (ok_or (i128_checked_sub preferred_post swap_out) P_Overflow) (\<lambda>preferred_final.
       bindR (single_side_k preferred_post unwanted_post preferred_final reserve_unwanted
         share_unwanted fee_bps) (\<lambda>_.
       bindR (tok_call T e preferred_token (e_self e) to total_out w1) (\<lambda>w2.
       let new_a = (if prefer_a then preferred_final else reserve_unwanted);
           new_b = (if prefer_a then reserve_unwanted else preferred_final) in
       bindR (ok_or (i128_checked_mul new_a new_b) P_Overflow) (\<lambda>k.
       let ps' = ps\<lparr>ps_reserve_a := new_a, ps_reserve_b := new_b, ps_k_last := k,
             ps_timestamp_last := e_timestamp e\<rparr> in
       Inr (total_out, emit (PE_burn_single_side to lp_amount preferred_token total_out)
         (set_pair_state ps' w2)))))))))))))))))))))))))) w0)"

section \<open>Sync\<close>

definition pair_sync ::
  "'tok token_ops \<Rightarrow> env \<Rightarrow> 'tok world \<Rightarrow> (pair_error, unit \<times> 'tok world) res" where
  "pair_sync T e w0 =
     with_guard (\<lambda>w.
       bindR (ok_or (get_pair_state w) P_NotInitialized) (\<lambda>ps.
       let balance_a = tok_held T e (ps_token_a ps) w;
           balance_b = tok_held T e (ps_token_b ps) w in
       bindR (ok_or (i128_checked_mul balance_a balance_b) P_Overflow) (\<lambda>k.
       let ps' = ps\<lparr>ps_reserve_a := balance_a, ps_reserve_b := balance_b,
             ps_timestamp_last := e_timestamp e, ps_k_last := k\<rparr> in
       Inr ((), emit (PE_sync balance_a balance_b) (set_pair_state ps' w))))) w0"

section \<open>Flash loans\<close>

definition FLASH_FEE_FLOOR_BPS :: int where "FLASH_FEE_FLOOR_BPS = 5"

definition MAX_PAYLOAD_SIZE :: nat where "MAX_PAYLOAD_SIZE = 256"

definition compute_flash_fee :: "int \<Rightarrow> int \<Rightarrow> (pair_error, int) res" where
  "compute_flash_fee amount current_fee_bps =
     reject (current_fee_bps > 10000) P_FlashLoanFeeTooHigh (
     if current_fee_bps = 0 then Inr 0
     else
       bindR (ok_or (map_option (\<lambda>v. v sdiv 10000)
         (i128_checked_mul amount (max current_fee_bps FLASH_FEE_FLOOR_BPS))) P_FeeOverflow) (\<lambda>fee.
       Inr (max fee 1)))"

text \<open>The arguments of \<open>FlashReceiver::on_flash_loan\<close>.\<close>

record flash_args =
  fa_initiator :: address
  fa_token_a :: address
  fa_token_b :: address
  fa_amount_a :: int
  fa_amount_b :: int
  fa_fee_a :: int
  fa_fee_b :: int
  fa_data :: "8 word list"

text \<open>
  The receiver is any contract: a function from its environment and arguments to its effect on
  the world, \<open>None\<close> when it fails. It can call back into the pair, whose lock is then held.
\<close>

type_synonym 'tok receiver = "env \<Rightarrow> flash_args \<Rightarrow> 'tok world \<Rightarrow> 'tok world option"

definition check_repaid :: "int \<Rightarrow> int \<Rightarrow> int \<Rightarrow> int \<Rightarrow> (pair_error, unit) res" where
  "check_repaid amount reserve fee new_balance =
     (if amount > 0 then
        bindR (ok_or (i128_checked_add reserve fee) P_Overflow) (\<lambda>required.
        reject (new_balance < required) P_FlashLoanNotRepaid (Inr ()))
      else Inr ())"

definition execute_flash_loan ::
  "'tok token_ops \<Rightarrow> 'tok receiver \<Rightarrow> env \<Rightarrow> address \<Rightarrow> int \<Rightarrow> int \<Rightarrow> 8 word list \<Rightarrow> 'tok world \<Rightarrow>
     (pair_error, unit \<times> 'tok world) res" where
  "execute_flash_loan T recv e receiver amount_a amount_b data w0 =
     reject (length data > MAX_PAYLOAD_SIZE) P_FlashPayloadTooLarge (
     reject (amount_a < 0 \<or> amount_b < 0) P_InsufficientInputAmount (
     bindR (ok_or (get_pair_state w0) P_NotInitialized) (\<lambda>ps.
     if amount_a = 0 \<and> amount_b = 0 then Inr ((), w0)
     else
       reject (amount_a > ps_reserve_a ps \<or> amount_b > ps_reserve_b ps) P_InsufficientLiquidity (
       bindR (ok_or (i128_checked_mul (ps_reserve_a ps) (ps_reserve_b ps)) P_Overflow) (\<lambda>pre_k.
       with_guard (\<lambda>w.
         let pool_fee_bps = (case get_fee_state w of
               None \<Rightarrow> FLASH_FEE_FLOOR_BPS | Some fs \<Rightarrow> baseline_fee_bps fs) in
         bindR (if amount_a > 0 then compute_flash_fee amount_a pool_fee_bps else Inr 0) (\<lambda>fee_a.
         bindR (if amount_b > 0 then compute_flash_fee amount_b pool_fee_bps else Inr 0) (\<lambda>fee_b.
         bindR (pay_out T e (ps_token_a ps) receiver amount_a w) (\<lambda>w1.
         bindR (pay_out T e (ps_token_b ps) receiver amount_b w1) (\<lambda>w2.
         bindR (ok_or (recv (nested_env e receiver)
                  \<lparr>fa_initiator = e_self e, fa_token_a = ps_token_a ps, fa_token_b = ps_token_b ps,
                   fa_amount_a = amount_a, fa_amount_b = amount_b, fa_fee_a = fee_a,
                   fa_fee_b = fee_b, fa_data = data\<rparr> w2) P_FlashCallbackFailed) (\<lambda>w3.
         let new_a = tok_held T e (ps_token_a ps) w3;
             new_b = tok_held T e (ps_token_b ps) w3 in
         bindR (check_repaid amount_a (ps_reserve_a ps) fee_a new_a) (\<lambda>_.
         bindR (check_repaid amount_b (ps_reserve_b ps) fee_b new_b) (\<lambda>_.
         bindR (ok_or (i128_checked_mul new_a new_b) P_Overflow) (\<lambda>post_k.
         reject (post_k < pre_k) P_InvalidK (
         let ps' = ps\<lparr>ps_reserve_a := new_a, ps_reserve_b := new_b, ps_k_last := post_k\<rparr> in
         Inr ((), emit (PE_flash_loan receiver amount_a amount_b fee_a fee_b pool_fee_bps)
           (set_pair_state ps' w3)))))))))))) w0)))))"

definition pair_flash_loan ::
  "'tok token_ops \<Rightarrow> 'tok receiver \<Rightarrow> env \<Rightarrow> address \<Rightarrow> int \<Rightarrow> int \<Rightarrow> 8 word list \<Rightarrow> 'tok world \<Rightarrow>
     (pair_error, unit \<times> 'tok world) res" where
  "pair_flash_loan T recv e receiver amount_a amount_b data w =
     bindR (ensure_not_frozen w) (\<lambda>_.
     execute_flash_loan T recv e receiver amount_a amount_b data w)"

section \<open>Administration\<close>

definition pair_set_stale_threshold ::
  "env \<Rightarrow> int \<Rightarrow> 'tok world \<Rightarrow> (pair_error, unit \<times> 'tok world) res" where
  "pair_set_stale_threshold e new_threshold w =
     bindR (ok_or (get_pair_state w) P_NotInitialized) (\<lambda>ps.
     bindR (ok_or (get_fee_state w) P_NotInitialized) (\<lambda>fs.
     require (e_auth e (ps_factory ps)) (
     reject (new_threshold = 0 \<or> new_threshold > 100000) P_InvalidStaleThreshold (
     Inr ((), emit (PE_stale_threshold_updated new_threshold)
       (set_fee_state (fs\<lparr>stale_threshold := new_threshold\<rparr>) w))))))"

text \<open>
  The client's \<open>try_\<close> calls return an error of the callee, declared or not, as the outer
  \<open>Err\<close>; the arm for the inner \<open>Err\<close>, \<open>LpTokenRejected\<close>, is reached only by a return
  value that does not convert, which the LP token of the repository does not produce.
\<close>

definition pair_set_lp_token_paused ::
  "env \<Rightarrow> bool \<Rightarrow> 'tok world \<Rightarrow> (pair_error, unit \<times> 'tok world) res" where
  "pair_set_lp_token_paused e paused w =
     bindR (ok_or (get_pair_state w) P_NotInitialized) (\<lambda>ps.
     require (e_auth e (ps_factory ps)) (
     let inner = nested_env e (ps_lp_token ps);
         result = (if paused then lp_pause inner (w_lp w) else lp_unpause inner (w_lp w)) in
     case result of
       Inr l \<Rightarrow> Inr ((), set_pair (\<lambda>c. c\<lparr>pc_lp_paused := paused\<rparr>) (w\<lparr>w_lp := l\<rparr>))
     | Inl _ \<Rightarrow> Inl (Err P_LpTokenUnavailable)))"

definition pair_set_frozen :: "env \<Rightarrow> bool \<Rightarrow> 'tok world \<Rightarrow> (pair_error, unit \<times> 'tok world) res" where
  "pair_set_frozen e frozen w =
     bindR (ok_or (get_pair_state w) P_NotInitialized) (\<lambda>ps.
     require (e_auth e (ps_factory ps)) (
     Inr ((), set_pair (\<lambda>c. c\<lparr>pc_frozen := frozen\<rparr>) w)))"

section \<open>Views\<close>

definition FEE_MODEL_VERSION :: int where "FEE_MODEL_VERSION = 1"

record fee_state_view =
  fsv_fee_model_version :: int
  fsv_current_fee_bps :: int
  fsv_baseline_fee_bps :: int
  fsv_min_fee_bps :: int
  fsv_max_fee_bps :: int

definition pair_version :: int where "pair_version = PROTOCOL_VERSION"

definition pair_get_reserves :: "'tok world \<Rightarrow> (pair_error, int \<times> int \<times> int) res" where
  "pair_get_reserves w =
     bindR (ok_or (get_pair_state w) P_NotInitialized) (\<lambda>ps.
     Inr (ps_reserve_a ps, ps_reserve_b ps, ps_timestamp_last ps))"

definition pair_consult_twap :: "env \<Rightarrow> int \<Rightarrow> 'tok world \<Rightarrow> (oracle_error, int \<times> int) res" where
  "pair_consult_twap e window_ledgers w = consult_twap e window_ledgers (pc_oracle (w_pair w))"

definition pair_lp_token :: "'tok world \<Rightarrow> (pair_error, address) res" where
  "pair_lp_token w =
     bindR (ok_or (get_pair_state w) P_NotInitialized) (\<lambda>ps. Inr (ps_lp_token ps))"

definition pair_get_current_fee_bps :: "'tok world \<Rightarrow> (pair_error, int) res" where
  "pair_get_current_fee_bps w =
     (case get_fee_state w of Some fs \<Rightarrow> compute_fee_bps fs | None \<Rightarrow> Inr 30)"

definition pair_get_effective_fee_bps ::
  "factory_view \<Rightarrow> env \<Rightarrow> 'tok world \<Rightarrow> (pair_error, int \<times> bool) res" where
  "pair_get_effective_fee_bps fv e w =
     bindR (ok_or (get_pair_state w) P_NotInitialized) (\<lambda>ps.
     bindR (ok_or (get_fee_state w) P_NotInitialized) (\<lambda>fs.
     bindR (compute_fee_bps fs) (\<lambda>dynamic_fee_bps.
     case fv_fee_override fv (e_self e) of
       Some (Some override_bps) \<Rightarrow>
         if override_bps > 0 then Inr (override_bps, True) else Inr (dynamic_fee_bps, False)
     | _ \<Rightarrow> Inr (dynamic_fee_bps, False))))"

definition pair_get_fee_state :: "'tok world \<Rightarrow> (pair_error, fee_state_view) res" where
  "pair_get_fee_state w =
     bindR (ok_or (get_fee_state w) P_NotInitialized) (\<lambda>fs.
     bindR (compute_fee_bps fs) (\<lambda>current.
     Inr \<lparr>fsv_fee_model_version = FEE_MODEL_VERSION, fsv_current_fee_bps = current,
          fsv_baseline_fee_bps = baseline_fee_bps fs, fsv_min_fee_bps = min_fee_bps fs,
          fsv_max_fee_bps = max_fee_bps fs\<rparr>))"

definition pair_get_protocol_fee_balance :: "'tok world \<Rightarrow> int \<times> int" where
  "pair_get_protocol_fee_balance w =
     (pc_protocol_fee_a (w_pair w), pc_protocol_fee_b (w_pair w))"

definition pair_is_lp_token_paused :: "'tok world \<Rightarrow> bool" where
  "pair_is_lp_token_paused w =
     (case get_pair_state w of None \<Rightarrow> False | Some ps \<Rightarrow> lp_is_paused (w_lp w))"

definition pair_is_frozen :: "'tok world \<Rightarrow> bool" where
  "pair_is_frozen w = pc_frozen (w_pair w)"

end
