(* ===== verification/Pair_Swap.thy ===== *)
theory Pair_Swap
  imports Pair_Contract
begin

text \<open>
  What a successful swap has checked and done (\<open>swap_inner_cases\<close>), and from it: the constant
  product does not fall, the reserves are the balances, and no reserve falls below the floor.
\<close>

section \<open>The checks of a swap\<close>

lemma check_outputs_Inr [res_inv]:
  "check_outputs ps a b = Inr u \<longleftrightarrow>
    a < ps_reserve_a ps \<and> b < ps_reserve_b ps \<and>
    in_i128 (ps_reserve_a ps - a) \<and> in_i128 (ps_reserve_b ps - b) \<and>
    1000 \<le> ps_reserve_a ps - a \<and> 1000 \<le> ps_reserve_b ps - b"
  by (auto simp: check_outputs_def res_inv chk_inv MINIMUM_RESERVE_def)

lemma swap_input_Inr [res_inv]:
  "swap_input bal r x = Inr i \<longleftrightarrow>
    in_i128 (r - x) \<and> in_i128 (bal - (r - x)) \<and> i = max (bal - (r - x)) 0"
  by (auto simp: swap_input_def res_inv)

lemma adjusted_balance_Inr [res_inv]:
  "adjusted_balance bal i fee = Inr y \<longleftrightarrow>
    in_i128 (bal * 10000) \<and> in_i128 (i * fee) \<and> in_i128 (bal * 10000 - i * fee) \<and>
    y = bal * 10000 - i * fee"
  by (auto simp: adjusted_balance_def res_inv chk_inv BPS_DENOMINATOR_def)

lemma check_k_Inr:
  assumes "check_k ps bal_a bal_b in_a in_b fee = Inr u"
  shows "ps_reserve_a ps * ps_reserve_b ps * 100000000 \<le>
      (bal_a * 10000 - in_a * fee) * (bal_b * 10000 - in_b * fee)"
    "in_i128 (in_a * fee)" "in_i128 (in_b * fee)"
  using assms by (auto simp: check_k_def res_inv chk_inv not_less)

lemma swap_inner_cases:
  assumes "swap_inner T fv e a_out b_out to w = Inr (u, w')"
  obtains ps fs0 fs dyn w1 w2 in_a in_b pf_a pf_b w3 fs' where
    "0 < a_out \<or> 0 < b_out"
    "get_pair_state w = Some ps" "get_fee_state w = Some fs0"
    "check_outputs ps a_out b_out = Inr ()"
    "decay_stale_ema e fs0 = Inr fs" "compute_fee_bps fs = Inr dyn"
    "pay_out T e (ps_token_a ps) to a_out w = Inr w1"
    "pay_out T e (ps_token_b ps) to b_out w1 = Inr w2"
    "swap_input (tok_held T e (ps_token_a ps) w2) (ps_reserve_a ps) a_out = Inr in_a"
    "swap_input (tok_held T e (ps_token_b ps) w2) (ps_reserve_b ps) b_out = Inr in_b"
    "0 < in_a \<or> 0 < in_b"
    "check_k ps (tok_held T e (ps_token_a ps) w2) (tok_held T e (ps_token_b ps) w2) in_a in_b
       (effective_fee fv (e_self e) dyn) = Inr ()"
    "collect_protocol_fee T fv e ps in_a in_b (effective_fee fv (e_self e) dyn) w2
       = Inr ((pf_a, pf_b), w3)"
    "track_volatility e fs (ps_reserve_a ps) (ps_reserve_b ps)
       (tok_held T e (ps_token_a ps) w2 - pf_a) (tok_held T e (ps_token_b ps) w2 - pf_b) in_a in_b
       = Inr fs'"
    "w' = emit (PE_swap to (ps_token_a ps) (ps_token_b ps) in_a in_b a_out b_out
             (effective_fee fv (e_self e) dyn) to)
           (set_fee_state fs' (set_pair_state (ps\<lparr>
              ps_reserve_a := tok_held T e (ps_token_a ps) w2 - pf_a,
              ps_reserve_b := tok_held T e (ps_token_b ps) w2 - pf_b,
              ps_k_last := (tok_held T e (ps_token_a ps) w2 - pf_a)
                         * (tok_held T e (ps_token_b ps) w2 - pf_b),
              ps_timestamp_last := e_timestamp e\<rparr>) w3))"
proof -
  have reject: "0 < a_out \<or> 0 < b_out"
    using assms by (auto simp: swap_inner_def res_inv)
  show ?thesis
    using assms unfolding swap_inner_def Let_def bindR_Inr reject_Inr ok_or_Inr checked_sub_Some
      checked_mul_Some split_paired_Ex prod.case
    apply (elim exE conjE)
    apply (rule that [OF reject])
    apply assumption+
    apply (simp_all add: not_le)
    apply (erule sym)
    done
qed

section \<open>The protocol's cut\<close>

lemma protocol_cut_bounds:
  assumes "0 \<le> x" "0 \<le> fee" "0 \<le> bps" "bps \<le> 10000"
  shows "0 \<le> protocol_cut x fee bps" "protocol_cut x fee bps * 10000 \<le> x * fee"
proof -
  let ?p = "i128_saturate (i128_saturate (x * fee) * bps)"
  have 1: "0 \<le> i128_saturate (x * fee)" "i128_saturate (x * fee) \<le> x * fee"
    using assms by (simp_all add: saturate_nonneg saturate_le)
  then have 2: "0 \<le> ?p" "?p \<le> i128_saturate (x * fee) * bps"
    using assms by (simp_all add: saturate_nonneg saturate_le)
  have cut: "protocol_cut x fee bps = ?p div 100000000"
    using 2(1) by (simp add: protocol_cut_def i128_saturating_mul_def sdiv_nonneg)
  then show "0 \<le> protocol_cut x fee bps"
    using 2(1) by (simp add: pos_imp_zdiv_nonneg_iff)
  have "?p \<le> x * fee * 10000"
  proof -
    have "i128_saturate (x * fee) * bps \<le> (x * fee) * 10000"
      using 1 assms by (intro mult_mono) simp_all
    with 2(2) show ?thesis by linarith
  qed
  then show "protocol_cut x fee bps * 10000 \<le> x * fee"
    using floor_mult_le [of 100000000 ?p] cut by linarith
qed

section \<open>The constant product\<close>

lemma adjusted_pos:
  fixes bal :: int
  assumes "i = max (bal - left) 0" "1000 \<le> left" "0 \<le> fee" "fee \<le> 10000" "0 < i"
  shows "0 < bal * 10000 - i * fee"
proof -
  have "i * fee \<le> i * 10000"
    using assms by (intro mult_left_mono) simp_all
  moreover have "i = bal - left"
    using assms by simp
  ultimately show ?thesis
    using assms(2) by linarith
qed

lemma k_not_below:
  fixes bal_a bal_b :: int
  assumes "0 \<le> ra" "0 \<le> rb" "1000 \<le> left_a" "1000 \<le> left_b" "0 \<le> fee" "fee \<le> 10000"
    and "in_a = max (bal_a - left_a) 0" "in_b = max (bal_b - left_b) 0" "0 < in_a \<or> 0 < in_b"
    and "ra * rb * 100000000 \<le> (bal_a * 10000 - in_a * fee) * (bal_b * 10000 - in_b * fee)"
    and "pf_a * 10000 \<le> in_a * fee" "pf_b * 10000 \<le> in_b * fee"
  shows "ra * rb \<le> (bal_a - pf_a) * (bal_b - pf_b)" "0 \<le> bal_a - pf_a" "0 \<le> bal_b - pf_b"
proof -
  let ?A = "bal_a * 10000 - in_a * fee" and ?B = "bal_b * 10000 - in_b * fee"
  have "0 \<le> ra * rb * 100000000"
    using assms(1,2) by simp
  with assms(10) have prod: "0 \<le> ?A * ?B" by linarith
  have "0 < ?A \<or> 0 < ?B"
    using assms(9) adjusted_pos [OF assms(7,3,5,6)] adjusted_pos [OF assms(8,4,5,6)] by blast
  with prod have nonneg: "0 \<le> ?A" "0 \<le> ?B"
    by (auto simp: zero_le_mult_iff)
  have le: "?A \<le> (bal_a - pf_a) * 10000" "?B \<le> (bal_b - pf_b) * 10000"
    using assms(11,12) by (simp_all add: algebra_simps)
  then have "0 \<le> (bal_a - pf_a) * 10000" "0 \<le> (bal_b - pf_b) * 10000"
    using nonneg by linarith+
  then show "0 \<le> bal_a - pf_a" "0 \<le> bal_b - pf_b"
    by (simp_all add: zero_le_mult_iff)
  have "?A * ?B \<le> ((bal_a - pf_a) * 10000) * ((bal_b - pf_b) * 10000)"
    using le nonneg by (intro mult_mono) linarith+
  also have "\<dots> = (bal_a - pf_a) * (bal_b - pf_b) * 100000000"
    by (simp add: algebra_simps)
  finally have "ra * rb * 100000000 \<le> (bal_a - pf_a) * (bal_b - pf_b) * 100000000"
    using assms(10) by linarith
  then show "ra * rb \<le> (bal_a - pf_a) * (bal_b - pf_b)"
    by (simp only: mult_le_cancel_right_pos)
qed

section \<open>The fee in force\<close>

definition factory_view_typed :: "factory_view \<Rightarrow> bool" where
  "factory_view_typed fv \<longleftrightarrow>
     (\<forall>bps. fv_fee_bps fv = Some bps \<longrightarrow> in_u32 bps) \<and>
     (\<forall>p bps. fv_fee_override fv p = Some (Some bps) \<longrightarrow> in_u32 bps)"

context sep41 begin

lemma collect_protocol_fee_cases:
  assumes "collect_protocol_fee T fv e ps in_a in_b fee w = Inr ((pf_a, pf_b), w')"
    and "bps = (case fv_fee_bps fv of Some bps \<Rightarrow> min bps 10000 | None \<Rightarrow> 0)"
  obtains (none) "w' = w" "pf_a = 0" "pf_b = 0"
    | (paid) fee_to w1 w2 where "fv_fee_to fv = Some (Some fee_to)"
      "pf_a = (if bps > 0 \<and> in_a > 0 then protocol_cut in_a fee bps else 0)"
      "pf_b = (if bps > 0 \<and> in_b > 0 then protocol_cut in_b fee bps else 0)"
      "pay_out T e (ps_token_a ps) fee_to pf_a w = Inr w1"
      "pay_out T e (ps_token_b ps) fee_to pf_b w1 = Inr w2"
      "w_tok w' = w_tok w2" "w_lp w' = w_lp w2" "pair_core w' = pair_core w2"
proof (cases "\<exists>fee_to. fv_fee_to fv = Some (Some fee_to)")
  case False
  then have "(case fv_fee_to fv of Some (Some fee_to) \<Rightarrow> Some fee_to | _ \<Rightarrow> None) = None"
    by (auto split: option.splits)
  then show ?thesis
    using assms(1) none by (simp add: collect_protocol_fee_def)
next
  case True
  then obtain fee_to where to: "fv_fee_to fv = Some (Some fee_to)" by blast
  define fa where "fa = (if bps > 0 \<and> in_a > 0 then protocol_cut in_a fee bps else 0)"
  define fb where "fb = (if bps > 0 \<and> in_b > 0 then protocol_cut in_b fee bps else 0)"
  define finish where "finish w2 = (if fa > 0 \<or> fb > 0 then
            emit (PE_protocol_fee_collected fee_to fa fb fee)
              (set_pair (\<lambda>c. c\<lparr>
                 pc_protocol_fee_a := i128_saturating_add (pc_protocol_fee_a c) fa,
                 pc_protocol_fee_b := i128_saturating_add (pc_protocol_fee_b c) fb\<rparr>) w2)
          else w2)" for w2 :: "'tok world"
  have collect: "collect_protocol_fee T fv e ps in_a in_b fee w =
      bindR (pay_out T e (ps_token_a ps) fee_to fa w) (\<lambda>w1.
      bindR (pay_out T e (ps_token_b ps) fee_to fb w1) (\<lambda>w2. Inr ((fa, fb), finish w2)))"
    unfolding collect_protocol_fee_def assms(2) [symmetric] to Let_def fa_def finish_def fb_def by simp
  obtain w1 w2 where w: "pay_out T e (ps_token_a ps) fee_to pf_a w = Inr w1"
    "pay_out T e (ps_token_b ps) fee_to pf_b w1 = Inr w2" "pf_a = fa" "pf_b = fb" "w' = finish w2"
    using assms(1) unfolding collect by (auto simp: res_inv)
  from paid [OF to _ _ w(1,2)] w(3-5) show ?thesis
    by (simp add: fa_def fb_def finish_def pair_core_def)
qed

lemma collect_protocol_fee_Inr:
  assumes "collect_protocol_fee T fv e ps in_a in_b fee w = Inr ((pf_a, pf_b), w')"
    and "0 \<le> in_a" "0 \<le> in_b" "0 \<le> fee" "factory_view_typed fv"
    and "ps_token_a ps \<noteq> ps_token_b ps"
  shows "0 \<le> pf_a" "0 \<le> pf_b" "pf_a * 10000 \<le> in_a * fee" "pf_b * 10000 \<le> in_b * fee"
    "w_lp w' = w_lp w" "pair_core w' = pair_core w"
    "tok_held T e (ps_token_a ps) w - pf_a \<le> tok_held T e (ps_token_a ps) w'"
    "tok_held T e (ps_token_b ps) w - pf_b \<le> tok_held T e (ps_token_b ps) w'"
    "fv_fee_to fv \<noteq> Some (Some (e_self e)) \<Longrightarrow>
       tok_held T e (ps_token_a ps) w - pf_a = tok_held T e (ps_token_a ps) w' \<and>
       tok_held T e (ps_token_b ps) w - pf_b = tok_held T e (ps_token_b ps) w'"
proof -
  define bps where "bps = (case fv_fee_bps fv of Some bps \<Rightarrow> min bps 10000 | None \<Rightarrow> 0)"
  have bps: "0 \<le> bps" "bps \<le> 10000"
    using assms(5) by (auto simp: bps_def factory_view_typed_def in_u32_def split: option.splits)
  note cut = protocol_cut_bounds [OF _ assms(4) bps]
  show nonneg: "0 \<le> pf_a" "0 \<le> pf_b" and "pf_a * 10000 \<le> in_a * fee" "pf_b * 10000 \<le> in_b * fee"
    using cut assms(2-4) by (cases rule: collect_protocol_fee_cases [OF assms(1) bps_def]; simp)+
  have "w_lp w' = w_lp w \<and> pair_core w' = pair_core w \<and>
    (\<exists>fee_to. (fv_fee_to fv = Some (Some fee_to) \<or> pf_a = 0 \<and> pf_b = 0) \<and>
      (\<forall>tk. tok_held T e tk w' = tok_held T e tk w
        - (if tk = ps_token_a ps \<and> fee_to \<noteq> e_self e then pf_a else 0)
        - (if tk = ps_token_b ps \<and> fee_to \<noteq> e_self e then pf_b else 0)))"
  proof (cases rule: collect_protocol_fee_cases [OF assms(1) bps_def])
    case (2 fee_to w1 w2)
    have "tok_held T e tk w' = tok_held T e tk w2" for tk
      using 2(6) by (simp add: tok_held_def)
    then have "tok_held T e tk w' = tok_held T e tk w
        - (if tk = ps_token_a ps \<and> fee_to \<noteq> e_self e then pf_a else 0)
        - (if tk = ps_token_b ps \<and> fee_to \<noteq> e_self e then pf_b else 0)" for tk
      using pay_out_held [OF 2(4), of tk] pay_out_held [OF 2(5), of tk] nonneg by simp
    with 2(1) show ?thesis
      using pay_out_frame [OF 2(4)] pay_out_frame [OF 2(5)] 2(7,8) by auto
  qed simp
  then show "w_lp w' = w_lp w" "pair_core w' = pair_core w"
    "tok_held T e (ps_token_a ps) w - pf_a \<le> tok_held T e (ps_token_a ps) w'"
    "tok_held T e (ps_token_b ps) w - pf_b \<le> tok_held T e (ps_token_b ps) w'"
    "fv_fee_to fv \<noteq> Some (Some (e_self e)) \<Longrightarrow>
       tok_held T e (ps_token_a ps) w - pf_a = tok_held T e (ps_token_a ps) w' \<and>
       tok_held T e (ps_token_b ps) w - pf_b = tok_held T e (ps_token_b ps) w'"
    using assms(6) nonneg by auto
qed

end

text \<open>What a swap leaves, as the balances and the reserves of the pair.\<close>

definition swap_outcome ::
  "'tok token_ops \<Rightarrow> factory_view \<Rightarrow> env \<Rightarrow> pair_storage \<Rightarrow> 'tok world \<Rightarrow> 'tok world \<Rightarrow>
     bool" where
  "swap_outcome T fv e ps w w' \<longleftrightarrow>
     (\<exists>ps'. get_pair_state w' = Some ps' \<and>
       ps_token_a ps' = ps_token_a ps \<and> ps_token_b ps' = ps_token_b ps \<and>
       ps_factory ps' = ps_factory ps \<and> ps_lp_token ps' = ps_lp_token ps \<and>
       0 \<le> ps_reserve_a ps' \<and> 0 \<le> ps_reserve_b ps' \<and>
       ps_k_last ps' = ps_reserve_a ps' * ps_reserve_b ps' \<and>
       ps_reserve_a ps * ps_reserve_b ps \<le> ps_reserve_a ps' * ps_reserve_b ps' \<and>
       ps_reserve_a ps' \<le> tok_held T e (ps_token_a ps) w' \<and>
       ps_reserve_b ps' \<le> tok_held T e (ps_token_b ps) w' \<and>
       (fv_fee_to fv \<noteq> Some (Some (e_self e)) \<longrightarrow>
          ps_reserve_a ps' = tok_held T e (ps_token_a ps) w' \<and>
          ps_reserve_b ps' = tok_held T e (ps_token_b ps) w')) \<and>
     w_lp w' = w_lp w \<and> pc_pending (w_pair w') = pc_pending (w_pair w) \<and>
     pc_pending_total (w_pair w') = pc_pending_total (w_pair w) \<and>
     pc_locked (w_pair w') = pc_locked (w_pair w)"

lemma effective_fee_bounds:
  assumes "compute_fee_bps fs = Inr dyn" "0 \<le> min_fee_bps fs" "max_fee_bps fs \<le> 10000"
    and "factory_view_typed fv" "\<forall>bps. fv_fee_override fv p = Some (Some bps) \<longrightarrow> bps \<le> 10000"
  shows "0 \<le> effective_fee fv p dyn" "effective_fee fv p dyn \<le> 10000"
  using compute_fee_bps_bounds [OF assms(1)] assms
  by (auto simp: effective_fee_def factory_view_typed_def in_u32_def split: option.splits)

lemma decay_stale_ema_frame:
  assumes "decay_stale_ema e fs0 = Inr fs"
  shows "min_fee_bps fs = min_fee_bps fs0" "max_fee_bps fs = max_fee_bps fs0"
    "baseline_fee_bps fs = baseline_fee_bps fs0"
  using assms arg_cong [OF apply_time_decay_frame [of fs0 "e_sequence e"], of min_fee_bps]
    arg_cong [OF apply_time_decay_frame [of fs0 "e_sequence e"], of baseline_fee_bps]
    arg_cong [OF apply_time_decay_frame [of fs0 "e_sequence e"], of max_fee_bps]
  by (auto simp: decay_stale_ema_def res_inv split: if_splits)

lemma track_volatility_frame:
  assumes "track_volatility e fs ba bb ra rb ia ib = Inr fs'"
  shows "min_fee_bps fs' = min_fee_bps fs" "max_fee_bps fs' = max_fee_bps fs"
    "baseline_fee_bps fs' = baseline_fee_bps fs"
proof -
  have "fs' = fs \<or> (\<exists>d t r. update_volatility e fs d t r = Inr fs')"
    using assms
    by (auto simp: track_volatility_def Let_def res_inv split: if_splits sum.splits fault.splits)
  then show "min_fee_bps fs' = min_fee_bps fs" "max_fee_bps fs' = max_fee_bps fs"
    "baseline_fee_bps fs' = baseline_fee_bps fs"
    by (auto dest!: update_volatility_Inr)
qed

lemma swap_inner_fee_params:
  assumes "swap_inner T fv e a_out b_out to w = Inr (u, w')"
  shows "\<exists>fs fs'. get_fee_state w = Some fs \<and> get_fee_state w' = Some fs' \<and>
    baseline_fee_bps fs' = baseline_fee_bps fs \<and> min_fee_bps fs' = min_fee_bps fs \<and>
    max_fee_bps fs' = max_fee_bps fs"
  using assms
proof (cases rule: swap_inner_cases)
  case (1 ps fs0 fs dyn w1 w2 in_a in_b pf_a pf_b w3 fs')
  then show ?thesis
    using decay_stale_ema_frame [OF 1(5)] track_volatility_frame [OF 1(14)] by simp
qed

context sep41 begin

lemma swap_inner_outcome:
  assumes swap: "swap_inner T fv e a_out b_out to w = Inr (u, w')"
    and ps: "get_pair_state w = Some ps" "ps_token_a ps \<noteq> ps_token_b ps"
      "0 \<le> ps_reserve_a ps" "0 \<le> ps_reserve_b ps"
    and fs: "get_fee_state w = Some fs" "0 \<le> min_fee_bps fs" "max_fee_bps fs \<le> 10000"
    and fv: "factory_view_typed fv"
      "\<forall>bps. fv_fee_override fv (e_self e) = Some (Some bps) \<longrightarrow> bps \<le> 10000"
  shows "swap_outcome T fv e ps w w'"
  using swap
proof (cases rule: swap_inner_cases)
  case (1 ps0 fs0 fs1 dyn w1 w2 in_a in_b pf_a pf_b w3 fs')
  note eqs = 1(2,3) and outs = 1(4) and fee = 1(5,6) and pay = 1(7,8) and ins = 1(9-11) and k = 1(12)
    and col = 1(13) and w' = 1(15)
  have same: "ps0 = ps" "fs0 = fs"
    using eqs ps(1) fs(1) by simp_all
  have bounds: "0 \<le> effective_fee fv (e_self e) dyn" "effective_fee fv (e_self e) dyn \<le> 10000"
    using effective_fee_bounds [OF fee(2) _ _ fv] decay_stale_ema_frame [OF fee(1)] fs(2,3) same
    by simp_all
  have in_nonneg: "0 \<le> in_a" "0 \<le> in_b"
    using ins by (auto simp: swap_input_Inr)
  note collected = collect_protocol_fee_Inr [OF col in_nonneg bounds(1) fv(1)]
  have "ps_reserve_a ps * ps_reserve_b ps
      \<le> (tok_held T e (ps_token_a ps) w2 - pf_a) * (tok_held T e (ps_token_b ps) w2 - pf_b)"
    "0 \<le> tok_held T e (ps_token_a ps) w2 - pf_a" "0 \<le> tok_held T e (ps_token_b ps) w2 - pf_b"
    using k_not_below [of "ps_reserve_a ps" "ps_reserve_b ps" "ps_reserve_a ps - a_out"
        "ps_reserve_b ps - b_out" "effective_fee fv (e_self e) dyn" in_a
        "tok_held T e (ps_token_a ps) w2" in_b "tok_held T e (ps_token_b ps) w2" pf_a pf_b]
      ps outs ins check_k_Inr(1) [OF k] collected(3,4) bounds
    by (simp_all add: same check_outputs_Inr swap_input_Inr)
  note k = this
  have held: "tok_held T e tk w' = tok_held T e tk w3" for tk
    by (simp add: w')
  have "pair_core w2 = pair_core w" "w_lp w2 = w_lp w"
    using pay_out_frame [OF pay(1)] pay_out_frame [OF pay(2)] by simp_all
  then have "w_lp w' = w_lp w" "pc_pending (w_pair w') = pc_pending (w_pair w)"
    "pc_pending_total (w_pair w') = pc_pending_total (w_pair w)"
    "pc_locked (w_pair w') = pc_locked (w_pair w)"
    using collected(5,6) ps(2) by (simp_all add: w' same pair_core_def)
  moreover have "get_pair_state w' = Some (ps\<lparr>
              ps_reserve_a := tok_held T e (ps_token_a ps) w2 - pf_a,
              ps_reserve_b := tok_held T e (ps_token_b ps) w2 - pf_b,
              ps_k_last := (tok_held T e (ps_token_a ps) w2 - pf_a)
                         * (tok_held T e (ps_token_b ps) w2 - pf_b),
              ps_timestamp_last := e_timestamp e\<rparr>)"
    by (simp add: w' same)
  ultimately show ?thesis
    using k collected(7,8,9) ps(2) unfolding swap_outcome_def held by (simp add: same)
qed

end

end
