(* ===== verification/Pair_Liquidity.thy ===== *)
theory Pair_Liquidity
  imports Pair_Swap
begin

text \<open>
  What the liquidity operations of the pair do when they succeed: \<open>mint\<close>, \<open>burn\<close>,
  \<open>burn_single_side\<close>, \<open>deposit_lp\<close>, \<open>sync\<close>, \<open>mint_with_one_token\<close> and \<open>flash_loan\<close>. Each
  operation has one lemma that lists its checks and its effect on reserves, LP supply, LP
  balances, staged LP and pool tokens.
\<close>

abbreviation (input) locked_world :: "'tok world \<Rightarrow> 'tok world" where
  "locked_world w \<equiv> w\<lparr>w_pair := (w_pair w)\<lparr>pc_locked := True\<rparr>\<rparr>"

section \<open>Sync and staging\<close>

lemma pair_sync_Inr:
  assumes "pair_sync T e w = Inr (u, w')"
  obtains ps where "\<not> pc_locked (w_pair w)" "get_pair_state w = Some ps"
    "w' = release_lock (emit (PE_sync (tok_held T e (ps_token_a ps) w) (tok_held T e (ps_token_b ps) w))
       (set_pair_state (ps\<lparr>ps_reserve_a := tok_held T e (ps_token_a ps) w,
          ps_reserve_b := tok_held T e (ps_token_b ps) w, ps_timestamp_last := e_timestamp e,
          ps_k_last := tok_held T e (ps_token_a ps) w * tok_held T e (ps_token_b ps) w\<rparr>)
       (locked_world w)))"
  using assms unfolding pair_sync_def with_guard_Inr
  by (auto simp: Let_def res_inv chk_inv)

lemma pair_deposit_lp_Inr:
  assumes "pair_deposit_lp e from x w = Inr (u, w')"
  obtains ps l where "e_auth e from" "\<not> pc_locked (w_pair w)" "get_pair_state w = Some ps"
    "0 < x" "from \<noteq> e_self e"
    "lp_transfer (nested_env e (ps_lp_token ps)) from (e_self e) x (w_lp w) = Inr l"
    "w' = release_lock (set_pending_lp_total (get_pending_lp_total w + x)
       (set_pending_lp from (get_pending_lp w from + x) ((locked_world w)\<lparr>w_lp := l\<rparr>)))"
  using assms unfolding pair_deposit_lp_def require_Inr with_guard_Inr
  by (auto simp: Let_def res_inv chk_inv not_le)

section \<open>Mint\<close>

lemma mint_liquidity_Inr:
  assumes "mint_liquidity e ps x y w = Inr (l, w')"
  shows "w_pair w' = w_pair w \<and> w_tok w' = w_tok w \<and> w_events w' = w_events w \<and>
    (if lp_total_supply (w_lp w) = 0 then
       initial_liquidity x y = Inr l \<and>
       lp_mint (nested_env e (ps_lp_token ps)) (e_self e) MINIMUM_LIQUIDITY (w_lp w) = Inr (w_lp w')
     else
       subsequent_liquidity x y (ps_reserve_a ps) (ps_reserve_b ps) (lp_total_supply (w_lp w)) = Inr l
       \<and> w_lp w' = w_lp w)"
  using assms by (auto simp: mint_liquidity_def Let_def res_inv split: if_splits)

text \<open>The successful mint, with the amounts it found and the liquidity it issued.\<close>

lemma pair_mint_Inr:
  assumes "pair_mint T e to w = Inr (l, w')"
  obtains ps l1 l2 where "e_auth e to" "\<not> pc_locked (w_pair w)" "\<not> pc_frozen (w_pair w)"
    "get_pair_state w = Some ps"
    "1000 \<le> tok_held T e (ps_token_a ps) w - ps_reserve_a ps"
    "1000 \<le> tok_held T e (ps_token_b ps) w - ps_reserve_b ps"
    "1000 \<le> l"
    "if lp_total_supply (w_lp w) = 0 then
       initial_liquidity (tok_held T e (ps_token_a ps) w - ps_reserve_a ps)
         (tok_held T e (ps_token_b ps) w - ps_reserve_b ps) = Inr l \<and>
       lp_mint (nested_env e (ps_lp_token ps)) (e_self e) 1000 (w_lp w) = Inr l1
     else
       subsequent_liquidity (tok_held T e (ps_token_a ps) w - ps_reserve_a ps)
         (tok_held T e (ps_token_b ps) w - ps_reserve_b ps)
         (ps_reserve_a ps) (ps_reserve_b ps) (lp_total_supply (w_lp w)) = Inr l \<and> l1 = w_lp w"
    "lp_mint (nested_env e (ps_lp_token ps)) to l l1 = Inr l2"
    "w_lp w' = l2" "w_tok w' = w_tok w"
    "pair_core w' = (Some (ps\<lparr>ps_reserve_a := tok_held T e (ps_token_a ps) w,
        ps_reserve_b := tok_held T e (ps_token_b ps) w,
        ps_k_last := tok_held T e (ps_token_a ps) w * tok_held T e (ps_token_b ps) w,
        ps_timestamp_last := e_timestamp e\<rparr>), pc_pending (w_pair w),
        pc_pending_total (w_pair w), False)"
    "get_fee_state w' = get_fee_state w"
proof -
  let ?w = "locked_world w"
  obtain ps w1 l2 where a: "e_auth e to" "\<not> pc_locked (w_pair w)" "\<not> pc_frozen (w_pair w)"
    "get_pair_state w = Some ps"
    "1000 \<le> tok_held T e (ps_token_a ps) w - ps_reserve_a ps"
    "1000 \<le> tok_held T e (ps_token_b ps) w - ps_reserve_b ps"
    "1000 \<le> l"
    and liq: "mint_liquidity e ps (tok_held T e (ps_token_a ps) w - ps_reserve_a ps)
      (tok_held T e (ps_token_b ps) w - ps_reserve_b ps) ?w = Inr (l, w1)"
    and l2: "lp_mint (nested_env e (ps_lp_token ps)) to l (w_lp w1) = Inr l2"
    and w': "w' = release_lock (emit (PE_mint to (tok_held T e (ps_token_a ps) w - ps_reserve_a ps)
        (tok_held T e (ps_token_b ps) w - ps_reserve_b ps))
      (set_pair_state (ps\<lparr>ps_reserve_a := tok_held T e (ps_token_a ps) w,
        ps_reserve_b := tok_held T e (ps_token_b ps) w,
        ps_k_last := tok_held T e (ps_token_a ps) w * tok_held T e (ps_token_b ps) w,
        ps_timestamp_last := e_timestamp e\<rparr>) (w1\<lparr>w_lp := l2\<rparr>)))"
    using assms unfolding pair_mint_def require_Inr with_guard_Inr Let_def policy_defs
    by (auto simp: res_inv chk_inv not_less)
  note liq' = mint_liquidity_Inr [OF liq]
  show ?thesis
  proof (rule that [OF a, of "w_lp w1" l2])
    show "if lp_total_supply (w_lp w) = 0 then
       initial_liquidity (tok_held T e (ps_token_a ps) w - ps_reserve_a ps)
         (tok_held T e (ps_token_b ps) w - ps_reserve_b ps) = Inr l \<and>
       lp_mint (nested_env e (ps_lp_token ps)) (e_self e) 1000 (w_lp w) = Inr (w_lp w1)
     else
       subsequent_liquidity (tok_held T e (ps_token_a ps) w - ps_reserve_a ps)
         (tok_held T e (ps_token_b ps) w - ps_reserve_b ps)
         (ps_reserve_a ps) (ps_reserve_b ps) (lp_total_supply (w_lp w)) = Inr l \<and> w_lp w1 = w_lp w"
      using liq' by (auto simp: MINIMUM_LIQUIDITY_def split: if_splits)
  qed (use l2 w' liq' in \<open>simp_all add: pair_core_def get_fee_state_def\<close>)
qed

section \<open>Burn\<close>

lemma burn_lp_amount_Inr:
  "burn_lp_amount h p t = Inr x \<Longrightarrow> x = (if p > 0 then p else h - 1000 - t)"
  by (auto simp: burn_lp_amount_def res_inv chk_inv bind_eq_Some_conv MINIMUM_LIQUIDITY_def
      split: if_splits)

text \<open>The bookkeeping of staged LP in \<open>burn\<close>.\<close>

definition clear_pending :: "address \<Rightarrow> 'tok world \<Rightarrow> 'tok world" where
  "clear_pending to w =
     (if get_pending_lp w to > 0
      then set_pending_lp_total (get_pending_lp_total w - get_pending_lp w to) (set_pending_lp to 0 w)
      else w)"

lemma clear_pending_simps [simp]:
  "w_lp (clear_pending to w) = w_lp w" "w_tok (clear_pending to w) = w_tok w"
  "get_pair_state (clear_pending to w) = get_pair_state w"
  "pc_locked (w_pair (clear_pending to w)) = pc_locked (w_pair w)"
  by (auto simp: clear_pending_def)

lemma pair_burn_Inr:
  assumes "pair_burn T e to w = Inr ((a, b), w')"
  obtains ps burn_lp l w3 w4 where "e_auth e to" "\<not> pc_locked (w_pair w)"
    "get_pair_state w = Some ps" "lp_total_supply (w_lp w) - 1000 \<noteq> 0"
    "burn_lp = (if get_pending_lp w to > 0 then get_pending_lp w to
       else lp_held e w - 1000 - get_pending_lp_total w)" "0 < burn_lp"
    "burn_amounts burn_lp (ps_reserve_a ps) (ps_reserve_b ps) (lp_total_supply (w_lp w) - 1000)
       = Inr (a, b)"
    "1000 \<le> a" "1000 \<le> b"
    "ps_reserve_a ps - a \<le> 0 \<or> 1000 \<le> ps_reserve_a ps - a"
    "ps_reserve_b ps - b \<le> 0 \<or> 1000 \<le> ps_reserve_b ps - b"
    "lp_burn (nested_env e (ps_lp_token ps)) (e_self e) burn_lp (w_lp w) = Inr l"
    "tok_call T e (ps_token_a ps) (e_self e) to a (clear_pending to ((locked_world w)\<lparr>w_lp := l\<rparr>)) = Inr w3"
    "tok_call T e (ps_token_b ps) (e_self e) to b w3 = Inr w4"
    "w' = release_lock (emit (PE_burn to a b to) (set_pair_state (ps\<lparr>
        ps_reserve_a := ps_reserve_a ps - a, ps_reserve_b := ps_reserve_b ps - b,
        ps_k_last := (ps_reserve_a ps - a) * (ps_reserve_b ps - b),
        ps_timestamp_last := e_timestamp e\<rparr>) w4))"
proof -
  show ?thesis
    using assms unfolding pair_burn_def require_Inr with_guard_Inr Let_def policy_defs MINIMUM_LIQUIDITY_def
      bindR_Inr reject_Inr ok_or_Inr checked_sub_Some checked_mul_Some split_paired_Ex prod.case
      lp_client_burn_Inr
    apply (elim exE conjE)
    apply (simp add: not_less not_le)
    subgoal premises prems for w2 ps burnable burn_lp after_a after_b v l v2 w3 w4 k
    proof -
      have "v2 = clear_pending to v"
        using prems by (auto simp: clear_pending_def res_inv split: if_splits)
      then show thesis
        using prems burn_lp_amount_Inr
        by (intro that [of ps burn_lp l w3 w4]) (auto simp: lp_held_def)
    qed
    done
qed

section \<open>Single-sided burn\<close>

lemma pair_burn_single_side_Inr:
  assumes "pair_burn_single_side T e to x tk m w = Inr (y, w')"
  obtains ps fs l w2 share_p share_u swap_out fee r_p r_u where
    "e_auth e to" "\<not> pc_locked (w_pair w)" "\<not> pc_frozen (w_pair w)"
    "get_pair_state w = Some ps" "get_fee_state w = Some fs"
    "0 < x" "tk = ps_token_a ps \<or> tk = ps_token_b ps"
    "lp_burn (nested_env e (ps_lp_token ps)) to x (w_lp w) = Inr l"
    "(r_p, r_u) = (if tk = ps_token_a ps then (ps_reserve_a ps, ps_reserve_b ps)
       else (ps_reserve_b ps, ps_reserve_a ps))"
    "mul_then_div x r_p (lp_total_supply (w_lp w) - 1000) = Inr share_p"
    "mul_then_div x r_u (lp_total_supply (w_lp w) - 1000) = Inr share_u"
    "0 < share_p" "0 < share_u"
    "compute_fee_bps fs = Inr fee"
    "single_side_out share_u (r_u - share_u) (r_p - share_p) fee = Inr swap_out"
    "y = share_p + swap_out" "m \<le> y"
    "single_side_k (r_p - share_p) (r_u - share_u) (r_p - y) r_u share_u fee = Inr ()"
    "tok_call T e tk (e_self e) to y ((locked_world w)\<lparr>w_lp := l\<rparr>) = Inr w2"
    "w' = release_lock (emit (PE_burn_single_side to x tk y) (set_pair_state (ps\<lparr>
        ps_reserve_a := (if tk = ps_token_a ps then r_p - y else r_u),
        ps_reserve_b := (if tk = ps_token_a ps then r_u else r_p - y),
        ps_k_last := (r_p - y) * r_u,
        ps_timestamp_last := e_timestamp e\<rparr>) w2))"
  using assms unfolding pair_burn_single_side_def require_Inr with_guard_Inr Let_def policy_defs
    MINIMUM_LIQUIDITY_def bindR_Inr reject_Inr ok_or_Inr checked_sub_Some checked_mul_Some
    checked_add_Some split_paired_Ex prod.case lp_client_burn_Inr
  apply (elim exE conjE)
  apply (simp add: not_less not_le)
  subgoal premises prems for ps fs v l burnable share_a share_b p_post u_post fee swap_out y' p_fin w2 k
  proof (cases "tk = ps_token_a ps")
    case True
    then show thesis
      using prems(2-)
      by (intro prems(1) [of ps fs l "ps_reserve_a ps" "ps_reserve_b ps" share_a share_b fee swap_out w2])
        (simp_all add: ensure_Inr diff_diff_eq)
  next
    case False
    then show thesis
      using prems(2-)
      by (intro prems(1) [of ps fs l "ps_reserve_b ps" "ps_reserve_a ps" share_b share_a fee swap_out w2])
        (simp_all add: ensure_Inr diff_diff_eq mult.commute)
  qed
  done

section \<open>Single-sided mint\<close>

lemma pair_mint_with_one_token_Inr:
  assumes "pair_mint_with_one_token T fv e to tk x m w = Inr (y, w')"
  obtains ps fs fee swap_in w1 swap_out w2 post l dep_a dep_b r_in r_out where
    "e_auth e to" "\<not> pc_locked (w_pair w)" "\<not> pc_frozen (w_pair w)"
    "get_pair_state w = Some ps" "get_fee_state w = Some fs"
    "tk = ps_token_a ps \<or> tk = ps_token_b ps"
    "(r_in, r_out) = (if tk = ps_token_a ps then (ps_reserve_a ps, ps_reserve_b ps)
       else (ps_reserve_b ps, ps_reserve_a ps))" "0 < r_in" "0 < r_out"
    "compute_fee_bps fs = Inr fee"
    "compute_swap_in_for_single_side r_in x fee = Inr swap_in" "0 < swap_in" "swap_in < x"
    "tok_call T e tk to (e_self e) x (locked_world w) = Inr w1"
    "pair_get_amount_out swap_in r_in r_out fee = Inr swap_out" "0 < swap_out"
    "(if tk = ps_token_a ps then swap_inner T fv e 0 swap_out (e_self e) w1
      else swap_inner T fv e swap_out 0 (e_self e) w1) = Inr ((), w2)"
    "get_pair_state w2 = Some post"
    "(dep_a, dep_b) = (if tk = ps_token_a ps then (x - swap_in, swap_out) else (swap_out, x - swap_in))"
    "subsequent_liquidity dep_a dep_b (ps_reserve_a post) (ps_reserve_b post) (lp_total_supply (w_lp w2))
       = Inr y" "1000 \<le> y" "m \<le> y"
    "lp_mint (nested_env e (ps_lp_token post)) to y (w_lp w2) = Inr l"
    "w' = release_lock (emit (PE_mint_single_side to tk x swap_in y) (set_pair_state (post\<lparr>
        ps_reserve_a := ps_reserve_a post + dep_a, ps_reserve_b := ps_reserve_b post + dep_b,
        ps_k_last := (ps_reserve_a post + dep_a) * (ps_reserve_b post + dep_b),
        ps_timestamp_last := e_timestamp e\<rparr>) (w2\<lparr>w_lp := l\<rparr>)))"
  using assms unfolding pair_mint_with_one_token_def require_Inr with_guard_Inr Let_def policy_defs
    bindR_Inr reject_Inr ok_or_Inr checked_sub_Some checked_mul_Some checked_add_Some
    split_paired_Ex prod.case lp_client_mint_Inr
  apply (elim exE conjE)
  apply (simp add: not_less not_le)
  subgoal premises prems for w' ps fs fee swap_in w1 swap_out d w2 post v l new_a new_b k
  proof (cases "tk = ps_token_a ps")
    case True
    then show thesis
      using prems(2-)
      by (intro prems(1) [of ps fs "ps_reserve_a ps" "ps_reserve_b ps" fee swap_in w1 swap_out w2 post
            "x - swap_in" swap_out l]) (auto simp: ensure_Inr)
  next
    case False
    then show thesis
      using prems(2-)
      by (intro prems(1) [of ps fs "ps_reserve_b ps" "ps_reserve_a ps" fee swap_in w1 swap_out w2 post
            swap_out "x - swap_in" l]) (auto simp: ensure_Inr)
  qed
  done

section \<open>Flash loans\<close>

lemma compute_flash_fee_Inr:
  assumes "compute_flash_fee x bps = Inr fee" "0 < x" "0 \<le> bps"
  shows "bps \<le> 10000" "fee = (if bps = 0 then 0 else max 1 (x * max bps 5 div 10000))"
  using assms
  by (auto simp: compute_flash_fee_def res_inv chk_inv FLASH_FEE_FLOOR_BPS_def sdiv_nonneg max.commute
      split: if_splits)

lemma check_repaid_Inr [res_inv]:
  "check_repaid x r fee bal = Inr u \<longleftrightarrow> (0 < x \<longrightarrow> r + fee \<le> bal \<and> in_i128 (r + fee))"
  by (auto simp: check_repaid_def res_inv chk_inv not_less)

lemma pair_flash_loan_Inr:
  assumes "pair_flash_loan T recv e receiver x y data w = Inr (u, w')" "x \<noteq> 0 \<or> y \<noteq> 0"
  obtains ps fee_a fee_b w1 w2 w3 bps where
    "\<not> pc_frozen (w_pair w)" "\<not> pc_locked (w_pair w)" "get_pair_state w = Some ps"
    "0 \<le> x" "0 \<le> y" "x \<le> ps_reserve_a ps" "y \<le> ps_reserve_b ps"
    "bps = (case get_fee_state w of None \<Rightarrow> 5 | Some fs \<Rightarrow> baseline_fee_bps fs)"
    "if 0 < x then compute_flash_fee x bps = Inr fee_a else fee_a = 0"
    "if 0 < y then compute_flash_fee y bps = Inr fee_b else fee_b = 0"
    "pay_out T e (ps_token_a ps) receiver x (locked_world w) = Inr w1"
    "pay_out T e (ps_token_b ps) receiver y w1 = Inr w2"
    "recv (nested_env e receiver)
       \<lparr>fa_initiator = e_self e, fa_token_a = ps_token_a ps, fa_token_b = ps_token_b ps,
        fa_amount_a = x, fa_amount_b = y, fa_fee_a = fee_a, fa_fee_b = fee_b, fa_data = data\<rparr> w2
       = Some w3"
    "0 < x \<longrightarrow> ps_reserve_a ps + fee_a \<le> tok_held T e (ps_token_a ps) w3"
    "0 < y \<longrightarrow> ps_reserve_b ps + fee_b \<le> tok_held T e (ps_token_b ps) w3"
    "ps_reserve_a ps * ps_reserve_b ps
       \<le> tok_held T e (ps_token_a ps) w3 * tok_held T e (ps_token_b ps) w3"
    "w' = release_lock (emit (PE_flash_loan receiver x y fee_a fee_b bps)
       (set_pair_state (ps\<lparr>ps_reserve_a := tok_held T e (ps_token_a ps) w3,
          ps_reserve_b := tok_held T e (ps_token_b ps) w3,
          ps_k_last := tok_held T e (ps_token_a ps) w3 * tok_held T e (ps_token_b ps) w3\<rparr>) w3))"
proof -
  have nz: "(x = 0 \<and> y = 0) = False"
    using assms(2) by blast
  show ?thesis
    using assms(1) unfolding pair_flash_loan_def execute_flash_loan_def nz if_False with_guard_Inr
      Let_def bindR_Inr reject_Inr ok_or_Inr checked_mul_Some split_paired_Ex prod.case
      FLASH_FEE_FLOOR_BPS_def
    apply (elim exE conjE)
    apply (simp add: not_less not_le)
    subgoal premises prems for ps pre_k w' fee_a fee_b w1 w2 w3 k
      using prems
      by (intro that [of ps _ fee_a fee_b w1 w2 w3])
        (auto simp: ensure_Inr check_repaid_Inr)
    done
qed

end
