(* ===== verification/Pair_Safety.thy ===== *)
theory Pair_Safety
  imports Pair_Liquidity
begin

text \<open>
  The pair as a state machine: its entry points, interleaved with what everybody else can do
  to its LP token and to the pool tokens. The invariant \<open>pair_wf\<close> holds in every reachable
  state; with it the reserves are backed by tokens, staged LP is accounted for, and the locked
  seed is never redeemed.
\<close>

section \<open>The LP token under the pair's administration\<close>

text \<open>What holds of the LP token as long as only the pair administers it.\<close>

definition lp_base :: "address \<Rightarrow> lp_state \<Rightarrow> bool" where
  "lp_base self l \<longleftrightarrow>
     lp_admin l = Some self \<and> lp_supply_ok l \<and> (\<forall>a. 0 \<le> lp_balance l a) \<and>
     (\<forall>sp. lp_allowances l (self, sp) = None)"

text \<open>
  Before the first deposit there is no LP at all; afterwards the pair holds the seed and
  everything that is staged.
\<close>

definition lp_seeded :: "address \<Rightarrow> lp_state \<Rightarrow> int \<Rightarrow> bool" where
  "lp_seeded self l staged \<longleftrightarrow>
     lp_total_supply l = 0 \<and> staged = 0 \<or> 1000 + staged \<le> lp_balance l self"

lemma lp_base_mint:
  assumes "lp_mint e to x l = Inr l'" "lp_base self l" "0 \<le> x"
  shows "lp_base self l'"
  using assms lp_mint_Inr [OF assms(1)] by (auto simp: lp_base_def)

lemma lp_base_burn:
  assumes "lp_burn e f x l = Inr l'" "lp_base self l"
  shows "lp_base self l'" "x \<le> lp_balance l f"
    "lp_balance l' = (lp_balance l)(f := lp_balance l f - x)"
    "lp_total_supply l' = lp_total_supply l - x"
  using assms lp_burn_balance_Inr [of f x l l'] by (auto simp: lp_base_def lp_burn_Inr)

lemma lp_base_transfer:
  assumes "lp_transfer e f t x l = Inr l'" "lp_base self l"
  shows "lp_base self l'" "0 \<le> x" "x \<le> lp_balance l f" "lp_total_supply l' = lp_total_supply l"
    "lp_balance l' = moved f t x (lp_balance l)"
  using assms lp_transfer_internal_Inr [of f t x l l'] lp_transfer_internal_supply_ok [of f t x l l']
  by (auto simp: lp_base_def lp_transfer_Inr moved_apply)

lemma lp_base_le_supply:
  assumes "lp_base self l"
  shows "lp_balance l a \<le> lp_total_supply l" "0 \<le> lp_balance l a"
    "a \<noteq> b \<Longrightarrow> lp_balance l a + lp_balance l b \<le> lp_total_supply l"
  using assms lp_balance_le_supply [of l] by (simp_all add: lp_base_def)

text \<open>
  Calls by others. Assumed of them: they do not burn negative amounts (\<open>lp_burn_negative_mints\<close>
  shows what happens otherwise), and nobody holds a signature of the pair, which is a contract.
\<close>

fun lp_outside_call :: "address \<Rightarrow> lp_call \<Rightarrow> bool" where
  "lp_outside_call self (LC_burn f x) = (0 \<le> x)"
| "lp_outside_call self (LC_burn_from sp f x) = (0 \<le> x)"
| "lp_outside_call self (LC_permit ow sp x d sg) = (ow \<noteq> self)"
| "lp_outside_call self _ = True"

definition lp_outside_ok :: "address \<Rightarrow> lp_state \<Rightarrow> lp_state \<Rightarrow> bool" where
  "lp_outside_ok self l l' \<longleftrightarrow>
     lp_base self l' \<and> lp_balance l self \<le> lp_balance l' self \<and>
     lp_total_supply l' \<le> lp_total_supply l"

lemma lp_outside_ok_seeded:
  assumes "lp_outside_ok self l l'" "lp_seeded self l s"
  shows "lp_seeded self l' s"
  using assms lp_base_le_supply(1,2) [of self l' self] by (auto simp: lp_outside_ok_def lp_seeded_def)

lemma lp_base_frame:
  "lp_balances l' = lp_balances l \<Longrightarrow> lp_total_supply l' = lp_total_supply l \<Longrightarrow>
   lp_admin l' = lp_admin l \<Longrightarrow> (\<forall>sp. lp_allowances l' (self, sp) = lp_allowances l (self, sp)) \<Longrightarrow>
   lp_base self l \<Longrightarrow> lp_outside_ok self l l'"
  by (simp add: lp_outside_ok_def lp_base_def lp_supply_ok_def lp_balance_sum_map lp_balance_map)

lemma lp_outside_transfer_internal:
  assumes "lp_transfer_internal f t x l = Inr l'" "lp_base self l" "f \<noteq> self"
  shows "lp_outside_ok self l l'"
  using assms lp_transfer_internal_Inr [OF assms(1)] lp_transfer_internal_supply_ok [OF assms(1)]
  by (auto simp: lp_outside_ok_def lp_base_def moved_apply)

lemma lp_outside_burn_balance:
  assumes "lp_burn_balance f x l = Inr l'" "lp_base self l" "f \<noteq> self" "0 \<le> x"
  shows "lp_outside_ok self l l'"
proof -
  have "lp_total_supply l = 0 \<Longrightarrow> x = 0"
    using lp_burn_balance_Inr [OF assms(1)] lp_base_le_supply(1) [OF assms(2), of f] assms(4) by simp
  then show ?thesis
    using assms lp_burn_balance_Inr [OF assms(1)] by (auto simp: lp_outside_ok_def lp_base_def)
qed

lemma lp_outside_spend:
  assumes "lp_spend_allowance e f sp x l = Inr l'" "lp_base self l"
  shows "lp_base self l'" "f \<noteq> self" "lp_balance l' = lp_balance l" "lp_total_supply l' = lp_total_supply l"
  using assms lp_spend_allowance_Inr [OF assms(1)]
  by (auto simp: lp_base_def lp_supply_ok_def lp_balance_sum_map lp_balance_map)

lemma lp_outside_step:
  assumes "lp_step c e op l = Inr l'" "lp_outside_call self op" "\<not> e_auth e self" "lp_base self l"
  shows "lp_outside_ok self l l'"
proof (cases op)
  case (LC_transfer_from sp f t x)
  then obtain l1 where l1: "lp_transfer_internal f t x l1 = Inr l'"
    "sp \<noteq> f \<Longrightarrow> lp_spend_allowance e f sp x l = Inr l1" "sp = f \<Longrightarrow> l1 = l" "e_auth e sp"
    using assms(1) by (auto simp: lp_transfer_from_def res_inv split: if_splits)
  show ?thesis
  proof (cases "sp = f")
    case True
    then show ?thesis
      using l1 assms(3,4) lp_outside_transfer_internal [of f t x l l'] by auto
  next
    case False
    then show ?thesis
      using l1(1) lp_outside_spend [OF l1(2) assms(4)] lp_outside_transfer_internal [of f t x l1 l']
      by (simp add: lp_outside_ok_def)
  qed
next
  case (LC_burn_from sp f x)
  then obtain l1 where l1: "lp_burn_balance f x l1 = Inr l'" "lp_spend_allowance e f sp x l = Inr l1"
    using assms(1) by (auto simp: lp_burn_from_def res_inv)
  then show ?thesis
    using lp_outside_spend [OF l1(2) assms(4)] lp_outside_burn_balance [OF l1(1)] assms(2) LC_burn_from
    by (simp add: lp_outside_ok_def)
next
  case (LC_mint t x)
  then show ?thesis
    using assms lp_mint_Inr [of e t x l l'] by (auto simp: lp_base_def)
next
  case (LC_burn f x)
  then show ?thesis
    using assms lp_outside_burn_balance [of f x l l' self] by (auto simp: lp_burn_Inr)
next
  case (LC_transfer f t x)
  then show ?thesis
    using assms lp_outside_transfer_internal [of f t x l l' self] by (auto simp: lp_transfer_Inr)
next
  case (LC_initialize a d n y)
  then show ?thesis
    using assms by (auto simp: lp_initialize_Inr lp_base_def)
next
  case (LC_approve f sp x d)
  then show ?thesis
    using assms by (auto simp: lp_approve_def res_inv Let_def intro!: lp_base_frame)
next
  case (LC_permit ow sp x d sg)
  then show ?thesis
    using assms by (auto simp: lp_permit_def res_inv Let_def intro!: lp_base_frame)
qed (use assms in \<open>auto simp: lp_base_def lp_admin_transfer_def lp_set_admin_def lp_pause_def
      lp_unpause_def res_inv\<close>)

section \<open>The state machine\<close>

datatype pair_call =
  PC_mint address
| PC_mint_with_one_token address address int int
| PC_deposit_lp address int
| PC_burn address
| PC_burn_single_side address int address int
| PC_swap int int address
| PC_flash_loan address int int "8 word list"
| PC_sync
| PC_set_stale_threshold int
| PC_set_lp_token_paused bool
| PC_set_frozen bool

text \<open>One invocation, keeping only the world it leaves.\<close>

definition leaves :: "(pair_error, 'a \<times> 'tok world) res \<Rightarrow> (pair_error, 'tok world) res" where
  "leaves m = bindR m (\<lambda>(_, w). Inr w)"

lemma leaves_Inr [simp]: "leaves m = Inr w \<longleftrightarrow> (\<exists>x. m = Inr (x, w))"
  by (auto simp: leaves_def res_inv)

fun pair_step ::
  "'tok token_ops \<Rightarrow> factory_view \<Rightarrow> 'tok receiver \<Rightarrow> env \<Rightarrow> pair_call \<Rightarrow> 'tok world \<Rightarrow>
     (pair_error, 'tok world) res" where
  "pair_step T fv recv e (PC_mint to) w = leaves (pair_mint T e to w)"
| "pair_step T fv recv e (PC_mint_with_one_token to tk x m) w =
     leaves (pair_mint_with_one_token T fv e to tk x m w)"
| "pair_step T fv recv e (PC_deposit_lp from x) w = leaves (pair_deposit_lp e from x w)"
| "pair_step T fv recv e (PC_burn to) w = leaves (pair_burn T e to w)"
| "pair_step T fv recv e (PC_burn_single_side to x tk m) w =
     leaves (pair_burn_single_side T e to x tk m w)"
| "pair_step T fv recv e (PC_swap a b to) w = leaves (pair_swap T fv e a b to w)"
| "pair_step T fv recv e (PC_flash_loan r a b d) w = leaves (pair_flash_loan T recv e r a b d w)"
| "pair_step T fv recv e PC_sync w = leaves (pair_sync T e w)"
| "pair_step T fv recv e (PC_set_stale_threshold n) w = leaves (pair_set_stale_threshold e n w)"
| "pair_step T fv recv e (PC_set_lp_token_paused p) w = leaves (pair_set_lp_token_paused e p w)"
| "pair_step T fv recv e (PC_set_frozen f) w = leaves (pair_set_frozen e f w)"

text \<open>The calls that take the reentrancy lock whatever their arguments.\<close>

fun takes_lock :: "pair_call \<Rightarrow> bool" where
  "takes_lock (PC_mint to) = True"
| "takes_lock (PC_mint_with_one_token to tk x m) = True"
| "takes_lock (PC_deposit_lp from x) = True"
| "takes_lock (PC_burn to) = True"
| "takes_lock (PC_burn_single_side to x tk m) = True"
| "takes_lock (PC_swap a b to) = True"
| "takes_lock PC_sync = True"
| "takes_lock _ = False"

definition fee_params :: "'tok world \<Rightarrow> (int \<times> int \<times> int) option" where
  "fee_params w =
     map_option (\<lambda>fs. (baseline_fee_bps fs, min_fee_bps fs, max_fee_bps fs)) (get_fee_state w)"

text \<open>Changes that leave the pair's accounting alone and take nothing from it.\<close>

definition harmless :: "'tok token_ops \<Rightarrow> address \<Rightarrow> 'tok world \<Rightarrow> 'tok world \<Rightarrow> bool" where
  "harmless T self w w' \<longleftrightarrow>
     pair_core w' = pair_core w \<and> fee_params w' = fee_params w \<and>
     (lp_base self (w_lp w) \<longrightarrow> lp_outside_ok self (w_lp w) (w_lp w')) \<and>
     (\<forall>tk. tok_balance T tk self (w_tok w) \<le> tok_balance T tk self (w_tok w'))"

lemma harmless_refl [simp]: "harmless T self w w"
  by (simp add: harmless_def lp_outside_ok_def)

lemma harmless_trans: "harmless T self w w1 \<Longrightarrow> harmless T self w1 w2 \<Longrightarrow> harmless T self w w2"
  by (auto simp: harmless_def lp_outside_ok_def intro: order_trans)

lemma lp_pause_frame:
  assumes "(if p then lp_pause e l else lp_unpause e l) = Inr l'"
  shows "lp_balances l' = lp_balances l \<and> lp_total_supply l' = lp_total_supply l \<and>
    lp_admin l' = lp_admin l \<and> lp_allowances l' = lp_allowances l \<and> lp_paused l' = p"
  using assms by (cases p) (auto simp: lp_pause_def lp_unpause_def res_inv)

lemma pair_set_lp_token_paused_Inr:
  assumes "pair_set_lp_token_paused e p w = Inr (u, w')"
  obtains ps l where "get_pair_state w = Some ps" "e_auth e (ps_factory ps)"
    "(if p then lp_pause (nested_env e (ps_lp_token ps)) (w_lp w)
      else lp_unpause (nested_env e (ps_lp_token ps)) (w_lp w)) = Inr l"
    "w' = set_pair (\<lambda>c. c\<lparr>pc_lp_paused := p\<rparr>) (w\<lparr>w_lp := l\<rparr>)"
proof -
  obtain ps where ps: "get_pair_state w = Some ps" "e_auth e (ps_factory ps)"
    using assms by (auto simp: pair_set_lp_token_paused_def res_inv)
  define r where "r = (if p then lp_pause (nested_env e (ps_lp_token ps)) (w_lp w)
      else lp_unpause (nested_env e (ps_lp_token ps)) (w_lp w))"
  have "(case r of Inr l \<Rightarrow> Inr ((), set_pair (\<lambda>c. c\<lparr>pc_lp_paused := p\<rparr>) (w\<lparr>w_lp := l\<rparr>))
     | Inl _ \<Rightarrow> Inl (Err P_LpTokenUnavailable)) = Inr (u, w')"
    using assms ps by (simp add: pair_set_lp_token_paused_def Let_def r_def)
  then obtain l where "r = Inr l" "w' = set_pair (\<lambda>c. c\<lparr>pc_lp_paused := p\<rparr>) (w\<lparr>w_lp := l\<rparr>)"
    by (auto split: sum.splits)
  with ps that show ?thesis by (simp add: r_def)
qed

lemma admin_step_harmless:
  assumes "pair_step T fv recv e op w = Inr w'" "pc_locked (w_pair w) \<or>
    (\<exists>n. op = PC_set_stale_threshold n) \<or> (\<exists>p. op = PC_set_lp_token_paused p) \<or>
    (\<exists>f. op = PC_set_frozen f)"
  shows "harmless T self w w'"
proof (cases op)
  case (PC_flash_loan r a b d)
  then show ?thesis
    using assms
    by (auto simp: pair_flash_loan_def execute_flash_loan_def res_inv with_guard_Inr split: if_splits)
next
  case (PC_set_stale_threshold n)
  then show ?thesis
    using assms
    by (auto simp: pair_set_stale_threshold_def res_inv harmless_def pair_core_def fee_params_def
        get_fee_state_def lp_outside_ok_def)
next
  case (PC_set_lp_token_paused p)
  with assms(1) obtain u where "pair_set_lp_token_paused e p w = Inr (u, w')" by auto
  then show ?thesis
  proof (cases rule: pair_set_lp_token_paused_Inr)
    case (1 ps l)
    then show ?thesis
      using lp_pause_frame [OF 1(3)] lp_base_frame [of l "w_lp w" self]
      by (simp add: harmless_def pair_core_def fee_params_def get_fee_state_def)
  qed
next
  case (PC_set_frozen f)
  then show ?thesis
    using assms
    by (auto simp: pair_set_frozen_def res_inv harmless_def pair_core_def fee_params_def
        get_fee_state_def lp_outside_ok_def)
qed (use assms in \<open>auto simp: pair_mint_def pair_mint_with_one_token_def pair_deposit_lp_def
    pair_burn_def pair_burn_single_side_def pair_swap_def pair_sync_def res_inv\<close>)

text \<open>
  What happens outside the pair: calls of the LP token, activity on the pool tokens that takes
  nothing from the pair (a SEP-41 token moves nobody's funds without their authorisation), and
  calls back into the pair while its lock is held.
\<close>

inductive outside :: "'tok token_ops \<Rightarrow> address \<Rightarrow> 'tok world \<Rightarrow> 'tok world \<Rightarrow> bool" for T self where
  outside_done: "outside T self w w"
| outside_lp: "outside T self w w1 \<Longrightarrow> lp_step c e op (w_lp w1) = Inr l \<Longrightarrow>
     lp_outside_call self op \<Longrightarrow> \<not> e_auth e self \<Longrightarrow> outside T self w (w1\<lparr>w_lp := l\<rparr>)"
| outside_tok: "outside T self w w1 \<Longrightarrow>
     \<forall>tk. tok_balance T tk self (w_tok w1) \<le> tok_balance T tk self t \<Longrightarrow>
     outside T self w (w1\<lparr>w_tok := t\<rparr>)"
| outside_reenter: "outside T self w w1 \<Longrightarrow> pc_locked (w_pair w1) \<Longrightarrow>
     pair_step T fv recv e op w1 = Inr w2 \<Longrightarrow> outside T self w w2"

lemma outside_harmless: "outside T self w w' \<Longrightarrow> harmless T self w w'"
proof (induction rule: outside.induct)
  case (outside_lp w w1 c e op l)
  have "harmless T self w1 (w1\<lparr>w_lp := l\<rparr>)"
    using lp_outside_step [OF outside_lp(2-4)]
    by (simp add: harmless_def pair_core_def fee_params_def)
  with outside_lp.IH show ?case by (rule harmless_trans)
next
  case (outside_tok w w1 t)
  have "harmless T self w1 (w1\<lparr>w_tok := t\<rparr>)"
    using outside_tok(2) by (simp add: harmless_def pair_core_def fee_params_def lp_outside_ok_def)
  with outside_tok.IH show ?case by (rule harmless_trans)
next
  case (outside_reenter w w1 fv recv e op w2)
  have "harmless T self w1 w2"
    using admin_step_harmless [OF outside_reenter(3)] outside_reenter(2) by blast
  with outside_reenter.IH show ?case by (rule harmless_trans)
qed simp

definition receiver_ok :: "'tok token_ops \<Rightarrow> address \<Rightarrow> 'tok receiver \<Rightarrow> bool" where
  "receiver_ok T self recv \<longleftrightarrow>
     (\<forall>e a w w'. pc_locked (w_pair w) \<longrightarrow> recv e a w = Some w' \<longrightarrow> outside T self w w')"

text \<open>A receiver that does nothing.\<close>

definition silent_receiver :: "'tok receiver" where
  "silent_receiver e args w = Some w"

lemma silent_receiver_ok [simp]: "receiver_ok T p silent_receiver"
  by (simp add: receiver_ok_def silent_receiver_def outside_done)

section \<open>The invariant\<close>

definition pending_ok :: "(address \<rightharpoonup> int) \<Rightarrow> int \<Rightarrow> bool" where
  "pending_ok m t \<longleftrightarrow>
     finite (dom m) \<and> (\<forall>a x. m a = Some x \<longrightarrow> 0 < x) \<and> entry_sum m = t"

text \<open>\<open>idle\<close> says that no call is running; inside a call the lock is held.\<close>

definition pair_inv :: "bool \<Rightarrow> address \<Rightarrow> 'tok world \<Rightarrow> bool" where
  "pair_inv idle self w \<longleftrightarrow>
     (\<exists>ps. get_pair_state w = Some ps \<and> ps_token_a ps \<noteq> ps_token_b ps \<and>
       0 \<le> ps_reserve_a ps \<and> 0 \<le> ps_reserve_b ps) \<and>
     fee_params w = Some (30, 10, 100) \<and>
     pc_locked (w_pair w) = (\<not> idle) \<and>
     pending_ok (pc_pending (w_pair w)) (pc_pending_total (w_pair w)) \<and>
     lp_base self (w_lp w) \<and> lp_seeded self (w_lp w) (pc_pending_total (w_pair w))"

abbreviation pair_wf :: "address \<Rightarrow> 'tok world \<Rightarrow> bool" where
  "pair_wf \<equiv> pair_inv True"

text \<open>The recorded reserves are covered by tokens the pair holds.\<close>

definition backed :: "'tok token_ops \<Rightarrow> address \<Rightarrow> 'tok world \<Rightarrow> bool" where
  "backed T self w \<longleftrightarrow>
     (\<forall>ps. get_pair_state w = Some ps \<longrightarrow>
       ps_reserve_a ps \<le> tok_balance T (ps_token_a ps) self (w_tok w) \<and>
       ps_reserve_b ps \<le> tok_balance T (ps_token_b ps) self (w_tok w))"

lemma pending_nonneg: "pending_ok m t \<Longrightarrow> 0 \<le> entry_val m a" "pending_ok m t \<Longrightarrow> 0 \<le> t"
proof -
  assume *: "pending_ok m t"
  show "0 \<le> entry_val m a"
    using * by (auto simp: pending_ok_def entry_val_def less_imp_le split: option.splits)
  have "0 \<le> entry_sum m"
    unfolding entry_sum_def
    using * by (intro sum_nonneg) (auto simp: pending_ok_def entry_val_def less_imp_le)
  then show "0 \<le> t"
    using * by (simp add: pending_ok_def)
qed

lemma pending_le_total: "pending_ok m t \<Longrightarrow> entry_val m a \<le> t"
  using entry_val_le_sum [of m a] pending_nonneg [of m t] by (auto simp: pending_ok_def)

lemma pending_add:
  assumes "pending_ok m t" "0 < x"
  shows "pending_ok (m(a \<mapsto> entry_val m a + x)) (t + x)"
  using assms pending_nonneg(1) [OF assms(1), of a] entry_sum_upd [of m a "Some (entry_val m a + x)"]
  by (auto simp: pending_ok_def)

lemma pending_clear:
  assumes "pending_ok m t"
  shows "pending_ok (m(a := None)) (t - entry_val m a)"
  using assms entry_sum_upd [of m a None] by (auto simp: pending_ok_def)

lemma get_pending_entry: "get_pending_lp w = entry_val (pc_pending (w_pair w))"
  by (simp add: get_pending_lp_def entry_val_def fun_eq_iff)

lemma seeded_total_zero:
  assumes "lp_seeded self l t" "lp_base self l" "lp_total_supply l = 0" "0 \<le> t"
  shows "t = 0" "lp_balance l a = 0"
  using assms lp_base_le_supply(1,2) [OF assms(2), of self] lp_base_le_supply(1,2) [OF assms(2), of a]
  by (auto simp: lp_seeded_def)

lemma pair_inv_harmless:
  assumes "pair_inv i self w" "harmless T self w w'"
  shows "pair_inv i self w'" "backed T self w \<Longrightarrow> backed T self w'"
proof -
  have same: "get_pair_state w' = get_pair_state w" "pc_locked (w_pair w') = pc_locked (w_pair w)"
    "pc_pending (w_pair w') = pc_pending (w_pair w)"
    "pc_pending_total (w_pair w') = pc_pending_total (w_pair w)" "fee_params w' = fee_params w"
    using assms(2) by (auto simp: harmless_def pair_core_def get_pair_state_def)
  have lp: "lp_outside_ok self (w_lp w) (w_lp w')"
    using assms by (simp add: harmless_def pair_inv_def)
  then show "pair_inv i self w'"
    using assms(1) lp_outside_ok_seeded [OF lp]
    by (auto simp: pair_inv_def same lp_outside_ok_def)
  show "backed T self w \<Longrightarrow> backed T self w'"
    using assms(2) by (auto simp: backed_def same harmless_def intro: order_trans)
qed

text \<open>The lock bit and the event log carry nothing else.\<close>

lemma fee_params_frame [simp]:
  "fee_params (emit ev w) = fee_params w"
  "fee_params (set_pair_state ps w) = fee_params w"
  "fee_params (release_lock w) = fee_params w"
  "fee_params (w\<lparr>w_lp := l\<rparr>) = fee_params w"
  "fee_params (w\<lparr>w_tok := t\<rparr>) = fee_params w"
  "fee_params (set_pending_lp a x w) = fee_params w"
  "fee_params (set_pending_lp_total x w) = fee_params w"
  "fee_params (w\<lparr>w_pair := (w_pair w)\<lparr>pc_locked := b\<rparr>\<rparr>) = fee_params w"
  by (simp_all add: fee_params_def get_fee_state_def)

lemma pair_inv_lock:
  assumes "pair_wf self w"
  shows "pair_inv False self (locked_world w)"
  using assms by (auto simp: pair_inv_def)

lemma pair_inv_release:
  assumes "pair_inv False self w"
  shows "pair_wf self (release_lock w)"
  using assms by (auto simp: pair_inv_def)

section \<open>Every operation keeps the invariant\<close>

lemma pair_sync_wf:
  assumes "pair_sync T e w = Inr (u, w')" "pair_wf self w" "e_self e = self"
    "\<And>tk. 0 \<le> tok_held T e tk w"
  shows "pair_wf self w' \<and> backed T self w'"
  using assms(1)
proof (cases rule: pair_sync_Inr)
  case (1 ps)
  have "pair_wf self w'"
    using assms(2,4) 1 by (auto simp: pair_inv_def)
  moreover have "backed T self w'"
    using 1 assms(3) by (simp add: backed_def tok_held_def)
  ultimately show ?thesis ..
qed

lemma pair_deposit_lp_wf:
  assumes "pair_deposit_lp e from x w = Inr (u, w')" "pair_wf self w" "e_self e = self"
  shows "pair_wf self w' \<and> (backed T self w \<longrightarrow> backed T self w')"
  using assms(1)
proof (cases rule: pair_deposit_lp_Inr)
  case (1 ps l)
  have inv: "pending_ok (pc_pending (w_pair w)) (pc_pending_total (w_pair w))"
    "lp_base self (w_lp w)" "lp_seeded self (w_lp w) (pc_pending_total (w_pair w))"
    using assms(2) by (simp_all add: pair_inv_def)
  note tr = lp_base_transfer [OF 1(6) inv(2)]
  have "lp_total_supply (w_lp w) \<noteq> 0"
    using seeded_total_zero(2) [OF inv(3,2) _ pending_nonneg(2) [OF inv(1)], of "from"] tr(3) 1(4) by auto
  then have "1000 + pc_pending_total (w_pair w) \<le> lp_balance (w_lp w) self"
    using inv(3) by (simp add: lp_seeded_def)
  then have "lp_seeded self l (pc_pending_total (w_pair w) + x)"
    using tr(5) 1(5) assms(3) by (simp add: lp_seeded_def moved_apply)
  moreover have "pending_ok ((pc_pending (w_pair w))(from \<mapsto> get_pending_lp w from + x))
      (pc_pending_total (w_pair w) + x)"
    using pending_add [OF inv(1) 1(4)] by (simp add: get_pending_entry)
  moreover have "get_pending_lp w from + x \<noteq> 0"
    using pending_nonneg(1) [OF inv(1), of "from"] 1(4) by (simp add: get_pending_entry)
  ultimately have "pair_wf self w'"
    using assms(2) 1 tr(1) by (auto simp: pair_inv_def get_pending_lp_total_def)
  moreover have "backed T self w \<longrightarrow> backed T self w'"
    using 1 by (simp add: backed_def)
  ultimately show ?thesis ..
qed

lemma pair_mint_wf:
  assumes "pair_mint T e to w = Inr (l, w')" "pair_wf self w" "e_self e = self" "\<not> e_auth e self"
  shows "pair_wf self w' \<and> backed T self w'"
  using assms(1)
proof (cases rule: pair_mint_Inr)
  case (1 ps l1 l2)
  have inv: "pending_ok (pc_pending (w_pair w)) (pc_pending_total (w_pair w))"
    "lp_base self (w_lp w)" "lp_seeded self (w_lp w) (pc_pending_total (w_pair w))"
    "0 \<le> ps_reserve_a ps" "0 \<le> ps_reserve_b ps" "ps_token_a ps \<noteq> ps_token_b ps"
    using assms(2) 1 by (simp_all add: pair_inv_def)
  note zero = seeded_total_zero [OF inv(3,2) _ pending_nonneg(2) [OF inv(1)]]
  have "lp_base self l1 \<and> 1000 + pc_pending_total (w_pair w) \<le> lp_balance l1 self"
  proof (cases "lp_total_supply (w_lp w) = 0")
    case True
    then have m: "lp_mint (nested_env e (ps_lp_token ps)) self 1000 (w_lp w) = Inr l1"
      using 1(8) assms(3) by simp
    then show ?thesis
      using lp_base_mint [OF m inv(2)] lp_mint_Inr [OF m] zero [OF True] by simp
  next
    case False
    then show ?thesis
      using 1(8) inv(2,3) by (simp add: lp_seeded_def)
  qed
  moreover have "lp_balance l2 self = lp_balance l1 self" "lp_base self l1 \<Longrightarrow> lp_base self l2"
    using lp_mint_Inr [OF 1(9)] lp_base_mint [OF 1(9)] 1(1,7) assms(4) by auto
  ultimately have "lp_base self l2" "lp_seeded self l2 (pc_pending_total (w_pair w))"
    by (simp_all add: lp_seeded_def)
  then have "pair_wf self w'"
    using assms(2) 1(4-6,12,13) inv
    by (auto simp: pair_inv_def pair_core_def get_pair_state_def fee_params_def 1(10))
  moreover have "backed T self w'"
    using 1 assms(3) by (simp add: backed_def tok_held_def pair_core_def get_pair_state_def)
  ultimately show ?thesis ..
qed

text \<open>A proportional share of no more than the whole.\<close>

lemma share_le:
  assumes "0 \<le> (x::int)" "x \<le> s" "0 < s" "0 \<le> r"
  shows "0 \<le> x * r div s" "x * r div s \<le> r"
proof -
  show "0 \<le> x * r div s"
    using assms by (simp add: pos_imp_zdiv_nonneg_iff)
  have "x * r \<le> s * r"
    using assms by (simp add: mult_right_mono)
  then have "x * r div s \<le> s * r div s"
    using assms by (intro zdiv_mono1)
  then show "x * r div s \<le> r"
    using assms by simp
qed

context sep41 begin

lemma pay_both_held:
  assumes "tok_call T e tk_a (e_self e) to a w = Inr w1" "tok_call T e tk_b (e_self e) to b w1 = Inr w2"
    "to \<noteq> e_self e" "tk_a \<noteq> tk_b"
  shows "tok_held T e tk_a w2 = tok_held T e tk_a w - a" "tok_held T e tk_b w2 = tok_held T e tk_b w - b"
  using assms by (auto simp: res_inv tok_held_def transfer_balance transfer_other_token)

lemma pair_burn_wf:
  assumes "pair_burn T e to w = Inr ((a, b), w')" "pair_wf self w" "e_self e = self" "\<not> e_auth e self"
  shows "pair_wf self w' \<and> (backed T self w \<longrightarrow> backed T self w')"
  using assms(1)
proof (cases rule: pair_burn_Inr)
  case (1 ps burn_lp l w3 w4)
  let ?m = "pc_pending (w_pair w)" and ?t = "pc_pending_total (w_pair w)"
  have inv: "pending_ok ?m ?t" "lp_base self (w_lp w)" "lp_seeded self (w_lp w) ?t"
    "0 \<le> ps_reserve_a ps" "0 \<le> ps_reserve_b ps" "ps_token_a ps \<noteq> ps_token_b ps"
    using assms(2) 1 by (simp_all add: pair_inv_def)
  note burn = lp_base_burn [OF 1(12) inv(2)]
  have seed: "1000 + ?t \<le> lp_balance (w_lp w) self"
    using inv(3) burn(2) 1(6) lp_base_le_supply(1) [OF inv(2), of self] assms(3)
    by (auto simp: lp_seeded_def)
  have left: "1000 + (if get_pending_lp w to > 0 then ?t - get_pending_lp w to else ?t)
      \<le> lp_balance l self" "burn_lp \<le> lp_total_supply (w_lp w) - 1000"
    using 1(5,6) seed burn(3) assms(3) pending_le_total [OF inv(1), of to]
      lp_base_le_supply(1) [OF inv(2), of self] pending_nonneg(2) [OF inv(1)]
    by (auto simp: get_pending_entry lp_held_def get_pending_lp_total_def split: if_splits)
  have amounts: "0 < lp_total_supply (w_lp w) - 1000"
    "a = burn_lp * ps_reserve_a ps div (lp_total_supply (w_lp w) - 1000)"
    "b = burn_lp * ps_reserve_b ps div (lp_total_supply (w_lp w) - 1000)"
    using burn_amounts_Inr [OF 1(7)] 1(6) inv(4,5) left(2) by simp_all
  have after: "0 \<le> ps_reserve_a ps - a" "0 \<le> ps_reserve_b ps - b"
    using share_le [of burn_lp "lp_total_supply (w_lp w) - 1000"] 1(6) left(2) inv(4,5) amounts
    by simp_all
  define v where "v = clear_pending to ((locked_world w)\<lparr>w_lp := l\<rparr>)"
  have v: "pending_ok (pc_pending (w_pair v)) (pc_pending_total (w_pair v))"
    "lp_seeded self l (pc_pending_total (w_pair v))" "w_lp v = l" "w_tok v = w_tok w"
    "fee_params v = fee_params w"
    using pending_clear [OF inv(1), of to] inv(1) left(1)
    by (auto simp: v_def clear_pending_def lp_seeded_def get_pending_lp_total_def get_pending_entry)
  have w4: "w_pair w4 = w_pair v" "w_lp w4 = l" "fee_params w4 = fee_params w"
    using 1(13,14) v(3,5) by (auto simp: res_inv v_def [symmetric])
  have "pair_wf self w'"
    using assms(2) 1(15) inv(6) after v(1,2) w4 burn(1) by (simp add: pair_inv_def)
  moreover have "to \<noteq> e_self e"
    using 1(1) assms(3,4) by auto
  then have "backed T self w \<longrightarrow> backed T self w'"
    using pay_both_held [OF 1(13,14) _ inv(6)] 1(3,15) assms(3) v(4)
    by (auto simp: backed_def tok_held_def v_def)
  ultimately show ?thesis ..
qed

lemma pay_one_held:
  assumes "tok_call T e tk (e_self e) to x w = Inr w1" "to \<noteq> e_self e"
  shows "tok_held T e tk' w1 = tok_held T e tk' w - (if tk' = tk then x else 0)"
  using assms by (cases "tk' = tk") (auto simp: res_inv tok_held_def transfer_balance transfer_other_token)

end

lemma single_side_k_kept:
  assumes "single_side_k p u p' u' su fee = Inr v" "0 \<le> p'" "0 \<le> su * fee"
  shows "p * u \<le> p' * u'"
proof -
  have "p * u * 100000000 \<le> p' * 10000 * (u' * 10000 - su * fee)"
    using assms(1) by (auto simp: single_side_k_def res_inv chk_inv BPS_DENOMINATOR_def not_less)
  also have "\<dots> \<le> p' * 10000 * (u' * 10000)"
    using assms(2,3) by (intro mult_left_mono) simp_all
  also have "\<dots> = p' * u' * 100000000"
    by (simp add: algebra_simps)
  finally show ?thesis
    by (simp only: mult_le_cancel_right_pos)
qed

lemma single_side_out_bounds:
  assumes "single_side_out su up pp fee = Inr out" "0 \<le> pp"
  shows "0 \<le> out" "out \<le> pp"
proof -
  have "out = 0 \<or> quote_output_amount su up pp fee = Inr out"
    using assms(1)
    by (auto simp: single_side_out_def pair_get_amount_out_def res_inv
        split: if_splits sum.splits fault.splits)
  then have "0 \<le> out \<and> out \<le> pp"
  proof
    assume q: "quote_output_amount su up pp fee = Inr out"
    show ?thesis
      using quote_output_spec [OF q] cp_output_less_reserve [of su up pp fee] by simp
  qed (use assms(2) in simp)
  then show "0 \<le> out" "out \<le> pp" by simp_all
qed

context sep41 begin

lemma pair_burn_single_side_wf:
  assumes "pair_burn_single_side T e to x tk m w = Inr (y, w')" "pair_wf self w" "e_self e = self"
    "\<not> e_auth e self"
  shows "pair_wf self w' \<and> (backed T self w \<longrightarrow> backed T self w')"
  using assms(1)
proof (cases rule: pair_burn_single_side_Inr)
  case (1 ps fs l w2 share_p share_u swap_out fee r_p r_u)
  have inv: "lp_base self (w_lp w)" "lp_seeded self (w_lp w) (pc_pending_total (w_pair w))"
    "0 \<le> ps_reserve_a ps" "0 \<le> ps_reserve_b ps" "ps_token_a ps \<noteq> ps_token_b ps"
    "0 \<le> pc_pending_total (w_pair w)"
    using assms(2) 1 pending_nonneg(2) by (auto simp: pair_inv_def)
  have r: "0 \<le> r_p" "0 \<le> r_u"
    using 1(9) inv(3,4) by (auto split: if_splits)
  note burn = lp_base_burn [OF 1(8) inv(1)]
  have other: "to \<noteq> self"
    using 1(1) assms(4) by auto
  have seed: "1000 + pc_pending_total (w_pair w) \<le> lp_balance (w_lp w) self"
    using inv(2) burn(2) 1(6) lp_base_le_supply(1) [OF inv(1), of to] by (auto simp: lp_seeded_def)
  then have "x \<le> lp_total_supply (w_lp w) - 1000"
    using lp_base_le_supply(3) [OF inv(1) other] burn(2) inv(6) by simp
  then have share: "share_p \<le> r_p"
    using mul_then_div_Inr [OF 1(10)] share_le [of x "lp_total_supply (w_lp w) - 1000" r_p] 1(6) r
    by simp
  have y: "y \<le> r_p"
    using single_side_out_bounds [OF 1(15)] share 1(16) by simp
  have "lp_seeded self l (pc_pending_total (w_pair w))"
    using seed burn(3) other by (simp add: lp_seeded_def)
  moreover have w2: "w_pair w2 = (w_pair w)\<lparr>pc_locked := True\<rparr>" "w_lp w2 = l" "fee_params w2 = fee_params w"
    using 1(19) by (auto simp: res_inv)
  ultimately have "pair_wf self w'"
    using assms(2) 1(20) inv(5) r y burn(1) by (simp add: pair_inv_def)
  moreover have "backed T self w \<longrightarrow> backed T self w'"
    using pay_one_held [OF 1(19)] other assms(3) 1(4,7,9,20) inv(5)
    by (auto simp: backed_def tok_held_def split: if_splits)
  ultimately show ?thesis ..
qed

lemma pair_swap_outcome:
  assumes "pair_swap T fv e a b to w = Inr (u, w')" "pair_wf self w" "e_self e = self"
    "factory_view_typed fv" "\<forall>bps. fv_fee_override fv self = Some (Some bps) \<longrightarrow> bps \<le> 10000"
    "get_pair_state w = Some ps"
  obtains v where "swap_outcome T fv e ps (locked_world w) v" "w' = release_lock v" "fee_params v = fee_params w"
proof -
  obtain v where v: "swap_inner T fv e a b to (locked_world w) = Inr (u, v)" "w' = release_lock v"
    using assms(1) by (auto simp: pair_swap_def with_guard_Inr res_inv)
  have ps: "ps_token_a ps \<noteq> ps_token_b ps" "0 \<le> ps_reserve_a ps" "0 \<le> ps_reserve_b ps"
    using assms(2,6) by (auto simp: pair_inv_def)
  obtain fs fs' where fs: "get_fee_state (locked_world w) = Some fs" "get_fee_state v = Some fs'"
    "baseline_fee_bps fs' = baseline_fee_bps fs" "min_fee_bps fs' = min_fee_bps fs"
    "max_fee_bps fs' = max_fee_bps fs"
    using swap_inner_fee_params [OF v(1)] by blast
  have fee: "min_fee_bps fs = 10" "max_fee_bps fs = 100" "fee_params v = fee_params w"
    using assms(2) fs by (auto simp: pair_inv_def fee_params_def)
  have "swap_outcome T fv e ps (locked_world w) v"
    using swap_inner_outcome [OF v(1) _ ps fs(1)] assms(6) fee assms(3-5) by simp
  with v(2) fee(3) that show ?thesis by blast
qed

lemma pair_swap_wf:
  assumes "pair_swap T fv e a b to w = Inr (u, w')" "pair_wf self w" "e_self e = self"
    "factory_view_typed fv" "\<forall>bps. fv_fee_override fv self = Some (Some bps) \<longrightarrow> bps \<le> 10000"
  shows "pair_wf self w' \<and> backed T self w'"
proof -
  obtain ps where ps: "get_pair_state w = Some ps" "ps_token_a ps \<noteq> ps_token_b ps"
    using assms(2) by (auto simp: pair_inv_def)
  obtain v where out: "swap_outcome T fv e ps (locked_world w) v" "w' = release_lock v"
    "fee_params v = fee_params w"
    using pair_swap_outcome [OF assms ps(1)] by blast
  have "pair_wf self w'"
    using assms(2) out ps by (auto simp: swap_outcome_def pair_inv_def)
  moreover have "backed T self w'"
    using out assms(3) by (auto simp: swap_outcome_def backed_def tok_held_def)
  ultimately show ?thesis ..
qed

text \<open>While the receiver of a loan runs, the pair is locked and the receiver cannot harm it.\<close>

lemma loan_callback:
  assumes "pay_out T e tk to x (locked_world w) = Inr w1" "pay_out T e tk' to y w1 = Inr w2"
    "recv e' args w2 = Some w3" "receiver_ok T self recv" "pair_wf self w"
  shows "pair_inv False self w2" "harmless T self w2 w3" "w_lp w2 = w_lp w"
proof -
  have w2: "w_pair w2 = (w_pair w)\<lparr>pc_locked := True\<rparr>" "w_lp w2 = w_lp w"
    using pay_out_frame [OF assms(1)] pay_out_frame [OF assms(2)] by simp_all
  then show "pair_inv False self w2" "w_lp w2 = w_lp w"
    using assms(5) by (auto simp: pair_inv_def get_pair_state_def fee_params_def get_fee_state_def)
  have "outside T self w2 w3"
    using assms(3,4) w2(1) by (simp add: receiver_ok_def)
  then show "harmless T self w2 w3" by (rule outside_harmless)
qed

lemma pair_flash_loan_wf:
  assumes "pair_flash_loan T recv e r x y d w = Inr (u, w')" "pair_wf self w" "e_self e = self"
    "receiver_ok T self recv"
  shows "pair_wf self w' \<and> (backed T self w \<longrightarrow> backed T self w')"
proof (cases "x = 0 \<and> y = 0")
  case True
  then have "w' = w"
    using assms(1) by (auto simp: pair_flash_loan_def execute_flash_loan_def res_inv)
  with assms(2) show ?thesis by simp
next
  case False
  then have "x \<noteq> 0 \<or> y \<noteq> 0" by blast
  with assms(1) show ?thesis
  proof (cases rule: pair_flash_loan_Inr)
    case (1 ps fee_a fee_b w1 w2 w3 bps)
    note callback = loan_callback [OF 1(11-13) assms(4,2)]
    have inv: "pair_inv False self w3"
      by (rule pair_inv_harmless [OF callback(1,2)])
    have ps: "0 \<le> ps_reserve_a ps" "0 \<le> ps_reserve_b ps" "bps = 30"
      using assms(2) 1(3,8) by (auto simp: pair_inv_def fee_params_def)
    have "0 < x \<Longrightarrow> 0 < tok_held T e (ps_token_a ps) w3" "0 < y \<Longrightarrow> 0 < tok_held T e (ps_token_b ps) w3"
      using 1(6,7,9,10,14,15) compute_flash_fee_Inr(2) [of x bps fee_a] compute_flash_fee_Inr(2) [of y bps fee_b]
        ps(3) by auto
    moreover have "0 < x \<or> 0 < y"
      using 1(4,5) False by auto
    moreover have "0 \<le> tok_held T e (ps_token_a ps) w3 * tok_held T e (ps_token_b ps) w3"
      using 1(16) mult_nonneg_nonneg [OF ps(1,2)] by linarith
    ultimately have "0 \<le> tok_held T e (ps_token_a ps) w3" "0 \<le> tok_held T e (ps_token_b ps) w3"
      by (auto simp: zero_le_mult_iff)
    then have "pair_wf self w'"
      using inv 1(3,17) assms(2) by (auto simp: pair_inv_def)
    moreover have "backed T self w'"
      using 1(17) assms(3) by (simp add: backed_def tok_held_def)
    ultimately show ?thesis by simp
  qed
qed

lemma pair_mint_with_one_token_wf:
  assumes "pair_mint_with_one_token T fv e to tk x m w = Inr (y, w')" "pair_wf self w"
    "e_self e = self" "\<not> e_auth e self"
    "factory_view_typed fv" "\<forall>bps. fv_fee_override fv self = Some (Some bps) \<longrightarrow> bps \<le> 10000"
  shows "pair_wf self w'"
  using assms(1)
proof (cases rule: pair_mint_with_one_token_Inr)
  case (1 ps fs fee swap_in w1 swap_out w2 post l dep_a dep_b r_in r_out)
  have ps: "ps_token_a ps \<noteq> ps_token_b ps" "0 \<le> ps_reserve_a ps" "0 \<le> ps_reserve_b ps"
    using assms(2) 1(4) by (simp_all add: pair_inv_def)
  have w1: "get_pair_state w1 = Some ps" "w_lp w1 = w_lp w" "get_fee_state w1 = Some fs"
    "w_pair w1 = (w_pair w)\<lparr>pc_locked := True\<rparr>"
    using 1(4,5,14) by (auto simp: res_inv)
  obtain ao bo where swap: "swap_inner T fv e ao bo (e_self e) w1 = Inr ((), w2)"
    using 1(17) by (auto split: if_splits)
  have fee: "min_fee_bps fs = 10" "max_fee_bps fs = 100" "fee_params w2 = Some (30, 10, 100)"
    using assms(2) 1(5) swap_inner_fee_params [OF swap] w1(3)
    by (auto simp: pair_inv_def fee_params_def)
  have out: "swap_outcome T fv e ps w1 w2"
    using swap_inner_outcome [OF swap w1(1) ps w1(3)] fee assms(3,5,6) by simp
  have lp: "lp_base self (w_lp w2)" "lp_seeded self (w_lp w2) (pc_pending_total (w_pair w))"
    using assms(2) out w1(2) by (simp_all add: swap_outcome_def pair_inv_def)
  have "to \<noteq> self"
    using 1(1) assms(4) by auto
  moreover have "lp_total_supply (w_lp w2) \<noteq> 0"
  proof
    assume "lp_total_supply (w_lp w2) = 0"
    then have "mul_then_div dep_a 0 (ps_reserve_a post) = Inr q \<Longrightarrow> q = 0" for q
      by (auto simp: mul_then_div_def res_inv chk_inv)
    with 1(20,21) \<open>lp_total_supply (w_lp w2) = 0\<close> show False
      by (auto simp: subsequent_liquidity_def res_inv)
  qed
  ultimately have lp': "lp_base self l" "lp_seeded self l (pc_pending_total (w_pair w))"
    using lp_mint_Inr [OF 1(23)] lp_base_mint [OF 1(23) lp(1)] 1(21) lp(2)
    by (auto simp: lp_seeded_def)
  have dep: "0 \<le> dep_a" "0 \<le> dep_b"
    using 1(13,16,19) by (auto split: if_splits)
  show ?thesis
    using out lp' dep 1(18,24) fee(3) assms(2) w1(4) ps(1)
    by (auto simp: swap_outcome_def pair_inv_def)
qed

section \<open>Reachable states\<close>

end

text \<open>
  \<open>allowed\<close> selects which entry points the run uses. External invocations never carry the
  pair's own authorisation, fee overrides are at most 100%, and a token balance that \<open>sync\<close>
  reads is not negative.
\<close>

inductive pair_reachable ::
  "'tok token_ops \<Rightarrow> address \<Rightarrow> (pair_call \<Rightarrow> bool) \<Rightarrow> 'tok world \<Rightarrow> bool" for T self allowed where
  reach_init: "w_pair w = pair_deployed \<Longrightarrow> lp_base self (w_lp w) \<Longrightarrow> lp_total_supply (w_lp w) = 0 \<Longrightarrow>
     \<forall>tk. 0 \<le> tok_balance T tk self (w_tok w) \<Longrightarrow>
     pair_initialize fv e factory a b lp w = Inr w' \<Longrightarrow> pair_reachable T self allowed w'"
| reach_call: "pair_reachable T self allowed w \<Longrightarrow> allowed op \<Longrightarrow>
     e_self e = self \<Longrightarrow> \<not> e_auth e self \<Longrightarrow> receiver_ok T self recv \<Longrightarrow> factory_view_typed fv \<Longrightarrow>
     \<forall>bps. fv_fee_override fv self = Some (Some bps) \<longrightarrow> bps \<le> 10000 \<Longrightarrow>
     (op = PC_sync \<longrightarrow> (\<forall>tk. 0 \<le> tok_balance T tk self (w_tok w))) \<Longrightarrow>
     pair_step T fv recv e op w = Inr w' \<Longrightarrow> pair_reachable T self allowed w'"
| reach_outside: "pair_reachable T self allowed w \<Longrightarrow> outside T self w w' \<Longrightarrow>
     pair_reachable T self allowed w'"

fun single_sided_mint :: "pair_call \<Rightarrow> bool" where
  "single_sided_mint (PC_mint_with_one_token to tk x m) = True"
| "single_sided_mint _ = False"

lemma pair_initialize_wf:
  assumes "pair_initialize fv e factory a b lp w = Inr w'" "w_pair w = pair_deployed"
    "lp_base self (w_lp w)" "lp_total_supply (w_lp w) = 0"
    "\<forall>tk. 0 \<le> tok_balance T tk self (w_tok w)"
  shows "pair_wf self w' \<and> backed T self w'"
  using assms
  by (auto simp: pair_initialize_def Let_def res_inv pair_inv_def backed_def pair_deployed_def
      initial_fee_state_def fee_params_def get_fee_state_def get_pair_state_def
      pending_ok_def entry_sum_def lp_seeded_def)

context sep41 begin

lemma pair_step_wf:
  assumes "pair_step T fv recv e op w = Inr w'" "pair_wf self w" "e_self e = self" "\<not> e_auth e self"
    "receiver_ok T self recv" "factory_view_typed fv"
    "\<forall>bps. fv_fee_override fv self = Some (Some bps) \<longrightarrow> bps \<le> 10000"
    "op = PC_sync \<longrightarrow> (\<forall>tk. 0 \<le> tok_balance T tk self (w_tok w))"
  shows "pair_wf self w' \<and> (\<not> single_sided_mint op \<longrightarrow> backed T self w \<longrightarrow> backed T self w')"
proof (cases op)
  case (PC_mint to)
  then show ?thesis using assms pair_mint_wf [of T e to w] by auto
next
  case (PC_mint_with_one_token to tk x m)
  then show ?thesis using assms pair_mint_with_one_token_wf [of fv e to tk x m w] by auto
next
  case (PC_deposit_lp f x)
  then show ?thesis using assms pair_deposit_lp_wf [of e f x w _ w' self T] by auto
next
  case (PC_burn to)
  then show ?thesis using assms pair_burn_wf [of e to w] by auto
next
  case (PC_burn_single_side to x tk m)
  then show ?thesis using assms pair_burn_single_side_wf [of e to x tk m w] by auto
next
  case (PC_swap a b to)
  then show ?thesis using assms pair_swap_wf [of fv e a b to w] by auto
next
  case (PC_flash_loan r a b d)
  then show ?thesis using assms pair_flash_loan_wf [of recv e r a b d w] by auto
next
  case PC_sync
  then show ?thesis using assms pair_sync_wf [of T e w] by (auto simp: tok_held_def)
qed (use assms(1) pair_inv_harmless [OF assms(2) admin_step_harmless [OF assms(1)]] in auto)

lemma pair_reachable_wf:
  assumes "pair_reachable T self allowed w" "\<And>op. single_sided_mint op \<Longrightarrow> allowed op \<Longrightarrow> b"
  shows "pair_wf self w \<and> (\<not> b \<longrightarrow> backed T self w)"
  using assms(1)
proof induction
  case (reach_init w fv e factory a b' lp w')
  then show ?case using pair_initialize_wf by blast
next
  case (reach_call w op e recv fv w')
  then show ?case
    using pair_step_wf [OF reach_call.hyps(9) _ reach_call.hyps(3-8)] assms(2) by blast
next
  case (reach_outside w w')
  then show ?case
    using pair_inv_harmless [OF _ outside_harmless] by blast
qed

end

end
