(* ===== verification/Pair_Frame.thy ===== *)
theory Pair_Frame
  imports Pair_Safety
begin

text \<open>
  What no call of a pair changes unless its factory authorises it: the factory, tokens and LP
  token of the pair, its frozen flag, its (never fed) price oracle and the administrator of its
  LP token. The deployment's registry relies on these facts.
\<close>

definition pair_identity :: "pair_contract \<Rightarrow> (address \<times> address \<times> address \<times> address) option" where
  "pair_identity c =
     map_option (\<lambda>ps. (ps_factory ps, ps_token_a ps, ps_token_b ps, ps_lp_token ps)) (pc_state c)"

definition pair_fixed ::
  "'tok world \<Rightarrow> (address \<times> address \<times> address \<times> address) option \<times> bool \<times> oracle_state
     \<times> address option" where
  "pair_fixed w = (pair_identity (w_pair w), pc_frozen (w_pair w), pc_oracle (w_pair w),
     lp_admin (w_lp w))"

lemma pair_fixed_frame [simp]:
  "pair_fixed (emit ev w) = pair_fixed w"
  "pair_fixed (release_lock w) = pair_fixed w"
  "pair_fixed (set_fee_state fs w) = pair_fixed w"
  "pair_fixed (set_pending_lp a x w) = pair_fixed w"
  "pair_fixed (set_pending_lp_total x w) = pair_fixed w"
  "pair_fixed (w\<lparr>w_tok := t\<rparr>) = pair_fixed w"
  "pair_fixed (w\<lparr>w_pair := (w_pair w)\<lparr>pc_locked := b\<rparr>\<rparr>) = pair_fixed w"
  "pair_fixed (set_pair (\<lambda>c. c\<lparr>pc_protocol_fee_a := pa c, pc_protocol_fee_b := pb c\<rparr>) w) = pair_fixed w"
  "pair_fixed (w\<lparr>w_pair := (w_pair w)\<lparr>pc_locked := b\<rparr>, w_lp := l\<rparr>) = pair_fixed (w\<lparr>w_lp := l\<rparr>)"
  by (simp_all add: pair_fixed_def pair_identity_def)

lemma pair_fixed_lp: "lp_admin l = lp_admin (w_lp w) \<Longrightarrow> pair_fixed (w\<lparr>w_lp := l\<rparr>) = pair_fixed w"
  by (simp add: pair_fixed_def)

text \<open>New reserves, product and time leave the identity alone.\<close>

lemma pair_fixed_state:
  assumes "pc_state (w_pair w) = Some ps" "ps_factory ps' = ps_factory ps"
    "ps_token_a ps' = ps_token_a ps" "ps_token_b ps' = ps_token_b ps"
    "ps_lp_token ps' = ps_lp_token ps"
  shows "pair_fixed (set_pair_state ps' w) = pair_fixed w"
  using assms by (simp add: pair_fixed_def pair_identity_def)

lemma pair_fixed_pay_out:
  assumes "pay_out T e tk to x w = Inr w'"
  shows "pair_fixed w' = pair_fixed w \<and> pc_state (w_pair w') = pc_state (w_pair w)"
  using assms by (auto simp: pay_out_def res_inv split: if_splits)

lemma pair_fixed_collect:
  assumes "collect_protocol_fee T fv e ps in_a in_b fee w = Inr (pf, w')"
  shows "pair_fixed w' = pair_fixed w \<and> pc_state (w_pair w') = pc_state (w_pair w)"
  using assms
  by (auto simp: collect_protocol_fee_def Let_def res_inv
      dest!: pair_fixed_pay_out split: option.splits if_splits)

lemma swap_inner_fixed:
  assumes "swap_inner T fv e a b to w = Inr (u, w')"
  shows "pair_fixed w' = pair_fixed w"
proof -
  have u: "u = ()" by simp
  show ?thesis
    using assms
  proof (cases rule: swap_inner_cases)
    case (1 ps fs0 fs dyn w1 w2 in_a in_b pf_a pf_b w3 fs')
    have "pc_state (w_pair w3) = Some ps" "pair_fixed w3 = pair_fixed w"
      using 1(2) pair_fixed_pay_out [OF 1(7)] pair_fixed_pay_out [OF 1(8)] pair_fixed_collect [OF 1(13)]
      by (simp_all add: get_pair_state_def)
    then show ?thesis
      using 1(15) pair_fixed_state [of w3 ps] by simp
  qed
qed

lemma lp_calls_keep_admin:
  "lp_mint e to x l = Inr l' \<Longrightarrow> lp_admin l' = lp_admin l"
  "lp_burn e f x l = Inr l' \<Longrightarrow> lp_admin l' = lp_admin l"
  "lp_transfer e f t x l = Inr l' \<Longrightarrow> lp_admin l' = lp_admin l"
  using lp_mint_Inr [of e to x l l'] lp_burn_balance_Inr [of f x l l']
    lp_transfer_internal_Inr [of f t x l l']
  by (auto simp: lp_burn_Inr lp_transfer_Inr)

lemma mint_liquidity_fixed:
  assumes "mint_liquidity e ps x y w = Inr (l, w')"
  shows "pair_fixed w' = pair_fixed w \<and> pc_state (w_pair w') = pc_state (w_pair w)"
  using mint_liquidity_Inr [OF assms] lp_calls_keep_admin(1)
  by (auto simp: pair_fixed_def split: if_splits)

lemma pair_mint_fixed:
  assumes "pair_mint T e to w = Inr (l, w')"
  shows "pair_fixed w' = pair_fixed w"
proof -
  obtain ps w1 l1 ps' where *: "pc_state (w_pair w) = Some ps"
    "mint_liquidity e ps (tok_held T e (ps_token_a ps) w - ps_reserve_a ps)
      (tok_held T e (ps_token_b ps) w - ps_reserve_b ps) (locked_world w) = Inr (l, w1)"
    "lp_mint (nested_env e (ps_lp_token ps)) to l (w_lp w1) = Inr l1"
    "pair_fixed w' = pair_fixed (set_pair_state ps' (w1\<lparr>w_lp := l1\<rparr>))"
    "ps_factory ps' = ps_factory ps" "ps_token_a ps' = ps_token_a ps"
    "ps_token_b ps' = ps_token_b ps" "ps_lp_token ps' = ps_lp_token ps"
    using assms unfolding pair_mint_def require_Inr with_guard_Inr Let_def
    by (fastforce simp: res_inv chk_inv get_pair_state_def)
  have "pc_state (w_pair w1) = Some ps" "pair_fixed w1 = pair_fixed w"
    using mint_liquidity_fixed [OF *(2)] *(1) by simp_all
  then show ?thesis
    using *(4) pair_fixed_state [of "w1\<lparr>w_lp := l1\<rparr>" ps ps', OF _ *(5-8)]
      pair_fixed_lp [of l1 w1] lp_calls_keep_admin(1) [OF *(3)] by simp
qed

lemma clear_pending_fixed:
  "pair_fixed (clear_pending a w) = pair_fixed w"
  "pc_state (w_pair (clear_pending a w)) = pc_state (w_pair w)"
  by (simp_all add: clear_pending_def)

lemma pair_burn_fixed:
  assumes "pair_burn T e to w = Inr (ab, w')"
  shows "pair_fixed w' = pair_fixed w"
proof -
  obtain a b where ab: "ab = (a, b)" by fastforce
  show ?thesis
    using assms [unfolded ab]
  proof (cases rule: pair_burn_Inr)
    case (1 ps burn_lp l w3 w4)
    let ?v = "clear_pending to ((locked_world w)\<lparr>w_lp := l\<rparr>)"
    have "pc_state (w_pair w4) = pc_state (w_pair ?v)" "pair_fixed w4 = pair_fixed ?v"
      using 1(13,14) by (auto simp: res_inv)
    then have "pc_state (w_pair w4) = Some ps" "pair_fixed w4 = pair_fixed (w\<lparr>w_lp := l\<rparr>)"
      using 1(3) by (simp_all add: clear_pending_fixed get_pair_state_def)
    then show ?thesis
      using 1(15) pair_fixed_state [of w4 ps] pair_fixed_lp [of l w]
        lp_calls_keep_admin(2) [OF 1(12)] by simp
  qed
qed

lemma pair_burn_single_side_fixed:
  assumes "pair_burn_single_side T e to x tk m w = Inr (y, w')"
  shows "pair_fixed w' = pair_fixed w"
  using assms
proof (cases rule: pair_burn_single_side_Inr)
  case (1 ps fs l w2 share_p share_u swap_out fee r_p r_u)
  have "pc_state (w_pair w2) = Some ps" "pair_fixed w2 = pair_fixed (w\<lparr>w_lp := l\<rparr>)"
    using 1(4,19) by (auto simp: res_inv get_pair_state_def pair_fixed_def pair_identity_def)
  then show ?thesis
    using 1(20) pair_fixed_state [of w2 ps] pair_fixed_lp [of l w]
      lp_calls_keep_admin(2) [OF 1(8)] by simp
qed

lemma pair_mint_with_one_token_fixed:
  assumes "pair_mint_with_one_token T fv e to tk x m w = Inr (y, w')"
  shows "pair_fixed w' = pair_fixed w"
  using assms
proof (cases rule: pair_mint_with_one_token_Inr)
  case (1 ps fs fee swap_in w1 swap_out w2 post l dep_a dep_b r_in r_out)
  have "pair_fixed w1 = pair_fixed w"
    using 1(14) by (auto simp: res_inv)
  moreover have "pair_fixed w2 = pair_fixed w1"
    using 1(17) swap_inner_fixed by (metis (no_types))
  moreover have "pair_fixed (w2\<lparr>w_lp := l\<rparr>) = pair_fixed w2"
    by (rule pair_fixed_lp) (rule lp_calls_keep_admin(1) [OF 1(23)])
  ultimately show ?thesis
    using 1(18,24) pair_fixed_state [of "w2\<lparr>w_lp := l\<rparr>" post] by (simp add: get_pair_state_def)
qed

lemma pair_deposit_lp_fixed:
  assumes "pair_deposit_lp e from x w = Inr (u, w')"
  shows "pair_fixed w' = pair_fixed w"
  using assms
proof (cases rule: pair_deposit_lp_Inr)
  case (1 ps l)
  then show ?thesis
    using pair_fixed_lp [of l w] lp_calls_keep_admin(3) [OF 1(6)]
    by (simp add: pair_fixed_def pair_identity_def)
qed

lemma pair_sync_fixed:
  assumes "pair_sync T e w = Inr (u, w')"
  shows "pair_fixed w' = pair_fixed w"
  using assms
proof (cases rule: pair_sync_Inr)
  case (1 ps)
  then show ?thesis
    using pair_fixed_state [of "locked_world w" ps] by (simp add: get_pair_state_def)
qed

definition receiver_keeps :: "'tok receiver \<Rightarrow> bool" where
  "receiver_keeps recv \<longleftrightarrow>
     (\<forall>e a w w'. recv e a w = Some w' \<longrightarrow>
        pair_fixed w' = pair_fixed w \<and> pair_core w' = pair_core w)"

lemma pair_flash_loan_fixed:
  assumes "pair_flash_loan T recv e r x y d w = Inr (u, w')" "receiver_keeps recv"
  shows "pair_fixed w' = pair_fixed w"
proof (cases "x = 0 \<and> y = 0")
  case True
  then show ?thesis
    using assms(1) by (auto simp: pair_flash_loan_def execute_flash_loan_def res_inv)
next
  case False
  then have "x \<noteq> 0 \<or> y \<noteq> 0" by blast
  with assms(1) show ?thesis
  proof (cases rule: pair_flash_loan_Inr)
    case (1 ps fee_a fee_b w1 w2 w3 bps)
    have "pair_fixed w2 = pair_fixed w" "pc_state (w_pair w2) = Some ps"
      using 1(3) pair_fixed_pay_out [OF 1(11)] pair_fixed_pay_out [OF 1(12)]
      by (simp_all add: get_pair_state_def)
    moreover have "pair_fixed w3 = pair_fixed w2" "pc_state (w_pair w3) = pc_state (w_pair w2)"
      using assms(2) 1(13) by (auto simp: receiver_keeps_def pair_core_def)
    ultimately show ?thesis
      using 1(17) pair_fixed_state [of w3 ps] by simp
  qed
qed

text \<open>
  Without the factory's authorisation nothing of this changes; with it, only the frozen flag.
\<close>

lemma pair_step_fixed:
  assumes "pair_step T fv recv e op w = Inr w'" "receiver_keeps recv"
    and "\<forall>ps. pc_state (w_pair w) = Some ps \<longrightarrow> \<not> e_auth e (ps_factory ps)"
  shows "pair_fixed w' = pair_fixed w"
proof (cases op)
  case (PC_flash_loan r a b d)
  then show ?thesis using assms pair_flash_loan_fixed [of T recv e r a b d w] by auto
next
  case (PC_swap a b to)
  then show ?thesis
    using assms swap_inner_fixed by (fastforce simp: pair_swap_def with_guard_Inr res_inv)
qed (use assms in \<open>auto dest: pair_mint_fixed pair_mint_with_one_token_fixed pair_deposit_lp_fixed
    pair_burn_fixed pair_burn_single_side_fixed pair_sync_fixed
    simp: pair_set_stale_threshold_def pair_set_lp_token_paused_def pair_set_frozen_def res_inv
      get_pair_state_def\<close>)

lemma pair_set_frozen_Inr:
  "pair_set_frozen e f w = Inr (u, w') \<longleftrightarrow>
    (\<exists>ps. pc_state (w_pair w) = Some ps \<and> e_auth e (ps_factory ps)) \<and>
    w' = set_pair (\<lambda>c. c\<lparr>pc_frozen := f\<rparr>) w"
  by (auto simp: pair_set_frozen_def res_inv get_pair_state_def)

lemma pair_set_stale_threshold_fixed:
  assumes "pair_set_stale_threshold e n w = Inr (u, w')"
  shows "pair_fixed w' = pair_fixed w"
  using assms by (auto simp: pair_set_stale_threshold_def res_inv)

lemma pair_set_lp_token_paused_fixed:
  assumes "pair_set_lp_token_paused e p w = Inr (u, w')"
  shows "pair_fixed w' = pair_fixed w"
  using assms
proof (cases rule: pair_set_lp_token_paused_Inr)
  case (1 ps l)
  then show ?thesis
    using lp_pause_frame [OF 1(3)] by (simp add: pair_fixed_def pair_identity_def)
qed

end
