(* ===== verification/Pair_Others.thy ===== *)
theory Pair_Others
  imports Pair_Frame
begin

text \<open>
  What a call of one pair guarantees to everybody else. \<open>tok_fair T Q\<close> relates two states of the
  pool tokens when no account of \<open>Q\<close> has lost anything and no balance has become negative; a call
  is fair to all accounts that neither run it nor sign it. With this guarantee several pools can
  share their tokens.
\<close>

section \<open>Fair changes of the tokens\<close>

definition tok_fair :: "'tok token_ops \<Rightarrow> address set \<Rightarrow> 'tok \<Rightarrow> 'tok \<Rightarrow> bool" where
  "tok_fair T Q t t' \<longleftrightarrow>
     (\<forall>tk. \<forall>q \<in> Q. tok_balance T tk q t \<le> tok_balance T tk q t') \<and>
     (tok_solvent T t \<longrightarrow> tok_solvent T t')"

lemma tok_fair_refl [simp]: "tok_fair T Q t t"
  by (simp add: tok_fair_def)

lemma tok_fair_trans [trans]: "tok_fair T Q t t1 \<Longrightarrow> tok_fair T Q t1 t2 \<Longrightarrow> tok_fair T Q t t2"
  unfolding tok_fair_def by (meson order_trans)

lemma tok_fair_mono: "tok_fair T Q t t' \<Longrightarrow> R \<subseteq> Q \<Longrightarrow> tok_fair T R t t'"
  by (auto simp: tok_fair_def)

lemma tok_fair_solvent: "tok_fair T Q t t' \<Longrightarrow> tok_solvent T t \<Longrightarrow> tok_solvent T t'"
  by (simp add: tok_fair_def)

text \<open>Accounts that have no say in an invocation.\<close>

definition strangers :: "env \<Rightarrow> address set \<Rightarrow> bool" where
  "strangers e Q \<longleftrightarrow> (\<forall>q \<in> Q. \<not> e_auth e q \<and> q \<noteq> e_self e)"

definition receiver_fair :: "'tok token_ops \<Rightarrow> address set \<Rightarrow> 'tok receiver \<Rightarrow> bool" where
  "receiver_fair T Q recv \<longleftrightarrow>
     (\<forall>e a w w'. recv e a w = Some w' \<longrightarrow> tok_fair T Q (w_tok w) (w_tok w'))"

lemma silent_receiver_fair [simp]:
  "receiver_keeps silent_receiver" "receiver_fair T Q silent_receiver"
  by (simp_all add: receiver_keeps_def receiver_fair_def silent_receiver_def)

section \<open>Every call of a pair is fair\<close>

context sep41_funded begin

lemma transfer_fair:
  assumes "tok_transfer T e tk f t x w = Some w'" "strangers e Q"
  shows "tok_fair T Q w w'"
proof -
  have "f \<notin> Q"
    using transfer_authorised [OF assms(1)] assms(2) by (auto simp: strangers_def)
  then show ?thesis
    using transfer_nonneg [OF assms(1)] transfer_solvent [OF assms(1)]
    by (auto simp: tok_fair_def transfer_moves [OF assms(1)] moved_apply)
qed

lemma tok_call_fair:
  "tok_call T e tk f t x w = Inr w' \<Longrightarrow> strangers e Q \<Longrightarrow> tok_fair T Q (w_tok w) (w_tok w')"
  by (auto simp: tok_call_def res_inv intro: transfer_fair)

lemma pay_out_fair:
  "pay_out T e tk to x w = Inr w' \<Longrightarrow> strangers e Q \<Longrightarrow> tok_fair T Q (w_tok w) (w_tok w')"
  by (auto simp: pay_out_def intro: tok_call_fair split: if_splits)

lemma collect_fair:
  assumes "collect_protocol_fee T fv e ps in_a in_b fee w = Inr (pf, w')" "strangers e Q"
  shows "tok_fair T Q (w_tok w) (w_tok w')"
  using assms
  by (auto simp: collect_protocol_fee_def Let_def res_inv
      dest!: pay_out_fair [OF _ assms(2)] intro: tok_fair_trans split: option.splits if_splits)

lemma swap_inner_fair:
  assumes "swap_inner T fv e a b to w = Inr (u, w')" "strangers e Q"
  shows "tok_fair T Q (w_tok w) (w_tok w')"
proof -
  have u: "u = ()" by simp
  show ?thesis
    using assms(1)
  proof (cases rule: swap_inner_cases)
    case (1 ps fs0 fs dyn w1 w2 in_a in_b pf_a pf_b w3 fs')
    have "tok_fair T Q (w_tok w) (w_tok w3)"
      using pay_out_fair [OF 1(7) assms(2)] pay_out_fair [OF 1(8) assms(2)]
        collect_fair [OF 1(13) assms(2)] by (blast intro: tok_fair_trans)
    then show ?thesis
      using 1(15) by simp
  qed
qed

lemma pair_burn_fair:
  assumes "pair_burn T e to w = Inr (ab, w')" "strangers e Q"
  shows "tok_fair T Q (w_tok w) (w_tok w')"
proof -
  obtain a b where ab: "ab = (a, b)" by fastforce
  show ?thesis
    using assms(1) [unfolded ab]
  proof (cases rule: pair_burn_Inr)
    case (1 ps burn_lp l w3 w4)
    show ?thesis
      using tok_fair_trans [OF tok_call_fair [OF 1(13) assms(2)] tok_call_fair [OF 1(14) assms(2)]] 1(15)
      by simp
  qed
qed

lemma pair_burn_single_side_fair:
  assumes "pair_burn_single_side T e to x tk m w = Inr (y, w')" "strangers e Q"
  shows "tok_fair T Q (w_tok w) (w_tok w')"
  using assms(1)
proof (cases rule: pair_burn_single_side_Inr)
  case (1 ps fs l w2 share_p share_u swap_out fee r_p r_u)
  then show ?thesis
    using tok_call_fair [OF 1(19) assms(2)] by simp
qed

lemma pair_mint_with_one_token_fair:
  assumes "pair_mint_with_one_token T fv e to tk x m w = Inr (y, w')" "strangers e Q"
  shows "tok_fair T Q (w_tok w) (w_tok w')"
  using assms(1)
proof (cases rule: pair_mint_with_one_token_Inr)
  case (1 ps fs fee swap_in w1 swap_out w2 post l dep_a dep_b r_in r_out)
  have "tok_fair T Q (w_tok w1) (w_tok w2)"
    using 1(17) swap_inner_fair [OF _ assms(2)] by (auto split: if_splits)
  then show ?thesis
    using tok_fair_trans [OF tok_call_fair [OF 1(14) assms(2)]] 1(24) by simp
qed

lemma pair_flash_loan_fair:
  assumes "pair_flash_loan T recv e r x y d w = Inr (u, w')" "strangers e Q" "receiver_fair T Q recv"
  shows "tok_fair T Q (w_tok w) (w_tok w')"
proof (cases "x = 0 \<and> y = 0")
  case True
  then show ?thesis
    using assms(1) by (auto simp: pair_flash_loan_def execute_flash_loan_def res_inv)
next
  case False
  then have "x \<noteq> 0 \<or> y \<noteq> 0" by blast
  with assms(1) show ?thesis
  proof (cases rule: pair_flash_loan_Inr)
    case (1 ps fee_a fee_b w1 w2 w3 bps)
    have "tok_fair T Q (w_tok w2) (w_tok w3)"
      using 1(13) assms(3) by (auto simp: receiver_fair_def)
    then show ?thesis
      using tok_fair_trans [OF pay_out_fair [OF 1(11) assms(2)] pay_out_fair [OF 1(12) assms(2)]] 1(17)
      by (auto intro: tok_fair_trans)
  qed
qed

lemma pair_mint_fair: "pair_mint T e to w = Inr (l, w') \<Longrightarrow> w_tok w' = w_tok w"
  by (erule pair_mint_Inr)

lemma pair_step_fair:
  assumes "pair_step T fv recv e op w = Inr w'" "strangers e Q" "receiver_fair T Q recv"
  shows "tok_fair T Q (w_tok w) (w_tok w')"
proof (cases op)
  case (PC_swap a b to)
  then show ?thesis
    using assms(1) swap_inner_fair [OF _ assms(2)]
    by (fastforce simp: pair_swap_def with_guard_Inr res_inv)
next
  case (PC_deposit_lp f x)
  then show ?thesis
    using assms(1) by (auto elim!: pair_deposit_lp_Inr)
next
  case PC_sync
  then show ?thesis
    using assms(1) by (auto elim!: pair_sync_Inr)
next
  case (PC_set_lp_token_paused p)
  then show ?thesis
    using assms(1) by (auto elim!: pair_set_lp_token_paused_Inr)
qed (use assms(1) pair_mint_fair pair_burn_fair [OF _ assms(2)] pair_burn_single_side_fair [OF _ assms(2)]
    pair_mint_with_one_token_fair [OF _ assms(2)] pair_flash_loan_fair [OF _ assms(2,3)]
    in \<open>fastforce simp: pair_set_stale_threshold_def pair_set_frozen_def res_inv\<close>)+

end

end
