(* ===== verification/Pair_Effects.thy ===== *)
theory Pair_Effects
  imports Pair_Others
begin

text \<open>
  What the calls of a sound pair do, in full: the reserves they leave, the LP they issue or
  redeem, and the tokens that move. The specification of a pool (\<open>Pair_Spec\<close>) and the
  properties of deposits and withdrawals through the router rest on these facts.
\<close>

section \<open>Staging LP and burning it\<close>

context sep41_funded begin

lemma stage_then_burn:
  assumes "pair_deposit_lp e who n w = Inr (u, w1)" "pair_burn T e who (w1\<lparr>w_events := []\<rparr>) = Inr ((x, y), w2)"
    and "pair_wf p w" "e_self e = p" "get_pair_state w = Some ps"
  defines "m \<equiv> get_pending_lp w who + n" and "S \<equiv> lp_total_supply (w_lp w) - 1000"
  shows "e_auth e who \<and> who \<noteq> p \<and> 0 < n \<and> 0 < S \<and>
    x = m * ps_reserve_a ps div S \<and> y = m * ps_reserve_b ps div S \<and>
    lp_balance (w_lp w2) who = lp_balance (w_lp w) who - n \<and>
    lp_total_supply (w_lp w2) = lp_total_supply (w_lp w) - m \<and> get_pending_lp w2 who = 0 \<and>
    (\<forall>tk a. a \<noteq> p \<longrightarrow> tok_balance T tk a (w_tok w2) = tok_balance T tk a (w_tok w) +
      (if a = who then (if tk = ps_token_a ps then x else 0) + (if tk = ps_token_b ps then y else 0) else 0))"
proof -
  have wf: "0 \<le> ps_reserve_a ps" "0 \<le> ps_reserve_b ps" "lp_base p (w_lp w)"
    "0 \<le> get_pending_lp w who" "0 \<le> pc_pending_total (w_pair w)"
    using assms(3,5) pending_nonneg by (auto simp: pair_inv_def get_pending_entry)
  obtain l where st: "e_auth e who" "0 < n" "who \<noteq> p"
    "lp_transfer (nested_env e (ps_lp_token ps)) who p n (w_lp w) = Inr l"
    "w1 = release_lock (set_pending_lp_total (get_pending_lp_total w + n)
       (set_pending_lp who m ((locked_world w)\<lparr>w_lp := l\<rparr>)))"
    using assms(1) by (cases rule: pair_deposit_lp_Inr) (use assms(4,5) in \<open>simp add: m_def\<close>)
  note moved = lp_base_transfer [OF st(4) wf(3)]
  have w1: "w_lp w1 = l" "get_pair_state w1 = Some ps" "get_pending_lp w1 who = m" "w_tok w1 = w_tok w"
    using st(2,5) wf(4) assms(5) by (simp_all add: m_def get_pending_entry entry_val_def)
  have m: "0 < m"
    using st(2) wf(4) by (simp add: m_def)
  show ?thesis
    using assms(2)
  proof (cases rule: pair_burn_Inr)
    case (1 ps0 burn_lp l2 w3 w4)
    have pend: "get_pending_lp (w1\<lparr>w_events := []\<rparr>) who = m"
      using w1(3) by (simp add: get_pending_lp_def)
    then have eqs: "ps0 = ps" "burn_lp = m"
      using 1(3,5) w1(2) m by (simp_all add: get_pair_state_def)
    have total: "lp_total_supply l = lp_total_supply (w_lp w)" "0 \<le> S"
      using moved(3,4) st(2) assms(3) lp_base_le_supply(1) [OF wf(3), of who] lp_base_le_supply(1) [OF wf(3), of p]
        wf(5) by (auto simp: pair_inv_def lp_seeded_def S_def)
    then have S: "0 < S" "x = m * ps_reserve_a ps div S" "y = m * ps_reserve_b ps div S"
      using burn_amounts_Inr [OF 1(7)] m wf(1,2) eqs w1(1) by (simp_all add: S_def)
    have burn: "lp_balance l2 who = lp_balance (w_lp w) who - n" "lp_total_supply l2 = lp_total_supply l - m"
      using lp_base_burn(3,4) [OF _ moved(1), of _ "e_self e" m l2] 1(12) eqs(2) w1(1) moved(5) st(3) assms(4)
      by (auto simp: moved_apply)
    have "get_pending_lp (clear_pending who ((locked_world (w1\<lparr>w_events := []\<rparr>))\<lparr>w_lp := l2\<rparr>)) who = 0"
      using pend m by (simp add: clear_pending_def get_pending_lp_def set_pending_lp_def set_pending_lp_total_def)
    then have w2: "w_lp w2 = l2" "get_pending_lp w2 who = 0"
      using 1(13-15) by (auto simp: res_inv get_pending_lp_def)
    have tok: "tok_balance T tk a (w_tok w2) = tok_balance T tk a (w_tok w) +
        (if a = who then (if tk = ps_token_a ps then x else 0) + (if tk = ps_token_b ps then y else 0) else 0)"
      if "a \<noteq> p" for tk a
      using 1(13-15) w1(4) eqs(1) that assms(4) transfer_moves by (auto simp: tok_call_def res_inv moved_apply)
    show ?thesis
      using st(1-3) S burn w2 tok total(1) by simp
  qed
qed

text \<open>
  A mint issues LP for everything the pool holds above its reserves, the deposit and whatever was
  sent to it before.
\<close>

lemma mint_effects:
  assumes "pair_mint T e to w = Inr (l, w')" "pair_wf p w" "e_self e = p" "to \<noteq> p" "get_pair_state w = Some ps"
  defines "S \<equiv> lp_total_supply (w_lp w)"
    and "d_a \<equiv> tok_balance T (ps_token_a ps) p (w_tok w) - ps_reserve_a ps"
    and "d_b \<equiv> tok_balance T (ps_token_b ps) p (w_tok w) - ps_reserve_b ps"
  shows "1000 \<le> l \<and> 0 < d_a \<and> 0 < d_b \<and> w_tok w' = w_tok w \<and>
    get_pair_state w' = Some (ps\<lparr>ps_reserve_a := tok_balance T (ps_token_a ps) p (w_tok w),
      ps_reserve_b := tok_balance T (ps_token_b ps) p (w_tok w),
      ps_k_last := tok_balance T (ps_token_a ps) p (w_tok w) * tok_balance T (ps_token_b ps) p (w_tok w),
      ps_timestamp_last := e_timestamp e\<rparr>) \<and>
    lp_balance (w_lp w') to = lp_balance (w_lp w) to + l \<and>
    lp_total_supply (w_lp w') = S + l + (if S = 0 then 1000 else 0) \<and>
    (if S = 0 then is_isqrt (d_a * d_b) (l + 1000)
     else l = min (d_a * S div ps_reserve_a ps) (d_b * S div ps_reserve_b ps))"
  using assms(1)
proof (cases rule: pair_mint_Inr)
  case (1 ps0 l1 l2)
  have wf: "0 \<le> ps_reserve_a ps" "0 \<le> ps_reserve_b ps" "0 \<le> S"
    using assms(2,5) lp_base_le_supply(1,2) [of p "w_lp w" p] by (auto simp: pair_inv_def S_def)
  have eqs: "ps0 = ps" "tok_held T e (ps_token_a ps) w - ps_reserve_a ps = d_a"
    "tok_held T e (ps_token_b ps) w - ps_reserve_b ps = d_b"
    using 1(4) assms(3,5) by (simp_all add: tok_held_def d_a_def d_b_def)
  have l2: "lp_balance l2 to = lp_balance l1 to + l" "lp_total_supply l2 = lp_total_supply l1 + l"
    using lp_mint_Inr [OF 1(9)] by simp_all
  have "lp_balance l1 to = lp_balance (w_lp w) to \<and> lp_total_supply l1 = S + (if S = 0 then 1000 else 0) \<and>
    (if S = 0 then is_isqrt (d_a * d_b) (l + 1000)
     else l = min (d_a * S div ps_reserve_a ps) (d_b * S div ps_reserve_b ps))"
  proof (cases "S = 0")
    case True
    then have "initial_liquidity d_a d_b = Inr l" "lp_mint (nested_env e (ps_lp_token ps)) p 1000 (w_lp w) = Inr l1"
      using 1(8) eqs assms(3) by (simp_all add: S_def)
    then show ?thesis
      using True initial_liquidity_Inr lp_mint_Inr [of _ p 1000 "w_lp w" l1] assms(4) by (simp add: S_def)
  next
    case False
    then have "subsequent_liquidity d_a d_b (ps_reserve_a ps) (ps_reserve_b ps) S = Inr l" "l1 = w_lp w"
      using 1(8) eqs by (simp_all add: S_def)
    then show ?thesis
      using False subsequent_liquidity_Inr [of d_a d_b _ _ S l] wf 1(5,6) eqs by (simp add: S_def)
  qed
  then show ?thesis
    using 1(5-7,10-12) l2 eqs assms(3) by (simp add: pair_core_def get_pair_state_def tok_held_def)
qed

text \<open>A burn redeems a share of both reserves; the seed is never redeemed.\<close>

lemma burn_effects:
  assumes "pair_burn T e to w = Inr ((a, b), w')" "pair_wf p w" "e_self e = p" "get_pair_state w = Some ps"
  defines "S \<equiv> lp_total_supply (w_lp w)"
  shows "\<exists>x. 0 < x \<and> x \<le> S - 1000 \<and> a = x * ps_reserve_a ps div (S - 1000) \<and>
    b = x * ps_reserve_b ps div (S - 1000) \<and> lp_total_supply (w_lp w') = S - x \<and>
    (\<exists>ps'. get_pair_state w' = Some ps' \<and> ps_reserve_a ps' = ps_reserve_a ps - a \<and>
       ps_reserve_b ps' = ps_reserve_b ps - b)"
  using assms(1)
proof (cases rule: pair_burn_Inr)
  case (1 ps0 x l w3 w4)
  let ?m = "pc_pending (w_pair w)" and ?t = "pc_pending_total (w_pair w)"
  have inv: "pending_ok ?m ?t" "lp_base p (w_lp w)" "lp_seeded p (w_lp w) ?t" "0 \<le> ?t"
    "0 \<le> ps_reserve_a ps" "0 \<le> ps_reserve_b ps"
    using assms(2,4) pending_nonneg(2) by (auto simp: pair_inv_def)
  have ps: "ps0 = ps"
    using 1(3) assms(4) by simp
  note burn = lp_base_burn [OF 1(12) inv(2)]
  have "1000 + ?t \<le> lp_balance (w_lp w) p"
    using inv(3) burn(2) 1(6) lp_base_le_supply(1) [OF inv(2), of p] assms(3) by (auto simp: lp_seeded_def)
  then have x: "x \<le> S - 1000"
    using 1(5) pending_le_total [OF inv(1), of to] lp_base_le_supply(1) [OF inv(2), of p] inv(4) assms(3)
    by (auto simp: get_pending_entry lp_held_def get_pending_lp_total_def S_def split: if_splits)
  have "w_lp w' = l"
    using 1(13-15) by (auto simp: res_inv)
  then show ?thesis
    using 1(6,15) x burn(4) burn_amounts_Inr [OF 1(7)] inv(5,6) ps by (intro exI [of _ x]) (simp add: S_def)
qed

text \<open>A single-sided burn: the share of both reserves, then an exchange that keeps the product.\<close>

lemma burn_single_side_effects:
  assumes "pair_burn_single_side T e to x tk m w = Inr (y, w')" "pair_wf p w" "e_self e = p" "\<not> e_auth e p"
    and "get_pair_state w = Some ps"
  defines "S \<equiv> lp_total_supply (w_lp w)"
  shows "0 < x \<and> x \<le> S - 1000 \<and> lp_total_supply (w_lp w') = S - x \<and>
    (\<exists>ps'. get_pair_state w' = Some ps' \<and> 0 \<le> ps_reserve_a ps' \<and> 0 \<le> ps_reserve_b ps' \<and>
       (ps_reserve_a ps - x * ps_reserve_a ps div (S - 1000)) * (ps_reserve_b ps - x * ps_reserve_b ps div (S - 1000))
         \<le> ps_reserve_a ps' * ps_reserve_b ps')"
  using assms(1)
proof (cases rule: pair_burn_single_side_Inr)
  case (1 ps0 fs l w2 share_p share_u out fee r_p r_u)
  have inv: "lp_base p (w_lp w)" "lp_seeded p (w_lp w) (pc_pending_total (w_pair w))"
    "0 \<le> ps_reserve_a ps" "0 \<le> ps_reserve_b ps" "0 \<le> pc_pending_total (w_pair w)" "0 \<le> fee"
    using assms(2,5) 1(4,5) pending_nonneg(2) compute_fee_bps_bounds [OF 1(14)]
    by (auto simp: pair_inv_def fee_params_def)
  have ps: "ps0 = ps"
    using 1(4) assms(5) by simp
  note burn = lp_base_burn [OF 1(8) inv(1)]
  have "to \<noteq> p"
    using 1(1) assms(4) by auto
  moreover have "1000 + pc_pending_total (w_pair w) \<le> lp_balance (w_lp w) p"
    using inv(2) burn(2) 1(6) lp_base_le_supply(1) [OF inv(1), of to] by (auto simp: lp_seeded_def)
  ultimately have x: "x \<le> S - 1000"
    using lp_base_le_supply(3) [OF inv(1), of to p] burn(2) inv(5) by (simp add: S_def)
  have r: "0 \<le> r_p" "0 \<le> r_u"
    using 1(9) inv(3,4) ps by (auto split: if_splits)
  have shares: "share_p = x * r_p div (S - 1000)" "share_u = x * r_u div (S - 1000)" "share_p \<le> r_p"
    using mul_then_div_Inr [OF 1(10)] mul_then_div_Inr [OF 1(11)] 1(6) r x share_le(2) [of x "S - 1000" r_p]
    by (simp_all add: S_def)
  have y: "y \<le> r_p"
    using single_side_out_bounds [OF 1(15)] shares(3) 1(16) by simp
  have "0 \<le> share_u * fee"
    using inv(6) 1(13) by simp
  then have k: "(r_p - share_p) * (r_u - share_u) \<le> (r_p - y) * r_u"
    using single_side_k_kept [OF 1(18)] y by simp
  have "w_lp w' = l"
    using 1(19,20) by (auto simp: res_inv)
  then show ?thesis
    using k y r shares 1(6,9,20) x burn(4) ps by (cases "tk = ps_token_a ps") (simp_all add: S_def mult.commute)
qed

end

end
