(* ===== verification/Pair_Spec.thy ===== *)
theory Pair_Spec
  imports Pair_Effects
begin

text \<open>
  The specification of a pool: two reserves and the number of shares, and the few moves that are
  allowed on them. Every run of a sound pair, with whatever happens around it, is a run of the
  specification (\<open>pair_runs_are_pool_runs\<close>); what the shares are worth is then a question about
  three numbers.
\<close>

section \<open>Labelled runs and their simulation\<close>

inductive labelled_run :: "('l \<Rightarrow> 's \<Rightarrow> 's \<Rightarrow> bool) \<Rightarrow> 'l list \<Rightarrow> 's \<Rightarrow> 's \<Rightarrow> bool" for R where
  run_done: "labelled_run R [] s s"
| run_step: "R l s s1 \<Longrightarrow> labelled_run R ls s1 s2 \<Longrightarrow> labelled_run R (l # ls) s s2"

text \<open>A simulation by a view of the states, under an invariant of the concrete ones.\<close>

locale run_simulation =
  fixes step :: "'l \<Rightarrow> 'c \<Rightarrow> 'c \<Rightarrow> bool" and spec :: "'l \<Rightarrow> 'a \<Rightarrow> 'a \<Rightarrow> bool"
    and seen :: "'c \<Rightarrow> 'a" and good :: "'c \<Rightarrow> bool"
  assumes good_step: "good c \<Longrightarrow> step l c c' \<Longrightarrow> good c'"
    and sim_step: "good c \<Longrightarrow> step l c c' \<Longrightarrow> spec l (seen c) (seen c')"
begin

lemma runs_simulated:
  "labelled_run step ls c c' \<Longrightarrow> good c \<Longrightarrow> good c' \<and> labelled_run spec ls (seen c) (seen c')"
proof (induction rule: labelled_run.induct)
  case (run_step l s s1 ls s2)
  then show ?case
    using good_step sim_step labelled_run.run_step [of spec l "seen s" "seen s1"] by blast
qed (simp add: labelled_run.run_done)

end

section \<open>The specification\<close>

record pool_spec =
  sp_a :: int
  sp_b :: int
  sp_shares :: int

text \<open>The calls of a pair fall into four kinds; views, staging, switches and the world around do nothing.\<close>

datatype pool_action = Idle | Trade | Deposit | Withdraw

text \<open>Holders may destroy their own shares at any time, but never the seed.\<close>

definition shares_left :: "int \<Rightarrow> int \<Rightarrow> bool" where
  "shares_left S S' \<longleftrightarrow> S' \<le> S \<and> (if S = 0 then S' = 0 else 1000 \<le> S')"

inductive pool_step :: "pool_action \<Rightarrow> pool_spec \<Rightarrow> pool_spec \<Rightarrow> bool" where
  pool_idle: "a \<le> a' \<Longrightarrow> b \<le> b' \<Longrightarrow> shares_left S S' \<Longrightarrow>
     pool_step Idle \<lparr>sp_a = a, sp_b = b, sp_shares = S\<rparr> \<lparr>sp_a = a', sp_b = b', sp_shares = S'\<rparr>"
| pool_trade: "0 \<le> a' \<Longrightarrow> 0 \<le> b' \<Longrightarrow> a * b \<le> a' * b' \<Longrightarrow> shares_left S S' \<Longrightarrow>
     pool_step Trade \<lparr>sp_a = a, sp_b = b, sp_shares = S\<rparr> \<lparr>sp_a = a', sp_b = b', sp_shares = S'\<rparr>"
| pool_open: "0 < x \<Longrightarrow> 0 < y \<Longrightarrow> 1000 \<le> l \<Longrightarrow> is_isqrt (x * y) (l + 1000) \<Longrightarrow>
     pool_step Deposit \<lparr>sp_a = a, sp_b = b, sp_shares = 0\<rparr>
       \<lparr>sp_a = a + x, sp_b = b + y, sp_shares = l + 1000\<rparr>"
| pool_deposit: "0 < x \<Longrightarrow> 0 < y \<Longrightarrow> 1000 \<le> l \<Longrightarrow> S \<noteq> 0 \<Longrightarrow> l = min (x * S div a) (y * S div b) \<Longrightarrow>
     pool_step Deposit \<lparr>sp_a = a, sp_b = b, sp_shares = S\<rparr>
       \<lparr>sp_a = a + x, sp_b = b + y, sp_shares = S + l\<rparr>"
| pool_withdraw: "0 < x \<Longrightarrow> x \<le> S - 1000 \<Longrightarrow>
     pool_step Withdraw \<lparr>sp_a = a, sp_b = b, sp_shares = S\<rparr>
       \<lparr>sp_a = a - x * a div (S - 1000), sp_b = b - x * b div (S - 1000), sp_shares = S - x\<rparr>"
| pool_withdraw_one: "0 < x \<Longrightarrow> x \<le> S - 1000 \<Longrightarrow> 0 \<le> a' \<Longrightarrow> 0 \<le> b' \<Longrightarrow>
     (a - x * a div (S - 1000)) * (b - x * b div (S - 1000)) \<le> a' * b' \<Longrightarrow>
     pool_step Withdraw \<lparr>sp_a = a, sp_b = b, sp_shares = S\<rparr>
       \<lparr>sp_a = a', sp_b = b', sp_shares = S - x\<rparr>"

definition pool_ok :: "pool_spec \<Rightarrow> bool" where
  "pool_ok s \<longleftrightarrow> 0 \<le> sp_a s \<and> 0 \<le> sp_b s \<and> (sp_shares s = 0 \<or> 1000 \<le> sp_shares s)"

definition sp_product :: "pool_spec \<Rightarrow> int" where
  "sp_product s = sp_a s * sp_b s"

lemma pool_ok_step:
  assumes "pool_step l s s'" "pool_ok s"
  shows "pool_ok s'"
  using assms share_le(2) [of _ "sp_shares s - 1000"]
  by cases (auto simp: pool_ok_def shares_left_def split: if_splits)

text \<open>
  The worth of a share, squared, is the product of the reserves over the square of the shares.
  Mints price shares against all of them, burns against all but the seed, so there are two
  notions of worth; \<open>n\<close> is the number of shares left out.
\<close>

definition worth_kept :: "int \<Rightarrow> pool_spec \<Rightarrow> pool_spec \<Rightarrow> bool" where
  "worth_kept n s s' \<longleftrightarrow>
     sp_product s * (sp_shares s' - n)\<^sup>2 \<le> sp_product s' * (sp_shares s - n)\<^sup>2"

lemma square_cross_le:
  fixes a b c d :: int
  assumes "0 \<le> a" "0 \<le> b" "0 \<le> s" "a * s \<le> a' * t" "b * s \<le> b' * t"
  shows "a * b * s\<^sup>2 \<le> a' * b' * t\<^sup>2"
proof -
  have "(a * s) * (b * s) \<le> (a' * t) * (b' * t)"
    using assms by (intro mult_mono [OF assms(4,5)]) (auto intro: order_trans [OF mult_nonneg_nonneg assms(4)])
  then show ?thesis by (simp add: power2_eq_square algebra_simps)
qed

lemma worth_kept_trans:
  assumes "worth_kept n s s1" "worth_kept n s1 s2" "0 \<le> sp_product s2"
    and "sp_shares s1 = n \<Longrightarrow> sp_shares s2 = n"
  shows "worth_kept n s s2"
proof (cases "sp_shares s1 = n")
  case True
  with assms(3,4) show ?thesis by (simp add: worth_kept_def)
next
  case False
  let ?p = sp_product and ?t = "\<lambda>s. (sp_shares s - n)\<^sup>2"
  have "(?p s * ?t s1) * ?t s2 \<le> (?p s1 * ?t s) * ?t s2"
    using assms(1) by (intro mult_right_mono) (simp_all add: worth_kept_def)
  also have "\<dots> = (?p s1 * ?t s2) * ?t s"
    by simp
  also have "\<dots> \<le> (?p s2 * ?t s1) * ?t s"
    using assms(2) by (intro mult_right_mono) (simp_all add: worth_kept_def)
  finally have "(?p s * ?t s2) * ?t s1 \<le> (?p s2 * ?t s) * ?t s1"
    by (simp add: mult_ac)
  with False show ?thesis
    by (simp add: worth_kept_def mult_le_cancel_right)
qed

text \<open>Nothing but a burn lowers the worth of a share counted against all shares.\<close>

lemma deposits_keep_worth:
  assumes "pool_step l s s'" "l \<noteq> Withdraw" "pool_ok s" "0 < sp_shares s"
  shows "worth_kept 0 s s' \<and> 0 < sp_shares s'"
  using assms(1)
proof cases
  case (pool_idle a a' b b' S S')
  then have "a * S' \<le> a' * S" "b * S' \<le> b' * S"
    using assms(3,4) by (auto simp: pool_ok_def shares_left_def split: if_splits intro!: mult_mono)
  then show ?thesis
    using square_cross_le [of a b S' a' S b'] pool_idle assms(3,4)
    by (auto simp: worth_kept_def sp_product_def pool_ok_def shares_left_def split: if_splits)
next
  case (pool_trade a' b' a b S S')
  then have "S'\<^sup>2 \<le> S\<^sup>2" "0 \<le> a * b"
    using assms(3,4) by (auto simp: pool_ok_def shares_left_def split: if_splits intro!: power_mono)
  then show ?thesis
    using pool_trade assms(3,4) mult_mono [of "a * b" "a' * b'" "S'\<^sup>2" "S\<^sup>2"]
    by (auto simp: worth_kept_def sp_product_def shares_left_def split: if_splits)
next
  case (pool_deposit x y m S a b)
  then have pos: "0 < a" "0 < b" "0 < S"
    using assms(3,4) by (auto simp: pool_ok_def less_le)
  have "m \<le> x * S div a" "m \<le> y * S div b"
    using pool_deposit(8) by simp_all
  then have "m * a \<le> x * S" "m * b \<le> y * S"
    using pos by (simp_all add: le_floor_iff)
  then have "a * (S + m) \<le> (a + x) * S" "b * (S + m) \<le> (b + y) * S"
    by (simp_all add: algebra_simps)
  then show ?thesis
    using square_cross_le [of a b "S + m" "a + x" S "b + y"] pool_deposit(2,3,6) pos
    by (simp add: worth_kept_def sp_product_def)
qed (use assms(2,4) in auto)

text \<open>Nothing but a deposit lowers the worth of a share counted without the seed.\<close>

lemma share_left_over:
  fixes r x T :: int
  assumes "0 \<le> r" "0 < T"
  shows "r * (T - x) \<le> (r - x * r div T) * T"
proof -
  have "(x * r div T) * T \<le> x * r"
    using assms(2) by (simp add: le_floor_iff [symmetric])
  then show ?thesis by (simp add: algebra_simps)
qed

lemma share_taken:
  fixes a b x T :: int
  assumes "0 \<le> a" "0 \<le> b" "0 < T" "x \<le> T"
  shows "a * b * (T - x)\<^sup>2 \<le> (a - x * a div T) * (b - x * b div T) * T\<^sup>2"
  using assms share_left_over [of a T x] share_left_over [of b T x]
  by (intro square_cross_le) simp_all

lemma withdrawals_keep_worth:
  assumes "pool_step l s s'" "l \<noteq> Deposit" "pool_ok s" "1000 \<le> sp_shares s"
  shows "worth_kept 1000 s s' \<and> 1000 \<le> sp_shares s' \<and> sp_shares s' \<le> sp_shares s"
  using assms(1)
proof cases
  case (pool_idle a a' b b' S S')
  then have "a * (S' - 1000) \<le> a' * (S - 1000)" "b * (S' - 1000) \<le> b' * (S - 1000)"
    using assms(3,4) by (auto simp: pool_ok_def shares_left_def split: if_splits intro!: mult_mono)
  then show ?thesis
    using square_cross_le [of a b "S' - 1000" a' "S - 1000" b'] pool_idle assms(3,4)
    by (auto simp: worth_kept_def sp_product_def pool_ok_def shares_left_def split: if_splits)
next
  case (pool_trade a' b' a b S S')
  then have "(S' - 1000)\<^sup>2 \<le> (S - 1000)\<^sup>2" "0 \<le> a * b"
    using assms(3,4) by (auto simp: pool_ok_def shares_left_def split: if_splits intro!: power_mono)
  then show ?thesis
    using pool_trade assms(3,4) mult_mono [of "a * b" "a' * b'" "(S' - 1000)\<^sup>2" "(S - 1000)\<^sup>2"]
    by (auto simp: worth_kept_def sp_product_def shares_left_def split: if_splits)
next
  case (pool_withdraw x S a b)
  then show ?thesis
    using assms(3) share_taken [of a b "S - 1000" x]
    by (simp add: worth_kept_def sp_product_def pool_ok_def diff_right_commute [of S x 1000])
next
  case (pool_withdraw_one x S a' b' a b)
  let ?T = "S - 1000"
  have "a * b * (?T - x)\<^sup>2 \<le> (a - x * a div ?T) * (b - x * b div ?T) * ?T\<^sup>2"
    using assms(3) pool_withdraw_one by (intro share_taken) (simp_all add: pool_ok_def)
  also have "\<dots> \<le> a' * b' * ?T\<^sup>2"
    using pool_withdraw_one by (intro mult_right_mono) simp_all
  finally show ?thesis
    using pool_withdraw_one by (simp add: worth_kept_def sp_product_def algebra_simps)
qed (use assms(2) in auto)

lemma trades_keep_product:
  assumes "pool_step l s s'" "l \<noteq> Deposit" "l \<noteq> Withdraw" "pool_ok s"
  shows "sp_product s \<le> sp_product s'"
  using assms by cases (auto simp: sp_product_def pool_ok_def intro: mult_mono)

section \<open>Runs of the specification\<close>

lemma sp_product_nonneg: "pool_ok s \<Longrightarrow> 0 \<le> sp_product s"
  by (simp add: pool_ok_def sp_product_def)

lemma pool_ok_run: "labelled_run pool_step ls s s' \<Longrightarrow> pool_ok s \<Longrightarrow> pool_ok s'"
  by (induction rule: labelled_run.induct) (auto intro: pool_ok_step)

lemma runs_without_withdrawals:
  "labelled_run pool_step ls s s' \<Longrightarrow> Withdraw \<notin> set ls \<Longrightarrow> pool_ok s \<Longrightarrow> 0 < sp_shares s \<Longrightarrow>
    worth_kept 0 s s' \<and> 0 < sp_shares s'"
proof (induction rule: labelled_run.induct)
  case (run_step l s s1 ls s2)
  then have "worth_kept 0 s s1 \<and> 0 < sp_shares s1" "pool_ok s1"
    using deposits_keep_worth pool_ok_step by auto
  then show ?case
    using run_step worth_kept_trans [of 0 s s1 s2] pool_ok_run sp_product_nonneg by fastforce
qed (simp add: worth_kept_def)

lemma runs_without_deposits:
  "labelled_run pool_step ls s s' \<Longrightarrow> Deposit \<notin> set ls \<Longrightarrow> pool_ok s \<Longrightarrow> 1000 \<le> sp_shares s \<Longrightarrow>
    worth_kept 1000 s s' \<and> 1000 \<le> sp_shares s' \<and> sp_shares s' \<le> sp_shares s"
proof (induction rule: labelled_run.induct)
  case (run_step l s s1 ls s2)
  then have "worth_kept 1000 s s1 \<and> 1000 \<le> sp_shares s1 \<and> sp_shares s1 \<le> sp_shares s" "pool_ok s1"
    using withdrawals_keep_worth pool_ok_step by auto
  then show ?case
    using run_step worth_kept_trans [of 1000 s s1 s2] pool_ok_run sp_product_nonneg by fastforce
qed (simp add: worth_kept_def)

lemma runs_of_trades:
  "labelled_run pool_step ls s s' \<Longrightarrow> Deposit \<notin> set ls \<Longrightarrow> Withdraw \<notin> set ls \<Longrightarrow> pool_ok s \<Longrightarrow>
    sp_product s \<le> sp_product s'"
proof (induction rule: labelled_run.induct)
  case (run_step l s s1 ls s2)
  then show ?case
    using trades_keep_product [of l s s1] pool_ok_step by fastforce
qed simp

section \<open>The pair refines the specification\<close>

definition spec_of :: "'tok world \<Rightarrow> pool_spec" where
  "spec_of w = \<lparr>sp_a = (case get_pair_state w of None \<Rightarrow> 0 | Some ps \<Rightarrow> ps_reserve_a ps),
     sp_b = (case get_pair_state w of None \<Rightarrow> 0 | Some ps \<Rightarrow> ps_reserve_b ps),
     sp_shares = lp_total_supply (w_lp w)\<rparr>"

fun action_of :: "pair_call \<Rightarrow> pool_action" where
  "action_of (PC_mint to) = Deposit"
| "action_of (PC_mint_with_one_token to tk x m) = Deposit"
| "action_of (PC_burn to) = Withdraw"
| "action_of (PC_burn_single_side to x tk m) = Withdraw"
| "action_of (PC_swap a b to) = Trade"
| "action_of (PC_flash_loan r a b d) = Trade"
| "action_of _ = Idle"

text \<open>
  A turn of the pair: a call by somebody else, without single-sided mints, or a move of the
  world around it.
\<close>

inductive pair_turn ::
  "'tok token_ops \<Rightarrow> address \<Rightarrow> pool_action \<Rightarrow> 'tok world \<Rightarrow> 'tok world \<Rightarrow> bool" for T self where
  turn_call: "\<not> single_sided_mint op \<Longrightarrow> e_self e = self \<Longrightarrow> \<not> e_auth e self \<Longrightarrow> receiver_ok T self recv \<Longrightarrow>
     factory_view_typed fv \<Longrightarrow> \<forall>bps. fv_fee_override fv self = Some (Some bps) \<longrightarrow> bps \<le> 10000 \<Longrightarrow>
     pair_step T fv recv e op w = Inr w' \<Longrightarrow> pair_turn T self (action_of op) w w'"
| turn_outside: "outside T self w w' \<Longrightarrow> pair_turn T self Idle w w'"

text \<open>The pairs whose accounting is in order and whose reserves are covered.\<close>

definition sound_pool :: "'tok token_ops \<Rightarrow> address \<Rightarrow> 'tok world \<Rightarrow> bool" where
  "sound_pool T self w \<longleftrightarrow> pair_wf self w \<and> backed T self w"

lemma spec_of_Some:
  "get_pair_state w = Some ps \<Longrightarrow>
    spec_of w = \<lparr>sp_a = ps_reserve_a ps, sp_b = ps_reserve_b ps, sp_shares = lp_total_supply (w_lp w)\<rparr>"
  by (simp add: spec_of_def)

lemma seeded_supply:
  "lp_seeded self l t \<Longrightarrow> lp_base self l \<Longrightarrow> 0 \<le> t \<Longrightarrow> lp_total_supply l = 0 \<or> 1000 \<le> lp_total_supply l"
  using lp_base_le_supply(1) [of self l self] by (auto simp: lp_seeded_def)

lemma pair_wf_spec_ok: "pair_wf self w \<Longrightarrow> pool_ok (spec_of w)"
  using seeded_supply [of self "w_lp w"] pending_nonneg(2)
  by (auto simp: pair_inv_def pool_ok_def spec_of_def)

lemma harmless_shares_left:
  assumes "pair_inv i self w" "harmless T self w w'"
  shows "shares_left (lp_total_supply (w_lp w)) (lp_total_supply (w_lp w'))"
proof -
  have inv: "lp_base self (w_lp w)" "lp_seeded self (w_lp w) (pc_pending_total (w_pair w))"
    "0 \<le> pc_pending_total (w_pair w)"
    using assms(1) pending_nonneg(2) by (auto simp: pair_inv_def)
  then have out: "lp_outside_ok self (w_lp w) (w_lp w')"
    using assms(2) by (simp add: harmless_def)
  then show ?thesis
    using inv lp_base_le_supply(1) [of self "w_lp w'" self] lp_base_le_supply(2) [of self "w_lp w'" self]
    by (auto simp: shares_left_def lp_outside_ok_def lp_seeded_def)
qed

lemma harmless_is_idle:
  assumes "pair_wf self w" "harmless T self w w'"
  shows "pool_step Idle (spec_of w) (spec_of w')"
proof -
  obtain ps where ps: "get_pair_state w = Some ps"
    using assms(1) by (auto simp: pair_inv_def)
  moreover have "get_pair_state w' = Some ps"
    using ps assms(2) by (auto simp: harmless_def pair_core_def get_pair_state_def)
  ultimately show ?thesis
    using harmless_shares_left [OF assms] by (auto simp: spec_of_Some intro: pool_idle)
qed

lemma shares_left_same: "S = 0 \<or> 1000 \<le> S \<Longrightarrow> shares_left S S"
  by (auto simp: shares_left_def)

context sep41_funded begin

lemma mint_is_deposit:
  assumes "pair_mint T e to w = Inr (l, w')" "pair_wf self w" "e_self e = self" "\<not> e_auth e self"
  shows "pool_step Deposit (spec_of w) (spec_of w')"
proof -
  obtain ps where ps: "get_pair_state w = Some ps"
    using assms(2) by (auto simp: pair_inv_def)
  have "to \<noteq> self"
    using assms(1,4) by (cases rule: pair_mint_Inr) auto
  note eff = mint_effects [OF assms(1-3) this ps]
  let ?x = "tok_balance T (ps_token_a ps) self (w_tok w) - ps_reserve_a ps"
  let ?y = "tok_balance T (ps_token_b ps) self (w_tok w) - ps_reserve_b ps"
  show ?thesis
  proof (cases "lp_total_supply (w_lp w) = 0")
    case True
    then show ?thesis
      using eff ps pool_open [of ?x ?y l "ps_reserve_a ps" "ps_reserve_b ps"] by (simp add: spec_of_Some)
  next
    case False
    have "1000 \<le> l" "0 < ?x" "0 < ?y"
      using eff by blast+
    moreover have "l = min (?x * lp_total_supply (w_lp w) div ps_reserve_a ps)
        (?y * lp_total_supply (w_lp w) div ps_reserve_b ps)"
      using eff False by simp
    ultimately have "pool_step Deposit (spec_of w) \<lparr>sp_a = ps_reserve_a ps + ?x, sp_b = ps_reserve_b ps + ?y,
        sp_shares = lp_total_supply (w_lp w) + l\<rparr>"
      unfolding spec_of_Some [OF ps] using False by (intro pool_deposit)
    then show ?thesis
      using eff False by (simp add: spec_of_Some)
  qed
qed

lemma burn_is_withdrawal:
  assumes "pair_burn T e to w = Inr (ab, w')" "pair_wf self w" "e_self e = self"
  shows "pool_step Withdraw (spec_of w) (spec_of w')"
proof -
  obtain ps where ps: "get_pair_state w = Some ps"
    using assms(2) by (auto simp: pair_inv_def)
  obtain a b where ab: "ab = (a, b)" by fastforce
  from burn_effects [OF assms(1) [unfolded ab] assms(2,3) ps] show ?thesis
    using ps pool_withdraw [of _ "lp_total_supply (w_lp w)" "ps_reserve_a ps" "ps_reserve_b ps"]
    by (auto simp: spec_of_Some)
qed

lemma burn_single_side_is_withdrawal:
  assumes "pair_burn_single_side T e to x tk m w = Inr (y, w')" "pair_wf self w" "e_self e = self"
    "\<not> e_auth e self"
  shows "pool_step Withdraw (spec_of w) (spec_of w')"
proof -
  obtain ps where ps: "get_pair_state w = Some ps"
    using assms(2) by (auto simp: pair_inv_def)
  from burn_single_side_effects [OF assms ps] show ?thesis
    using ps pool_withdraw_one [of x "lp_total_supply (w_lp w)"] by (auto simp: spec_of_Some)
qed

lemma swap_is_trade:
  assumes "pair_swap T fv e a b to w = Inr (u, w')" "pair_wf self w" "e_self e = self"
    "factory_view_typed fv" "\<forall>bps. fv_fee_override fv self = Some (Some bps) \<longrightarrow> bps \<le> 10000"
  shows "pool_step Trade (spec_of w) (spec_of w')"
proof -
  obtain ps where ps: "get_pair_state w = Some ps"
    using assms(2) by (auto simp: pair_inv_def)
  obtain v where "swap_outcome T fv e ps (locked_world w) v" "w' = release_lock v"
    using pair_swap_outcome [OF assms ps] by blast
  then show ?thesis
    using ps pair_wf_spec_ok [OF assms(2)]
    by (auto simp: spec_of_Some swap_outcome_def pool_ok_def intro!: pool_trade shares_left_same)
qed

lemma loan_is_trade:
  assumes "pair_flash_loan T recv e r x y d w = Inr (u, w')" "pair_wf self w" "e_self e = self"
    "receiver_ok T self recv"
  shows "pool_step Trade (spec_of w) (spec_of w')"
proof -
  have wf: "pair_wf self w'"
    using pair_flash_loan_wf [OF assms] by simp
  obtain ps where ps: "get_pair_state w = Some ps"
    using assms(2) by (auto simp: pair_inv_def)
  show ?thesis
  proof (cases "x = 0 \<and> y = 0")
    case True
    then have "w' = w"
      using assms(1) by (auto simp: pair_flash_loan_def execute_flash_loan_def res_inv)
    then show ?thesis
      using ps pair_wf_spec_ok [OF assms(2)]
      by (auto simp: spec_of_Some pool_ok_def intro!: pool_trade shares_left_same)
  next
    case False
    then have "x \<noteq> 0 \<or> y \<noteq> 0" by blast
    with assms(1) show ?thesis
    proof (cases rule: pair_flash_loan_Inr)
      case (1 ps0 fee_a fee_b w1 w2 w3 bps)
      note callback = loan_callback [OF 1(11-13) assms(4,2)]
      have "shares_left (lp_total_supply (w_lp w)) (lp_total_supply (w_lp w'))"
        using harmless_shares_left [OF callback(1,2)] callback(3) 1(17) by simp
      then show ?thesis
        using 1(3,16,17) ps wf by (auto simp: spec_of_Some pair_inv_def intro!: pool_trade)
    qed
  qed
qed

lemma sync_is_idle:
  assumes "pair_sync T e w = Inr (u, w')" "sound_pool T self w" "e_self e = self"
  shows "pool_step Idle (spec_of w) (spec_of w') \<and> sound_pool T self w'"
  using assms(1)
proof (cases rule: pair_sync_Inr)
  case (1 ps)
  have inv: "pair_wf self w" "backed T self w" "0 \<le> ps_reserve_a ps" "0 \<le> ps_reserve_b ps"
    using assms(2) 1(2) by (auto simp: sound_pool_def pair_inv_def)
  then have held: "ps_reserve_a ps \<le> tok_held T e (ps_token_a ps) w"
    "ps_reserve_b ps \<le> tok_held T e (ps_token_b ps) w"
    using 1(2) assms(3) by (auto simp: backed_def tok_held_def)
  have "sound_pool T self w'"
    using inv held 1(2,3) assms(3) by (auto simp: sound_pool_def pair_inv_def backed_def tok_held_def)
  moreover have "pool_step Idle (spec_of w) (spec_of w')"
    using held 1(2,3) pair_wf_spec_ok [OF inv(1)]
    by (auto simp: spec_of_Some pool_ok_def intro!: pool_idle shares_left_same)
  ultimately show ?thesis by blast
qed

lemma staging_is_idle:
  assumes "pair_deposit_lp e from x w = Inr (u, w')" "pair_wf self w"
  shows "pool_step Idle (spec_of w) (spec_of w')"
  using assms(1)
proof (cases rule: pair_deposit_lp_Inr)
  case (1 ps l)
  have "lp_total_supply l = lp_total_supply (w_lp w)"
    using lp_base_transfer(4) [OF 1(6), of self] assms(2) by (simp add: pair_inv_def)
  then show ?thesis
    using 1(3,7) pair_wf_spec_ok [OF assms(2)]
    by (auto simp: spec_of_Some pool_ok_def intro!: pool_idle shares_left_same)
qed

lemma call_refines:
  assumes "pair_step T fv recv e op w = Inr w'" "sound_pool T self w" "\<not> single_sided_mint op"
    "e_self e = self" "\<not> e_auth e self" "receiver_ok T self recv" "factory_view_typed fv"
    "\<forall>bps. fv_fee_override fv self = Some (Some bps) \<longrightarrow> bps \<le> 10000"
  shows "pool_step (action_of op) (spec_of w) (spec_of w')" (is ?sim) "sound_pool T self w'" (is ?sound)
proof -
  have wf: "pair_wf self w"
    using assms(2) by (simp add: sound_pool_def)
  have "op \<noteq> PC_sync \<Longrightarrow> ?sound"
    using pair_step_wf [OF assms(1) wf assms(4-8)] assms(2,3) by (simp add: sound_pool_def)
  moreover have "op = PC_sync \<Longrightarrow> ?sound"
    using sync_is_idle assms(1,2,4) by auto
  ultimately show ?sound by blast
  show ?sim
  proof (cases op)
    case (PC_mint to)
    then show ?thesis using assms(1) mint_is_deposit [OF _ wf assms(4,5)] by auto
  next
    case (PC_burn to)
    then show ?thesis using assms(1) burn_is_withdrawal [OF _ wf assms(4)] by auto
  next
    case (PC_burn_single_side to x tk m)
    then show ?thesis using assms(1) burn_single_side_is_withdrawal [OF _ wf assms(4,5)] by auto
  next
    case (PC_swap a b to)
    then show ?thesis using assms(1) swap_is_trade [OF _ wf assms(4,7,8)] by auto
  next
    case (PC_flash_loan r a b d)
    then show ?thesis using assms(1) loan_is_trade [OF _ wf assms(4,6)] by auto
  next
    case (PC_deposit_lp f x)
    then show ?thesis using assms(1) staging_is_idle [OF _ wf] by auto
  next
    case PC_sync
    then show ?thesis using assms(1) sync_is_idle [OF _ assms(2,4)] by auto
  qed (use assms(1,3) harmless_is_idle [OF wf admin_step_harmless [OF assms(1)]] in auto)
qed

lemma outside_refines:
  assumes "outside T self w w'" "sound_pool T self w"
  shows "pool_step Idle (spec_of w) (spec_of w')" "sound_pool T self w'"
  using assms(2) harmless_is_idle [OF _ outside_harmless [OF assms(1)]]
    pair_inv_harmless [OF _ outside_harmless [OF assms(1)]]
  by (auto simp: sound_pool_def)

end

text \<open>The pool at one address, as a simulation of the specification.\<close>

locale pool_host = sep41_funded T for T :: "'tok token_ops" + fixes self :: address

sublocale pool_host \<subseteq> pool: run_simulation "pair_turn T self" pool_step spec_of "sound_pool T self"
proof unfold_locales
  fix l and c c' :: "'tok world"
  assume "sound_pool T self c" "pair_turn T self l c c'"
  then show "sound_pool T self c'" "pool_step l (spec_of c) (spec_of c')"
    by (auto elim!: pair_turn.cases intro: call_refines outside_refines)
qed

context pool_host begin

lemma runs_refine:
  assumes "labelled_run (pair_turn T self) ls w w'" "sound_pool T self w"
  shows "sound_pool T self w' \<and> labelled_run pool_step ls (spec_of w) (spec_of w')"
  using assms by (rule pool.runs_simulated)

end

interpretation bank_pool: pool_host bank_ops self for self
  by unfold_locales

lemma sound_pool_spec_ok: "sound_pool T self w \<Longrightarrow> pool_ok (spec_of w)"
  by (auto simp: sound_pool_def intro: pair_wf_spec_ok)

end
