(* ===== verification/Pair_Props.thy ===== *)
theory Pair_Props
  imports Pair_Safety
begin

text \<open>
  The properties of the pair contract, and the concrete pool on which their witnesses run: two
  tokens of the repository's own \<open>LpToken\<close> code, a million of each in the pool, a million LP
  of which the pair holds the seed.
\<close>

section \<open>A concrete pool\<close>

definition ex_token :: "(address \<rightharpoonup> int) \<Rightarrow> lp_state" where
  "ex_token m = lp_empty\<lparr>lp_balances := m, lp_admin := Some (Address 70)\<rparr>"

definition ex_tokens :: "int \<Rightarrow> int \<Rightarrow> bank" where
  "ex_tokens a b = (\<lambda>tk. if tk = Address 10 then ex_token [Address 100 \<mapsto> a, Address 1 \<mapsto> 5000000]
     else if tk = Address 11 then ex_token [Address 100 \<mapsto> b, Address 1 \<mapsto> 5000000]
     else lp_empty)"

definition ex_storage :: pair_storage where
  "ex_storage = \<lparr>ps_factory = Address 99, ps_token_a = Address 10, ps_token_b = Address 11,
     ps_lp_token = Address 50, ps_reserve_a = 1000000, ps_reserve_b = 1000000,
     ps_timestamp_last = 0, ps_k_last = 1000000000000\<rparr>"

definition ex_pair :: pair_contract where
  "ex_pair = pair_deployed\<lparr>pc_state := Some ex_storage, pc_fee := Some initial_fee_state\<rparr>"

definition ex_pool_lp :: lp_state where
  "ex_pool_lp = lp_empty\<lparr>lp_balances := [Address 100 \<mapsto> 1000, Address 1 \<mapsto> 999000],
     lp_total_supply := 1000000, lp_admin := Some (Address 100)\<rparr>"

text \<open>The pool, holding \<open>a\<close> and \<open>b\<close> of its tokens.\<close>

definition ex_world :: "int \<Rightarrow> int \<Rightarrow> bank world" where
  "ex_world a b = \<lparr>w_pair = ex_pair, w_lp = ex_pool_lp, w_tok = ex_tokens a b, w_events = []\<rparr>"

definition ex_view :: factory_view where
  "ex_view = \<lparr>fv_fee_override = (\<lambda>_. Some None), fv_fee_to = Some (Some (Address 60)),
     fv_fee_bps = Some 1000, fv_is_pair = (\<lambda>_. Some False), fv_is_lp_token = (\<lambda>_. Some False)\<rparr>"

definition pool_env :: env where
  "pool_env = \<lparr>e_timestamp = 5000, e_sequence = 40, e_self = Address 100, e_auth = (\<lambda>a. a = Address 1)\<rparr>"

text \<open>What evaluating an entry point on the concrete pool unfolds.\<close>

lemmas pool_defs = ex_token_def ex_tokens_def ex_storage_def ex_pair_def ex_pool_lp_def
  ex_world_def ex_view_def pool_env_def pair_deployed_def initial_fee_state_def lp_empty_def
  DEFAULT_STALE_LEDGER_THRESHOLD_def

lemmas call_defs = with_guard_def acquire_lock_def ensure_not_frozen_def
  ensure_lp_token_not_paused_def get_pair_state_def get_fee_state_def tok_held_def tok_call_def
  pay_out_def bank_ops_def bank_transfer_def lp_transfer_def lp_transfer_internal_def
  lp_is_paused_def lp_balance_def lp_write_balance_def lp_publish_def set_pair_def
  lp_client_mint_def lp_client_burn_def lp_client_transfer_def lp_held_def lp_mint_def lp_burn_def
  lp_burn_balance_def MAX_MINT_PER_CALL_def MAX_TOTAL_SUPPLY_def MINIMUM_LIQUIDITY_def

lemmas swap_defs = swap_inner_def check_outputs_def decay_stale_ema_def compute_fee_bps_def
  clampR_def effective_fee_def swap_input_def adjusted_balance_def check_k_def
  collect_protocol_fee_def protocol_cut_def track_volatility_def scaled_price_def
  update_volatility_def volatility_observation_def ema_blend_def cap_accumulator_def
  PRICE_SCALE_def FEE_SCALE_def SCALE_TO_BPS_def

text \<open>A swap of the concrete pool: 10000 of the first token for 9860 of the second.\<close>

lemma ex_swap_ok:
  "\<exists>w'. pair_swap bank_ops ex_view pool_env 0 9860 (Address 1) (ex_world 1010000 1000000) = Inr ((), w')"
  by (simp add: pair_swap_def swap_defs call_defs pool_defs policy_defs int_ops_defs apply_time_decay_def)

section \<open>Swaps\<close>

text \<open>
  C4. A successful swap never lowers the constant product of the reserves, even after the
  protocol's share of the fee has been paid out, and leaves both reserves non-negative. Relied
  on: the SEP-41 contract of the pool tokens, and a fee (dynamic or override) of at most 100%.
\<close>

theorem swap_keeps_k:
  assumes "sep41 T" "pair_swap T fv e a_out b_out to w = Inr (u, w')"
    and "get_pair_state w = Some ps" "ps_token_a ps \<noteq> ps_token_b ps"
    and "0 \<le> ps_reserve_a ps" "0 \<le> ps_reserve_b ps"
    and "get_fee_state w = Some fs" "0 \<le> min_fee_bps fs" "max_fee_bps fs \<le> 10000"
    and "factory_view_typed fv"
    and "\<forall>bps. fv_fee_override fv (e_self e) = Some (Some bps) \<longrightarrow> bps \<le> 10000"
  shows "\<exists>ps'. get_pair_state w' = Some ps' \<and>
    ps_reserve_a ps * ps_reserve_b ps \<le> ps_reserve_a ps' * ps_reserve_b ps' \<and>
    0 \<le> ps_reserve_a ps' \<and> 0 \<le> ps_reserve_b ps' \<and>
    ps_k_last ps' = ps_reserve_a ps' * ps_reserve_b ps'"
proof -
  obtain v where v: "swap_inner T fv e a_out b_out to (locked_world w) = Inr (u, v)" "w' = release_lock v"
    using assms(2) by (auto simp: pair_swap_def with_guard_Inr res_inv)
  show ?thesis
    using sep41.swap_inner_outcome [OF assms(1) v(1) _ assms(4-6) _ assms(8-11)] assms(3,7) v(2)
    by (auto simp: swap_outcome_def)
qed

lemma ex_view_typed [simp]: "factory_view_typed ex_view" "fv_fee_override ex_view p = Some None"
  "fv_fee_to ex_view = Some (Some (Address 60))"
  by (simp_all add: factory_view_typed_def ex_view_def int_ops_defs)

lemma pool_env_simps [simp]:
  "e_self pool_env = Address 100" "e_auth pool_env a = (a = Address 1)"
  by (simp_all add: pool_env_def)

lemma ex_world_state [simp]:
  "get_pair_state (ex_world a b) = Some ex_storage"
  "get_fee_state (ex_world a b) = Some initial_fee_state"
  by (simp_all add: ex_world_def ex_pair_def get_pair_state_def get_fee_state_def)

theorem swap_keeps_k_witness:
  "\<exists>w' ps'. pair_swap bank_ops ex_view pool_env 0 9860 (Address 1) (ex_world 1010000 1000000) = Inr ((), w')
     \<and> get_pair_state w' = Some ps' \<and> 1000000000000 \<le> ps_reserve_a ps' * ps_reserve_b ps'"
proof -
  obtain w' where w': "pair_swap bank_ops ex_view pool_env 0 9860 (Address 1)
      (ex_world 1010000 1000000) = Inr ((), w')"
    using ex_swap_ok by blast
  then show ?thesis
    using swap_keeps_k [OF lp_bank.sep41_axioms w' ex_world_state(1) _ _ _ ex_world_state(2)]
    by (auto simp: ex_storage_def initial_fee_state_def)
qed

text \<open>
  After a successful swap the recorded reserves are exactly the pair's token balances
  (whatever was donated before is absorbed), the LP token is untouched, and so is everybody's
  staged LP. The factory's fee receiver is assumed not to be the pair itself.
\<close>

theorem swap_reserves_are_balances:
  assumes "sep41 T" "pair_swap T fv e a_out b_out to w = Inr (u, w')"
    and "get_pair_state w = Some ps" "ps_token_a ps \<noteq> ps_token_b ps"
    and "0 \<le> ps_reserve_a ps" "0 \<le> ps_reserve_b ps"
    and "get_fee_state w = Some fs" "0 \<le> min_fee_bps fs" "max_fee_bps fs \<le> 10000"
    and "factory_view_typed fv"
    and "\<forall>bps. fv_fee_override fv (e_self e) = Some (Some bps) \<longrightarrow> bps \<le> 10000"
    and "fv_fee_to fv \<noteq> Some (Some (e_self e))"
  shows "\<exists>ps'. get_pair_state w' = Some ps' \<and>
    ps_reserve_a ps' = tok_held T e (ps_token_a ps) w' \<and>
    ps_reserve_b ps' = tok_held T e (ps_token_b ps) w' \<and>
    w_lp w' = w_lp w \<and> get_pending_lp w' = get_pending_lp w"
proof -
  obtain v where v: "swap_inner T fv e a_out b_out to (locked_world w) = Inr (u, v)" "w' = release_lock v"
    using assms(2) by (auto simp: pair_swap_def with_guard_Inr res_inv)
  show ?thesis
    using sep41.swap_inner_outcome [OF assms(1) v(1) _ assms(4-6) _ assms(8-11)] assms(3,7,12) v(2)
    by (auto simp: swap_outcome_def get_pending_lp_def fun_eq_iff)
qed

text \<open>
  C36. An output amount is not required to be non-negative. A caller who pays in \<open>d\<close> of the
  first token and asks for \<open>1 - d\<close> of it (a negative amount) gets its input counted as 1, so
  that the fee-adjusted K check charges the fee on one unit instead of on \<open>d\<close>.
\<close>

theorem swap_negative_output_evades_fee:
  assumes "sep41 T" "get_pair_state w = Some ps" "ps_token_a ps \<noteq> ps_token_b ps"
    and "d = tok_held T e (ps_token_a ps) w - ps_reserve_a ps" "1 \<le> d" "to \<noteq> e_self e"
    and "pair_swap T fv e (1 - d) b_out to w = Inr (u, w')"
  shows "\<exists>b_in fee. last (w_events w') =
    PE_swap to (ps_token_a ps) (ps_token_b ps) 1 b_in (1 - d) b_out fee to"
proof -
  obtain v where v: "swap_inner T fv e (1 - d) b_out to (locked_world w) = Inr (u, v)" "w' = release_lock v"
    using assms(7) by (auto simp: pair_swap_def with_guard_Inr res_inv)
  from v(1) show ?thesis
  proof (cases rule: swap_inner_cases)
    case (1 ps0 fs0 fs dyn w1 w2 in_a in_b pf_a pf_b w3 fs')
    have ps: "ps0 = ps"
      using 1(2) assms(2) by simp
    have "tok_held T e (ps_token_a ps) w2 = tok_held T e (ps_token_a ps) w"
      using sep41.pay_out_held [OF assms(1) 1(7), of "ps_token_a ps"]
        sep41.pay_out_held [OF assms(1) 1(8), of "ps_token_a ps"] assms(3,5) ps by simp
    then have "in_a = 1"
      using 1(9) assms(4) by (simp add: swap_input_Inr ps)
    then show ?thesis
      using 1(15) v(2) ps by simp
  qed
qed

theorem swap_negative_output_evades_fee_witness:
  "pair_swap bank_ops ex_view pool_env 0 90909 (Address 1) (ex_world 1100000 1000000)
     = Inl (Err P_InvalidK) \<and>
   (\<exists>w' b_in fee. pair_swap bank_ops ex_view pool_env (- 99999) 90909 (Address 1)
       (ex_world 1100000 1000000) = Inr ((), w') \<and>
     last (w_events w') = PE_swap (Address 1) (Address 10) (Address 11) 1 b_in (- 99999) 90909 fee (Address 1))"
proof
  show "pair_swap bank_ops ex_view pool_env 0 90909 (Address 1) (ex_world 1100000 1000000)
     = Inl (Err P_InvalidK)"
    by (simp add: pair_swap_def swap_defs call_defs pool_defs policy_defs int_ops_defs apply_time_decay_def)
  have "\<exists>w'. pair_swap bank_ops ex_view pool_env (- 99999) 90909 (Address 1)
       (ex_world 1100000 1000000) = Inr ((), w')"
    by (simp add: pair_swap_def swap_defs call_defs pool_defs policy_defs int_ops_defs apply_time_decay_def)
  then obtain w' where w': "pair_swap bank_ops ex_view pool_env (1 - 100000) 90909 (Address 1)
       (ex_world 1100000 1000000) = Inr ((), w')"
    by auto
  show "\<exists>w' b_in fee. pair_swap bank_ops ex_view pool_env (- 99999) 90909 (Address 1)
       (ex_world 1100000 1000000) = Inr ((), w') \<and>
     last (w_events w') = PE_swap (Address 1) (Address 10) (Address 11) 1 b_in (- 99999) 90909 fee (Address 1)"
    using swap_negative_output_evades_fee [OF lp_bank.sep41_axioms ex_world_state(1) _ _ _ _ w'] w'
    by (simp add: ex_storage_def tok_held_def bank_ops_def ex_world_def ex_tokens_def ex_token_def
        lp_balance_def pool_env_def)
qed

section \<open>Liquidity\<close>

text \<open>
  A successful mint credits exactly the tokens the pair holds above its reserves, at least
  \<open>MINIMUM_RESERVE\<close> of each. The first deposit issues the integer square root of the product
  less the 1000 seed, which goes to the pair; a later one issues the smaller of the two
  proportional shares, so that it never dilutes: reserves per LP do not fall on either side.
\<close>

lemma mint_issues_fair_share:
  assumes "pair_mint T e to w = Inr (l, w')" "get_pair_state w = Some ps"
    and "0 \<le> ps_reserve_a ps" "0 \<le> ps_reserve_b ps" "0 \<le> lp_total_supply (w_lp w)"
    and "S = lp_total_supply (w_lp w)"
    and "d_a = tok_held T e (ps_token_a ps) w - ps_reserve_a ps"
    and "d_b = tok_held T e (ps_token_b ps) w - ps_reserve_b ps"
  shows "1000 \<le> d_a \<and> 1000 \<le> d_b \<and> 1000 \<le> l \<and> w_tok w' = w_tok w \<and>
    (\<exists>ps'. get_pair_state w' = Some ps' \<and> ps_reserve_a ps' = ps_reserve_a ps + d_a \<and>
       ps_reserve_b ps' = ps_reserve_b ps + d_b) \<and>
    (if S = 0 then is_isqrt (d_a * d_b) (l + 1000) \<and> lp_total_supply (w_lp w') = l + 1000
     else l = min (d_a * S div ps_reserve_a ps) (d_b * S div ps_reserve_b ps) \<and>
       lp_total_supply (w_lp w') = S + l \<and>
       ps_reserve_a ps * (S + l) \<le> (ps_reserve_a ps + d_a) * S \<and>
       ps_reserve_b ps * (S + l) \<le> (ps_reserve_b ps + d_b) * S)"
  using assms(1)
proof (cases rule: pair_mint_Inr)
  case (1 ps0 l1 l2)
  have ps: "ps0 = ps"
    using 1(4) assms(2) by simp
  have state: "get_pair_state w' = Some (ps\<lparr>ps_reserve_a := tok_held T e (ps_token_a ps) w,
        ps_reserve_b := tok_held T e (ps_token_b ps) w,
        ps_k_last := tok_held T e (ps_token_a ps) w * tok_held T e (ps_token_b ps) w,
        ps_timestamp_last := e_timestamp e\<rparr>)"
    using 1(12) ps by (simp add: pair_core_def get_pair_state_def)
  have "if S = 0 then is_isqrt (d_a * d_b) (l + 1000) \<and> lp_total_supply (w_lp w') = l + 1000
     else l = min (d_a * S div ps_reserve_a ps) (d_b * S div ps_reserve_b ps) \<and>
       lp_total_supply (w_lp w') = S + l \<and>
       ps_reserve_a ps * (S + l) \<le> (ps_reserve_a ps + d_a) * S \<and>
       ps_reserve_b ps * (S + l) \<le> (ps_reserve_b ps + d_b) * S"
  proof (cases "S = 0")
    case True
    then show ?thesis
      using 1(8) initial_liquidity_Inr lp_mint_Inr [OF 1(9)] lp_mint_Inr assms(6-8) ps 1(10)
      by fastforce
  next
    case False
    then have liq: "subsequent_liquidity d_a d_b (ps_reserve_a ps) (ps_reserve_b ps) S = Inr l"
      and l1: "l1 = w_lp w"
      using 1(8) assms(6-8) ps by auto
    note l = subsequent_liquidity_Inr [OF liq _ _ assms(3,4)]
    have pos: "0 < ps_reserve_a ps" "0 < ps_reserve_b ps"
      and eq: "l = min (d_a * S div ps_reserve_a ps) (d_b * S div ps_reserve_b ps)"
      using l 1(5,6) assms(5-8) ps by simp_all
    then have "l * ps_reserve_a ps \<le> d_a * S" "l * ps_reserve_b ps \<le> d_b * S"
      by (simp_all add: le_floor_iff [symmetric])
    then show ?thesis
      using False eq lp_mint_Inr [OF 1(9)] l1 assms(6) 1(10) by (simp add: algebra_simps)
  qed
  then show ?thesis
    using 1(5-7,11) state ps assms(7,8) by simp
qed

lemma ex_mint_ok:
  "\<exists>w'. pair_mint bank_ops pool_env (Address 1) (ex_world 1500000 1400000) = Inr (400000, w')"
  by (simp add: pair_mint_def mint_liquidity_def subsequent_liquidity_def mul_then_div_def
      call_defs pool_defs policy_defs int_ops_defs)

text \<open>
  C15. A successful burn redeems only the caller's LP: exactly what it staged when it staged
  something, otherwise the LP in the pair that is neither seed nor staged. It pays the rounded
  down share of the supply without the seed, lowers the reserves by what it pays, takes the
  redeemed LP out of the supply, clears the caller's staged LP and leaves everybody else's.
\<close>

theorem burn_redeems_own_share:
  assumes "pair_burn T e to w = Inr ((a, b), w')" "get_pair_state w = Some ps"
    and "0 \<le> ps_reserve_a ps" "0 \<le> ps_reserve_b ps" "1000 \<le> lp_total_supply (w_lp w)"
    and "x = (if get_pending_lp w to > 0 then get_pending_lp w to
      else lp_held e w - 1000 - get_pending_lp_total w)"
  shows "0 < x \<and> x \<le> lp_held e w \<and>
    a = x * ps_reserve_a ps div (lp_total_supply (w_lp w) - 1000) \<and>
    b = x * ps_reserve_b ps div (lp_total_supply (w_lp w) - 1000) \<and>
    1000 \<le> a \<and> 1000 \<le> b \<and>
    lp_total_supply (w_lp w') = lp_total_supply (w_lp w) - x \<and>
    lp_held e w' = lp_held e w - x \<and>
    (\<exists>ps'. get_pair_state w' = Some ps' \<and> ps_reserve_a ps' = ps_reserve_a ps - a \<and>
       ps_reserve_b ps' = ps_reserve_b ps - b) \<and>
    (\<forall>who. get_pending_lp w' who =
       (if who = to \<and> get_pending_lp w to > 0 then 0 else get_pending_lp w who)) \<and>
    get_pending_lp_total w' =
      (if get_pending_lp w to > 0 then get_pending_lp_total w - get_pending_lp w to
       else get_pending_lp_total w)"
  using assms(1)
proof (cases rule: pair_burn_Inr)
  case (1 ps0 burn_lp l w3 w4)
  have eqs: "ps0 = ps" "burn_lp = x"
    using 1(3,5) assms(2,6) by simp_all
  note burn = lp_burn_balance_Inr [of "e_self e" burn_lp "w_lp w" l]
  have lp: "lp_burn_balance (e_self e) burn_lp (w_lp w) = Inr l"
    using 1(12) by (simp add: lp_burn_Inr)
  have w4: "w_lp w4 = l" "get_pending_lp w4 = get_pending_lp (clear_pending to (w\<lparr>w_lp := l\<rparr>))"
    "get_pending_lp_total w4 = get_pending_lp_total (clear_pending to (w\<lparr>w_lp := l\<rparr>))"
    using 1(13,14) by (auto simp: res_inv clear_pending_def)
  then show ?thesis
    using 1(6-9,15) eqs burn_amounts_Inr [OF 1(7)] assms(3-5) burn [OF lp]
    by (auto simp: lp_held_def clear_pending_def)
qed

lemma ex_burn_ok:
  "\<exists>w'. pair_burn bank_ops pool_env (Address 1)
     ((ex_world 1000000 1000000)\<lparr>w_lp := ex_pool_lp\<lparr>lp_balances := [Address 100 \<mapsto> 201000, Address 1 \<mapsto> 799000]\<rparr>,
        w_pair := ex_pair\<lparr>pc_pending := [Address 1 \<mapsto> 50000, Address 2 \<mapsto> 150000], pc_pending_total := 200000\<rparr>\<rparr>)
     = Inr ((50050, 50050), w')"
  by (simp add: pair_burn_def burn_lp_amount_def burn_amounts_def mul_then_div_def get_pending_lp_def
      get_pending_lp_total_def set_pending_lp_def set_pending_lp_total_def
      call_defs pool_defs policy_defs int_ops_defs)

theorem burn_redeems_own_share_witness:
  "\<exists>w'. pair_burn bank_ops pool_env (Address 1)
     ((ex_world 1000000 1000000)\<lparr>w_lp := ex_pool_lp\<lparr>lp_balances := [Address 100 \<mapsto> 201000, Address 1 \<mapsto> 799000]\<rparr>,
        w_pair := ex_pair\<lparr>pc_pending := [Address 1 \<mapsto> 50000, Address 2 \<mapsto> 150000], pc_pending_total := 200000\<rparr>\<rparr>)
     = Inr ((50050, 50050), w') \<and> get_pending_lp w' (Address 2) = 150000 \<and> get_pending_lp_total w' = 150000"
proof -
  let ?w = "(ex_world 1000000 1000000)\<lparr>w_lp := ex_pool_lp\<lparr>lp_balances := [Address 100 \<mapsto> 201000, Address 1 \<mapsto> 799000]\<rparr>,
        w_pair := ex_pair\<lparr>pc_pending := [Address 1 \<mapsto> 50000, Address 2 \<mapsto> 150000], pc_pending_total := 200000\<rparr>\<rparr>"
  obtain w' where w': "pair_burn bank_ops pool_env (Address 1) ?w = Inr ((50050, 50050), w')"
    using ex_burn_ok by blast
  have "get_pair_state ?w = Some ex_storage" "get_pending_lp ?w (Address 1) = 50000"
    "get_pending_lp ?w (Address 2) = 150000" "get_pending_lp_total ?w = 200000"
    by (simp_all add: get_pair_state_def ex_pair_def get_pending_lp_def get_pending_lp_total_def)
  then show ?thesis
    using burn_redeems_own_share [OF w' _ _ _ _ refl, of ex_storage] w'
    by (simp add: ex_storage_def ex_pool_lp_def)
qed




text \<open>
  A deposit of \<open>d\<close> that issues LP in proportion, redeemed against a supply that leaves the
  seed out: the redemption exceeds it once \<open>d\<close> times the seed reaches the burnable supply.
\<close>

lemma seedless_share_exceeds:
  fixes d l r S :: int
  assumes "d * S = l * r" "S + l - 1000 \<le> d * 1000" "0 < S + l - 1000"
  shows "l * (r + d) = d * (S + l)" "d < d * (S + l) div (S + l - 1000)"
proof -
  show "l * (r + d) = d * (S + l)"
    using assms(1) by (simp add: algebra_simps)
  have "(d + 1) * (S + l - 1000) \<le> d * (S + l)"
    using assms(2) by (simp add: algebra_simps)
  then show "d < d * (S + l) div (S + l - 1000)"
    using assms(3) by (simp add: le_floor_iff flip: add1_zle_eq)
qed

text \<open>
  C37. Mint prices LP against the whole supply, burn pays out against the supply without the
  seed. So a caller who deposits both tokens in proportion to the reserves, stages exactly
  the LP it got and burns it is paid more of each token than it deposited, as soon as each
  deposit times 1000 reaches the burnable supply. It is paid \<open>d * supply div (supply - 1000)\<close>
  for a deposit \<open>d\<close>, with the supply after the mint.
\<close>

theorem mint_then_burn_profits:
  assumes mint: "pair_mint T e to w = Inr (l, w1)"
    and stage: "pair_deposit_lp e to l w1 = Inr (u, w2)"
    and burn: "pair_burn T e to w2 = Inr ((a, b), w3)"
    and "get_pair_state w = Some ps" "0 < ps_reserve_a ps" "0 < ps_reserve_b ps"
    and "1000 \<le> lp_total_supply (w_lp w)" "S = lp_total_supply (w_lp w)" "get_pending_lp w to = 0"
    and "d_a = tok_held T e (ps_token_a ps) w - ps_reserve_a ps" "d_a * S = l * ps_reserve_a ps"
    and "d_b = tok_held T e (ps_token_b ps) w - ps_reserve_b ps" "d_b * S = l * ps_reserve_b ps"
    and "S + l - 1000 \<le> d_a * 1000" "S + l - 1000 \<le> d_b * 1000"
  shows "a = d_a * (S + l) div (S + l - 1000) \<and> b = d_b * (S + l) div (S + l - 1000) \<and>
    d_a < a \<and> d_b < b"
  using mint
proof (cases rule: pair_mint_Inr)
  case (1 ps0 l1 l2)
  note m = this
  have ps: "ps0 = ps" and pos: "0 < l" "0 < S + l - 1000" "0 \<le> d_a" "0 \<le> d_b"
    using m(4-7) assms(4,7,8,10,12) by simp_all
  have w1: "lp_total_supply (w_lp w1) = S + l" "get_pending_lp w1 to = 0"
    "get_pair_state w1 = Some (ps\<lparr>ps_reserve_a := ps_reserve_a ps + d_a, ps_reserve_b := ps_reserve_b ps + d_b,
       ps_k_last := tok_held T e (ps_token_a ps) w * tok_held T e (ps_token_b ps) w,
       ps_timestamp_last := e_timestamp e\<rparr>)"
    using m(8,10,12) ps lp_mint_Inr [OF m(9)] assms(7-10,12)
    by (auto simp: pair_core_def get_pair_state_def get_pending_lp_def split: if_splits)
  have w2: "lp_total_supply (w_lp w2) = S + l" "get_pending_lp w2 to = l" "get_pair_state w2 = get_pair_state w1"
    using stage
    by (cases rule: pair_deposit_lp_Inr; use w1(1,2) in \<open>force simp: get_pair_state_def get_pending_lp_def
        set_pending_lp_def set_pending_lp_total_def res_inv dest: lp_transfer_internal_Inr\<close>)+
  have "burn_amounts l (ps_reserve_a ps + d_a) (ps_reserve_b ps + d_b) (S + l - 1000) = Inr (a, b)"
    using burn by (cases rule: pair_burn_Inr) (use w1(3) w2 pos(1) in \<open>auto split: if_splits\<close>)
  then have "a = l * (ps_reserve_a ps + d_a) div (S + l - 1000)"
    "b = l * (ps_reserve_b ps + d_b) div (S + l - 1000)"
    using burn_amounts_Inr assms(5,6) pos by simp_all
  then show ?thesis
    using seedless_share_exceeds [OF assms(11,14) pos(2)] seedless_share_exceeds [OF assms(13,15) pos(2)] by simp
qed

text \<open>The witness: a second depositor doubles the pool, stages its LP and burns it.\<close>

lemma ex_profit_mint:
  "\<exists>w1. pair_mint bank_ops pool_env (Address 1) (ex_world 2000000 2000000) = Inr (1000000, w1) \<and>
    w_pair w1 = ex_pair\<lparr>pc_state := Some (ex_storage\<lparr>ps_reserve_a := 2000000, ps_reserve_b := 2000000,
      ps_k_last := 4000000000000, ps_timestamp_last := 5000\<rparr>)\<rparr> \<and>
    w_lp w1 = ex_pool_lp\<lparr>lp_balances := [Address 100 \<mapsto> 1000, Address 1 \<mapsto> 1999000],
      lp_total_supply := 2000000, lp_log := [LE_mint (Address 100) (Address 1) 1000000]\<rparr>
    \<and> w_tok w1 = ex_tokens 2000000 2000000"
  by (simp add: pair_mint_def mint_liquidity_def subsequent_liquidity_def mul_then_div_def
      release_lock_def set_pair_state_def emit_def
      call_defs pool_defs policy_defs int_ops_defs)

lemma ex_profit_stage:
  assumes "w_pair w1 = ex_pair\<lparr>pc_state := Some (ex_storage\<lparr>ps_reserve_a := 2000000,
      ps_reserve_b := 2000000, ps_k_last := 4000000000000, ps_timestamp_last := 5000\<rparr>)\<rparr>"
    "w_lp w1 = ex_pool_lp\<lparr>lp_balances := [Address 100 \<mapsto> 1000, Address 1 \<mapsto> 1999000],
      lp_total_supply := 2000000, lp_log := log\<rparr>"
  shows "\<exists>w2 log'. pair_deposit_lp pool_env (Address 1) 1000000 w1 = Inr ((), w2) \<and>
    w_pair w2 = ex_pair\<lparr>pc_state := Some (ex_storage\<lparr>ps_reserve_a := 2000000,
      ps_reserve_b := 2000000, ps_k_last := 4000000000000, ps_timestamp_last := 5000\<rparr>),
      pc_pending := [Address 1 \<mapsto> 1000000], pc_pending_total := 1000000\<rparr> \<and>
    w_lp w2 = ex_pool_lp\<lparr>lp_balances := [Address 1 \<mapsto> 999000, Address 100 \<mapsto> 1001000],
      lp_total_supply := 2000000, lp_log := log'\<rparr> \<and> w_tok w2 = w_tok w1"
  using assms
  by (simp add: pair_deposit_lp_def get_pending_lp_def get_pending_lp_total_def set_pending_lp_def
      set_pending_lp_total_def release_lock_def call_defs pool_defs policy_defs int_ops_defs)

lemma ex_profit_burn:
  assumes "w_pair w2 = ex_pair\<lparr>pc_state := Some (ex_storage\<lparr>ps_reserve_a := 2000000,
      ps_reserve_b := 2000000, ps_k_last := 4000000000000, ps_timestamp_last := 5000\<rparr>),
      pc_pending := [Address 1 \<mapsto> 1000000], pc_pending_total := 1000000\<rparr>"
    "w_lp w2 = ex_pool_lp\<lparr>lp_balances := [Address 1 \<mapsto> 999000, Address 100 \<mapsto> 1001000],
      lp_total_supply := 2000000, lp_log := log\<rparr>" "w_tok w2 = ex_tokens 2000000 2000000"
  shows "\<exists>w3. pair_burn bank_ops pool_env (Address 1) w2 = Inr ((1000500, 1000500), w3)"
  using assms
  by (simp add: pair_burn_def burn_lp_amount_def burn_amounts_def mul_then_div_def get_pending_lp_def
      get_pending_lp_total_def set_pending_lp_def set_pending_lp_total_def
      call_defs pool_defs policy_defs int_ops_defs)

theorem mint_then_burn_profits_witness:
  "\<exists>w1 w2 w3. pair_mint bank_ops pool_env (Address 1) (ex_world 2000000 2000000) = Inr (1000000, w1) \<and>
     pair_deposit_lp pool_env (Address 1) 1000000 w1 = Inr ((), w2) \<and>
     pair_burn bank_ops pool_env (Address 1) w2 = Inr ((1000500, 1000500), w3) \<and>
     (1000000 :: int) < 1000500"
proof -
  obtain w1 where w1: "pair_mint bank_ops pool_env (Address 1) (ex_world 2000000 2000000) = Inr (1000000, w1)"
    "w_pair w1 = ex_pair\<lparr>pc_state := Some (ex_storage\<lparr>ps_reserve_a := 2000000, ps_reserve_b := 2000000,
      ps_k_last := 4000000000000, ps_timestamp_last := 5000\<rparr>)\<rparr>"
    "w_lp w1 = ex_pool_lp\<lparr>lp_balances := [Address 100 \<mapsto> 1000, Address 1 \<mapsto> 1999000],
      lp_total_supply := 2000000, lp_log := [LE_mint (Address 100) (Address 1) 1000000]\<rparr>"
    "w_tok w1 = ex_tokens 2000000 2000000"
    using ex_profit_mint by blast
  obtain w2 log where w2: "pair_deposit_lp pool_env (Address 1) 1000000 w1 = Inr ((), w2)"
    "w_pair w2 = ex_pair\<lparr>pc_state := Some (ex_storage\<lparr>ps_reserve_a := 2000000,
      ps_reserve_b := 2000000, ps_k_last := 4000000000000, ps_timestamp_last := 5000\<rparr>),
      pc_pending := [Address 1 \<mapsto> 1000000], pc_pending_total := 1000000\<rparr>"
    "w_lp w2 = ex_pool_lp\<lparr>lp_balances := [Address 1 \<mapsto> 999000, Address 100 \<mapsto> 1001000],
      lp_total_supply := 2000000, lp_log := log\<rparr>" "w_tok w2 = w_tok w1"
    using ex_profit_stage [OF w1(2,3)] by blast
  obtain w3 where w3: "pair_burn bank_ops pool_env (Address 1) w2 = Inr ((1000500, 1000500), w3)"
    using ex_profit_burn [OF w2(2,3)] w1(4) w2(4) by auto
  have "(1000000 :: int) < 1000500"
    using mint_then_burn_profits [OF w1(1) w2(1) w3 ex_world_state(1) _ _ _ refl _ refl _ refl]
    by (simp add: ex_storage_def get_pending_lp_def get_pair_state_def ex_pair_def pair_deployed_def
        ex_world_def ex_pool_lp_def tok_held_def bank_ops_def ex_tokens_def ex_token_def lp_balance_def
        pool_env_def)
  with w1(1) w2(1) w3 show ?thesis by blast
qed

end
