(* ===== verification/Pair_Props2.thy ===== *)
theory Pair_Props2
  imports Pair_Props
begin

text \<open>
  Properties of the pair, continued: the reserves a single-sided mint records, the empty pool,
  flash loans, the reentrancy lock, the freeze, and the invariants of every reachable state.
\<close>

section \<open>Reserves without tokens\<close>

text \<open>
  C35. \<open>mint_with_one_token\<close> records more than the pair holds. Its internal swap already books
  the whole deposit into the reserves; the deposit remainder and the swap output are then added
  once more. Afterwards both recorded reserves exceed the token balances, by those amounts.
\<close>

theorem single_sided_mint_overstates_reserves:
  assumes "sep41 T" "pair_mint_with_one_token T fv e to tk x m w = Inr (y, w')"
    and "get_pair_state w = Some ps" "ps_token_a ps \<noteq> ps_token_b ps"
    and "0 \<le> ps_reserve_a ps" "0 \<le> ps_reserve_b ps"
    and "get_fee_state w = Some fs" "0 \<le> min_fee_bps fs" "max_fee_bps fs \<le> 10000"
    and "factory_view_typed fv"
    and "\<forall>bps. fv_fee_override fv (e_self e) = Some (Some bps) \<longrightarrow> bps \<le> 10000"
    and "fv_fee_to fv \<noteq> Some (Some (e_self e))"
  shows "\<exists>ps' extra_a extra_b. get_pair_state w' = Some ps' \<and> 0 < extra_a \<and> 0 < extra_b \<and>
    ps_reserve_a ps' = tok_held T e (ps_token_a ps) w' + extra_a \<and>
    ps_reserve_b ps' = tok_held T e (ps_token_b ps) w' + extra_b"
  using assms(2)
proof (cases rule: pair_mint_with_one_token_Inr)
  case (1 ps0 fs0 fee swap_in w1 swap_out w2 post l dep_a dep_b r_in r_out)
  have w1: "get_pair_state w1 = Some ps" "get_fee_state w1 = Some fs" "ps0 = ps"
    using 1(4,5,14) assms(3,7) by (auto simp: res_inv)
  obtain ao bo where swap: "swap_inner T fv e ao bo (e_self e) w1 = Inr ((), w2)"
    using 1(17) by (auto split: if_splits)
  have "swap_outcome T fv e ps w1 w2"
    using sep41.swap_inner_outcome [OF assms(1) swap w1(1) assms(4-6) w1(2) assms(8-11)] .
  then have "ps_reserve_a post = tok_held T e (ps_token_a ps) w2"
    "ps_reserve_b post = tok_held T e (ps_token_b ps) w2"
    using 1(18) assms(12) by (auto simp: swap_outcome_def)
  moreover have "0 < dep_a" "0 < dep_b"
    using 1(13,16,19) by (auto split: if_splits)
  ultimately show ?thesis
    using 1(24) by auto
qed

definition ex_view_no_fee_to :: factory_view where
  "ex_view_no_fee_to = ex_view\<lparr>fv_fee_to := None\<rparr>"

lemma ex_view_no_fee_to_simps [simp]:
  "factory_view_typed ex_view_no_fee_to" "fv_fee_override ex_view_no_fee_to p = Some None"
  "fv_fee_to ex_view_no_fee_to = None"
  by (simp_all add: ex_view_no_fee_to_def factory_view_typed_def ex_view_def int_ops_defs)

lemma ex_split: "compute_swap_in_for_single_side 1000000 200000 30 = Inr 95588"
  by (simp add: compute_swap_in_for_single_side_def sqrt_u256_def newton.simps u256_defs i128_max_def)

lemma ex_split_out: "pair_get_amount_out 95588 1000000 1000000 30 = Inr 87009"
  by (simp add: pair_get_amount_out_def quote_output_amount_def fee_factor_def policy_defs int_ops_defs)

lemma ex_mint_one_ok:
  "\<exists>y w'. pair_mint_with_one_token bank_ops ex_view_no_fee_to pool_env (Address 1) (Address 10)
     200000 1 (ex_world 1000000 1000000) = Inr (y, w')"
  unfolding ex_view_no_fee_to_def
  by (simp add: pair_mint_with_one_token_def ex_split ex_split_out
      subsequent_liquidity_def mul_then_div_def call_defs pool_defs policy_defs int_ops_defs
      swap_defs apply_time_decay_def)

theorem single_sided_mint_overstates_reserves_witness:
  "\<exists>y w' ps'. pair_mint_with_one_token bank_ops ex_view_no_fee_to pool_env (Address 1) (Address 10)
     200000 1 (ex_world 1000000 1000000) = Inr (y, w') \<and> get_pair_state w' = Some ps' \<and>
     tok_held bank_ops pool_env (Address 10) w' < ps_reserve_a ps'"
proof -
  obtain y w' where w': "pair_mint_with_one_token bank_ops ex_view_no_fee_to pool_env (Address 1)
      (Address 10) 200000 1 (ex_world 1000000 1000000) = Inr (y, w')"
    using ex_mint_one_ok by blast
  show ?thesis
    using single_sided_mint_overstates_reserves [OF lp_bank.sep41_axioms w' ex_world_state(1) _ _ _
        ex_world_state(2)] w'
    by (fastforce simp: ex_storage_def initial_fee_state_def)
qed

text \<open>
  A pool whose last liquidity provider has left stays closed. Burning everything above the
  seed empties both reserves while the seed keeps the supply at 1000; from then on, whatever is
  transferred to the pair, every mint fails, because the proportional formula divides by the
  empty reserve.
\<close>

theorem emptied_pool_refuses_mint:
  assumes "pair_burn T e to w = Inr ((a, b), w')" "get_pair_state w = Some ps"
    and "0 \<le> ps_reserve_a ps" "0 \<le> ps_reserve_b ps" "1000 < lp_total_supply (w_lp w)"
    and "get_pending_lp w to = lp_total_supply (w_lp w) - 1000"
    and "get_pair_state w2 = get_pair_state w'"
    and "lp_total_supply (w_lp w2) = lp_total_supply (w_lp w')"
  shows "(\<exists>ps'. get_pair_state w' = Some ps' \<and> ps_reserve_a ps' = 0 \<and> ps_reserve_b ps' = 0) \<and>
    lp_total_supply (w_lp w') = 1000 \<and> pair_mint T e2 to2 w2 \<noteq> Inr (l, w3)"
  using assms(1)
proof (cases rule: pair_burn_Inr)
  case (1 ps0 burn_lp lp v3 v4)
  have x: "burn_lp = lp_total_supply (w_lp w) - 1000" "ps0 = ps"
    using 1(3,5) assms(2,5,6) by simp_all
  have paid: "a = ps_reserve_a ps" "b = ps_reserve_b ps"
    using burn_amounts_Inr [OF 1(7)] 1(6) assms(3-5) x by simp_all
  have "lp_burn_balance (e_self e) burn_lp (w_lp w) = Inr lp" "w_lp v4 = lp"
    using 1(12,13,14) by (auto simp: res_inv)
  then have tot: "lp_total_supply (w_lp w') = 1000"
    using lp_burn_balance_Inr [of "e_self e" burn_lp "w_lp w" lp] x 1(15) by simp
  obtain ps' where ps': "get_pair_state w' = Some ps'" "ps_reserve_a ps' = 0" "ps_reserve_b ps' = 0"
    using 1(15) paid x(2) by simp
  have "pair_mint T e2 to2 w2 \<noteq> Inr (l, w3)"
  proof
    assume "pair_mint T e2 to2 w2 = Inr (l, w3)"
    then show False
    proof (cases rule: pair_mint_Inr)
      case (1 ps2 l1 l2)
      then have "subsequent_liquidity (tok_held T e2 (ps_token_a ps2) w2 - ps_reserve_a ps2)
         (tok_held T e2 (ps_token_b ps2) w2 - ps_reserve_b ps2) 0 0 1000 = Inr l"
        using ps' tot assms(7,8) by auto
      then show False
        by (auto simp: subsequent_liquidity_def mul_then_div_zero res_inv)
    qed
  qed
  with ps' tot show ?thesis by blast
qed

definition ex_exit_world :: "bank world" where
  "ex_exit_world = (ex_world 1000000 1000000)\<lparr>
     w_lp := ex_pool_lp\<lparr>lp_balances := [Address 100 \<mapsto> 1000000]\<rparr>,
     w_pair := ex_pair\<lparr>pc_pending := [Address 1 \<mapsto> 999000], pc_pending_total := 999000\<rparr>\<rparr>"

lemma ex_exit_ok:
  "\<exists>w'. pair_burn bank_ops pool_env (Address 1) ex_exit_world = Inr ((1000000, 1000000), w')"
  by (simp add: ex_exit_world_def pair_burn_def burn_lp_amount_def burn_amounts_def mul_then_div_def
      get_pending_lp_def get_pending_lp_total_def set_pending_lp_def set_pending_lp_total_def
      call_defs pool_defs policy_defs int_ops_defs)

section \<open>Flash loans\<close>

text \<open>
  C5. Whatever the receiver of a flash loan does, also if it calls back into the pair, a loan
  that succeeds leaves the pair with at least the old reserve plus the fee of each borrowed
  token, with reserves equal to the balances it then holds, and a product of reserves that has
  not fallen. With fees configured the fee is never below one unit nor below 5 basis points.
\<close>

theorem flash_loan_is_repaid:
  assumes "pair_flash_loan T recv e receiver x y data w = Inr (u, w')" "x \<noteq> 0 \<or> y \<noteq> 0"
    and "get_pair_state w = Some ps" "get_fee_state w = Some fs" "0 < baseline_fee_bps fs"
  shows "\<exists>ps'. get_pair_state w' = Some ps' \<and>
    ps_reserve_a ps' = tok_held T e (ps_token_a ps) w' \<and>
    ps_reserve_b ps' = tok_held T e (ps_token_b ps) w' \<and>
    (0 < x \<longrightarrow> ps_reserve_a ps + max 1 (x * max (baseline_fee_bps fs) 5 div 10000) \<le> ps_reserve_a ps') \<and>
    (0 < y \<longrightarrow> ps_reserve_b ps + max 1 (y * max (baseline_fee_bps fs) 5 div 10000) \<le> ps_reserve_b ps') \<and>
    ps_reserve_a ps * ps_reserve_b ps \<le> ps_reserve_a ps' * ps_reserve_b ps' \<and>
    0 \<le> x \<and> x \<le> ps_reserve_a ps \<and> 0 \<le> y \<and> y \<le> ps_reserve_b ps"
  using assms(1,2)
proof (cases rule: pair_flash_loan_Inr)
  case (1 ps0 fee_a fee_b w1 w2 w3 bps)
  have eqs: "ps0 = ps" "bps = baseline_fee_bps fs"
    using 1(3,8) assms(3,4) by simp_all
  have "0 < x \<longrightarrow> fee_a = max 1 (x * max bps 5 div 10000)" "0 < y \<longrightarrow> fee_b = max 1 (y * max bps 5 div 10000)"
    using 1(9,10) assms(5) eqs(2) compute_flash_fee_Inr(2) [of x bps fee_a]
      compute_flash_fee_Inr(2) [of y bps fee_b] by auto
  then show ?thesis
    using 1(4-7,14-17) eqs by auto
qed

text \<open>
  The repository's \<open>MockFlashReceiver\<close> and \<open>MaliciousFlashReceiver\<close>, as receivers of the model.
  Their payloads are ASCII tags.
\<close>

definition ascii :: "string \<Rightarrow> 8 word list" where
  "ascii s = map (\<lambda>c. of_nat (of_char c)) s"

definition mock_repay ::
  "'tok token_ops \<Rightarrow> env \<Rightarrow> address \<Rightarrow> address \<Rightarrow> int \<Rightarrow> int \<Rightarrow> bool \<Rightarrow> bool \<Rightarrow> 'tok world \<Rightarrow>
     'tok world option" where
  "mock_repay T e initiator token amount fee overpaying underpaying w =
     (if amount > 0 then
        let repay = amount + fee;
            owed = (if overpaying then repay + amount else if underpaying then repay - 1 else repay) in
        (if in_i128 repay \<and> in_i128 owed then
           map_option (\<lambda>t. w\<lparr>w_tok := t\<rparr>) (tok_transfer T e token (e_self e) initiator owed (w_tok w))
         else None)
      else Some w)"

definition mock_receiver :: "'tok token_ops \<Rightarrow> 'tok receiver" where
  "mock_receiver T e args w =
     (if fa_data args \<noteq> ascii ''repay'' \<and> fa_data args \<noteq> ascii ''overpay''
         \<and> fa_data args \<noteq> ascii ''underpay'' then Some w
      else
        let overpaying = (fa_data args = ascii ''overpay'');
            underpaying = (fa_data args = ascii ''underpay'') in
        Option.bind (mock_repay T e (fa_initiator args) (fa_token_a args) (fa_amount_a args)
            (fa_fee_a args) overpaying underpaying w)
          (mock_repay T e (fa_initiator args) (fa_token_b args) (fa_amount_b args)
            (fa_fee_b args) overpaying underpaying))"


lemma ex_flash_ok:
  "\<exists>w'. pair_flash_loan bank_ops (mock_receiver bank_ops) pool_env (Address 1) 20000 0 (ascii ''overpay'')
     (ex_world 1000000 1000000) = Inr ((), w')"
  by (simp add: pair_flash_loan_def execute_flash_loan_def compute_flash_fee_def check_repaid_def
      mock_receiver_def mock_repay_def ascii_def MAX_PAYLOAD_SIZE_def FLASH_FEE_FLOOR_BPS_def
      call_defs pool_defs int_ops_defs)

theorem flash_loan_is_repaid_witness:
  "\<exists>w' ps'. pair_flash_loan bank_ops (mock_receiver bank_ops) pool_env (Address 1) 20000 0
      (ascii ''overpay'') (ex_world 1000000 1000000) = Inr ((), w') \<and>
    get_pair_state w' = Some ps' \<and> 1000060 \<le> ps_reserve_a ps'"
proof -
  obtain w' where w': "pair_flash_loan bank_ops (mock_receiver bank_ops) pool_env (Address 1) 20000 0
      (ascii ''overpay'') (ex_world 1000000 1000000) = Inr ((), w')"
    using ex_flash_ok by blast
  show ?thesis
    using flash_loan_is_repaid [OF w' _ ex_world_state] w'
    by (auto simp: ex_storage_def initial_fee_state_def)
qed

section \<open>The lock\<close>




section \<open>The freeze\<close>

text \<open>The calls a freeze is to stop.\<close>

fun stopped_by_freeze :: "pair_call \<Rightarrow> bool" where
  "stopped_by_freeze (PC_mint to) = True"
| "stopped_by_freeze (PC_mint_with_one_token to tk x m) = True"
| "stopped_by_freeze (PC_burn_single_side to x tk m) = True"
| "stopped_by_freeze (PC_swap a b to) = True"
| "stopped_by_freeze (PC_flash_loan r a b d) = True"
| "stopped_by_freeze _ = False"

text \<open>
  On a frozen pool swaps, mints of both kinds, single-sided burns and flash loans (zero
  amounts included) all return \<open>ContractFrozen\<close> to an authorised caller, and the frozen flag can
  be changed only with the factory's authorisation.
\<close>

lemma frozen_pool_refuses:
  assumes "pc_frozen (w_pair w)" "\<not> pc_locked (w_pair w)" "\<forall>a. e_auth e a" "stopped_by_freeze op"
  shows "pair_step T fv recv e op w = Inl (Err P_ContractFrozen) \<and>
    (get_pair_state w = Some ps \<longrightarrow> \<not> e_auth e2 (ps_factory ps) \<longrightarrow>
       pair_set_frozen e2 False w = Inl Panic)"
  using assms
  by (cases op)
    (simp_all add: pair_mint_def pair_mint_with_one_token_def pair_burn_single_side_def pair_swap_def
      pair_flash_loan_def leaves_def with_guard_def ensure_not_frozen_def pair_set_frozen_def)

section \<open>Every reachable state\<close>

text \<open>A run for the witnesses: initialise the pair and make the first deposit.\<close>

definition ex_new_world :: "bank world" where
  "ex_new_world = \<lparr>w_pair = pair_deployed, w_lp = lp_empty\<lparr>lp_admin := Some (Address 100)\<rparr>,
     w_tok = ex_tokens 1000000 1000000, w_events = []\<rparr>"

definition ex_init_world :: "bank world" where
  "ex_init_world = ex_new_world\<lparr>w_pair := pair_deployed\<lparr>
     pc_state := Some (ex_storage\<lparr>ps_reserve_a := 0, ps_reserve_b := 0, ps_k_last := 0,
       ps_timestamp_last := 5000\<rparr>), pc_fee := Some initial_fee_state\<rparr>\<rparr>"

lemma ex_initialize:
  "pair_initialize ex_view pool_env (Address 99) (Address 10) (Address 11) (Address 50) ex_new_world
    = Inr ex_init_world"
  by (simp add: pair_initialize_def token_is_known_contract_def ex_new_world_def ex_init_world_def
      set_pair_state_def set_fee_state_def set_pair_def get_pair_state_def pool_defs)

lemma ex_first_mint:
  "\<exists>w ps. pair_step bank_ops ex_view silent_receiver pool_env (PC_mint (Address 1)) ex_init_world = Inr w \<and>
    get_pair_state w = Some ps \<and> ps_reserve_a ps = 1000000 \<and> ps_token_a ps = Address 10 \<and>
    lp_total_supply (w_lp w) = 1000000"
  by (simp add: pair_mint_def mint_liquidity_def initial_liquidity_def sqrt_i128_def newton.simps
      ex_init_world_def ex_new_world_def call_defs pool_defs policy_defs int_ops_defs)

lemma ex_reachable:
  "\<exists>w ps. pair_reachable bank_ops (Address 100) (\<lambda>op. \<not> single_sided_mint op) w \<and>
    get_pair_state w = Some ps \<and> ps_reserve_a ps = 1000000 \<and> ps_token_a ps = Address 10 \<and>
    lp_total_supply (w_lp w) = 1000000"
proof -
  obtain w ps where w: "pair_step bank_ops ex_view silent_receiver pool_env (PC_mint (Address 1)) ex_init_world = Inr w"
    "get_pair_state w = Some ps" "ps_reserve_a ps = 1000000" "ps_token_a ps = Address 10"
    "lp_total_supply (w_lp w) = 1000000"
    using ex_first_mint by blast
  have "lp_base (Address 100) (w_lp ex_new_world)" "lp_total_supply (w_lp ex_new_world) = 0"
    by (simp_all add: ex_new_world_def lp_base_def lp_supply_ok_def lp_balance_sum_def lp_empty_def
        lp_balance_def)
  moreover have "\<forall>tk. 0 \<le> tok_balance bank_ops tk (Address 100) (w_tok ex_new_world)"
    by (simp add: ex_new_world_def bank_ops_def ex_tokens_def ex_token_def lp_balance_def lp_empty_def)
  ultimately have init: "pair_reachable bank_ops (Address 100) (\<lambda>op. \<not> single_sided_mint op) ex_init_world"
    by (intro reach_init [OF _ _ _ _ ex_initialize]) (simp_all add: ex_new_world_def)
  have "pair_reachable bank_ops (Address 100) (\<lambda>op. \<not> single_sided_mint op) w"
    by (rule reach_call [OF init _ _ _ _ _ _ _ w(1)]) simp_all
  with w(2-5) show ?thesis by blast
qed

text \<open>
  In every state of an initialised pair, whatever calls were made by whom and in which
  order, flash-loan callbacks included: the lock is free between calls, both reserves are
  non-negative, the staged amounts are positive and add up to the recorded total, the pair holds
  the seed and all staged LP once any LP exists, and the fee parameters are still those set at
  initialisation. Relied on: the SEP-41 contract of the pool tokens; nobody but the pair
  administers its LP token or burns negative amounts of it.
\<close>

lemma reachable_pair_accounts:
  assumes "sep41 T" "pair_reachable T self allowed w"
  shows "\<exists>ps fs. get_pair_state w = Some ps \<and> get_fee_state w = Some fs \<and>
    \<not> pc_locked (w_pair w) \<and> 0 \<le> ps_reserve_a ps \<and> 0 \<le> ps_reserve_b ps \<and>
    (\<forall>a x. pc_pending (w_pair w) a = Some x \<longrightarrow> 0 < x) \<and>
    (\<Sum>a \<in> dom (pc_pending (w_pair w)). get_pending_lp w a) = pc_pending_total (w_pair w) \<and>
    (lp_total_supply (w_lp w) = 0 \<and> pc_pending_total (w_pair w) = 0 \<or>
     1000 + pc_pending_total (w_pair w) \<le> lp_balance (w_lp w) self) \<and>
    baseline_fee_bps fs = 30 \<and> min_fee_bps fs = 10 \<and> max_fee_bps fs = 100"
proof -
  have "pair_wf self w"
    using sep41.pair_reachable_wf [OF assms, of True] by simp
  then show ?thesis
    by (auto simp: pair_inv_def fee_params_def pending_ok_def lp_seeded_def entry_sum_def get_pending_entry)
qed

text \<open>
  In every state reached without single-sided mints, the recorded reserves are covered by
  tokens the pair really holds, on both sides.
\<close>

lemma reachable_reserves_backed:
  assumes "sep41 T" "pair_reachable T self allowed w" "\<forall>op. allowed op \<longrightarrow> \<not> single_sided_mint op"
    and "get_pair_state w = Some ps"
  shows "ps_reserve_a ps \<le> tok_balance T (ps_token_a ps) self (w_tok w) \<and>
    ps_reserve_b ps \<le> tok_balance T (ps_token_b ps) self (w_tok w)"
proof -
  have "backed T self w"
    using sep41.pair_reachable_wf [OF assms(1,2), of False] assms(3) by blast
  with assms(4) show ?thesis by (simp add: backed_def)
qed

text \<open>
  In every reachable state the dynamic fee of the pair computes without panic and lies
  between 10 and 100 basis points, and so does the fee reported as effective when no override
  is installed.
\<close>

lemma reachable_fee_in_range:
  assumes "sep41 T" "pair_reachable T self allowed w" "fv_fee_override fv (e_self e) = Some None"
  shows "\<exists>fee. pair_get_current_fee_bps w = Inr fee \<and> 10 \<le> fee \<and> fee \<le> 100 \<and>
    pair_get_effective_fee_bps fv e w = Inr (fee, False)"
proof -
  have wf: "pair_wf self w"
    using sep41.pair_reachable_wf [OF assms(1,2), of True] by simp
  then obtain ps fs where ps: "get_pair_state w = Some ps" and fs: "get_fee_state w = Some fs"
    "min_fee_bps fs = 10" "max_fee_bps fs = 100"
    by (auto simp: pair_inv_def fee_params_def)
  obtain fee where fee: "compute_fee_bps fs = Inr fee"
    using compute_fee_bps_total [of fs] fs by auto
  then show ?thesis
    using compute_fee_bps_bounds [OF fee] ps fs assms(3)
    by (simp add: pair_get_current_fee_bps_def pair_get_effective_fee_bps_def)
qed

end
