(* ===== verification/Pool_Props.thy ===== *)
theory Pool_Props
  imports Pair_Spec Pair_Props2
begin

text \<open>
  What runs of a pair do to its pool: they are runs of the specification, and so they keep what
  a share is worth. The witnesses run on the concrete pool of \<open>Pair_Props\<close>.
\<close>

lemma ex_init_sound: "sound_pool bank_ops (Address 100) ex_init_world"
proof -
  have "lp_base (Address 100) (w_lp ex_new_world)"
    by (simp add: ex_new_world_def lp_base_def lp_supply_ok_def lp_balance_sum_def lp_empty_def lp_balance_def)
  moreover have "\<forall>tk. 0 \<le> tok_balance bank_ops tk (Address 100) (w_tok ex_new_world)"
    by (simp add: ex_new_world_def bank_ops_def ex_tokens_def ex_token_def lp_balance_def lp_empty_def)
  moreover have "lp_total_supply (w_lp ex_new_world) = 0" "w_pair ex_new_world = pair_deployed"
    by (simp_all add: ex_new_world_def lp_empty_def)
  ultimately show ?thesis
    using pair_initialize_wf [OF ex_initialize] by (simp only: sound_pool_def) blast
qed

lemma ex_turn:
  assumes "\<not> single_sided_mint op" "pair_step bank_ops ex_view silent_receiver pool_env op w = Inr w'"
  shows "pair_turn bank_ops (Address 100) (action_of op) w w'"
  using turn_call [OF assms(1) _ _ _ _ _ assms(2)] by simp

text \<open>
  C2. Every run of a pair without single-sided mints and without burns of negative amounts of LP
  refines the specification of a pool: whatever else is called by whom (all other entry points of
  the pair and its LP token), with whatever flash-loan callbacks and whatever happens to the pool
  tokens in between, the reserves and the LP supply move exactly by the steps of \<open>pool_step\<close>, and
  the pair stays sound. The two exclusions are needed, the code accepts both calls and both break
  the refinement (\<open>single_sided_mint_overstates_reserves\<close>, \<open>lp_burn_negative_mints\<close>). Relied on:
  the SEP-41 contract of the pool tokens; nobody signs for the pair; the factory answers \<open>u32\<close> fees
  and an override of at most 100%.
\<close>

theorem pair_refines_pool_spec:
  assumes "sep41_funded T" "labelled_run (pair_turn T self) ls w w'" "sound_pool T self w"
  shows "sound_pool T self w' \<and> labelled_run pool_step ls (spec_of w) (spec_of w')"
  by (rule pool_host.runs_refine [OF pool_host.intro [OF assms(1)] assms(2,3)])

theorem pair_refines_pool_spec_witness:
  "\<exists>w'. labelled_run (pair_turn bank_ops (Address 100)) [Deposit] ex_init_world w' \<and>
    labelled_run pool_step [Deposit] \<lparr>sp_a = 0, sp_b = 0, sp_shares = 0\<rparr> (spec_of w') \<and>
    sp_a (spec_of w') = 1000000 \<and> sp_shares (spec_of w') = 1000000"
proof -
  obtain w ps where w: "pair_step bank_ops ex_view silent_receiver pool_env (PC_mint (Address 1)) ex_init_world = Inr w"
    "get_pair_state w = Some ps" "ps_reserve_a ps = 1000000" "lp_total_supply (w_lp w) = 1000000"
    using ex_first_mint by blast
  have run: "labelled_run (pair_turn bank_ops (Address 100)) [Deposit] ex_init_world w"
    using ex_turn [OF _ w(1)] by (auto intro: run_step run_done)
  have "spec_of ex_init_world = \<lparr>sp_a = 0, sp_b = 0, sp_shares = 0\<rparr>"
    by (simp add: spec_of_def ex_init_world_def ex_new_world_def get_pair_state_def pool_defs)
  then show ?thesis
    using pair_refines_pool_spec [OF lp_bank_funded.sep41_funded_axioms run ex_init_sound] run w(2-4)
    by (auto simp: spec_of_Some)
qed

text \<open>
  C3. What a share is worth never falls along a run of a pair, as long as the run does not mix
  deposits with withdrawals and contains, as in the refinement above, no single-sided mint and no
  burn of a negative amount of LP (which adds shares without a deposit). Without withdrawals, the
  product of the reserves per square of the LP supply does not fall; without deposits, the same
  per square of the supply without the seed; with neither, the product itself does not fall,
  however long one trades and borrows. (Mixed runs take from the other providers:
  \<open>mint_then_burn_profits\<close>.)
\<close>

theorem share_worth_is_kept:
  assumes "sep41_funded T" "labelled_run (pair_turn T self) ls w w'" "sound_pool T self w"
    and "get_pair_state w = Some ps" "S = lp_total_supply (w_lp w)" "S \<noteq> 0"
  shows "\<exists>ps' S'. get_pair_state w' = Some ps' \<and> S' = lp_total_supply (w_lp w') \<and>
    (Withdraw \<notin> set ls \<longrightarrow>
      ps_reserve_a ps * ps_reserve_b ps * S'\<^sup>2 \<le> ps_reserve_a ps' * ps_reserve_b ps' * S\<^sup>2) \<and>
    (Deposit \<notin> set ls \<longrightarrow>
      ps_reserve_a ps * ps_reserve_b ps * (S' - 1000)\<^sup>2 \<le> ps_reserve_a ps' * ps_reserve_b ps' * (S - 1000)\<^sup>2) \<and>
    (Deposit \<notin> set ls \<and> Withdraw \<notin> set ls \<longrightarrow>
      ps_reserve_a ps * ps_reserve_b ps \<le> ps_reserve_a ps' * ps_reserve_b ps')"
proof -
  have run: "labelled_run pool_step ls (spec_of w) (spec_of w')" and "sound_pool T self w'"
    using pool_host.runs_refine [OF pool_host.intro [OF assms(1)] assms(2,3)] by simp_all
  then obtain ps' where ps': "get_pair_state w' = Some ps'"
    by (auto simp: sound_pool_def pair_inv_def)
  have ok: "pool_ok (spec_of w)"
    using assms(3) by (rule sound_pool_spec_ok)
  then have S: "1000 \<le> S"
    using assms(4-6) by (simp add: pool_ok_def spec_of_Some)
  show ?thesis
    using runs_without_withdrawals [OF run _ ok] runs_without_deposits [OF run _ ok] runs_of_trades [OF run _ _ ok]
      S assms(4,5) ps' by (simp add: spec_of_Some worth_kept_def sp_product_def)
qed

lemma ex_world_sound: "sound_pool bank_ops (Address 100) (ex_world 1010000 1000000)"
proof -
  have "lp_base (Address 100) (w_lp (ex_world 1010000 1000000))"
    by (simp add: ex_world_def ex_pool_lp_def lp_base_def lp_supply_ok_def lp_balance_sum_def lp_empty_def lp_balance_def)
  then show ?thesis
    by (simp add: sound_pool_def pair_inv_def backed_def ex_world_def ex_pair_def ex_pool_lp_def ex_storage_def
        fee_params_def get_fee_state_def get_pair_state_def initial_fee_state_def pair_deployed_def
        pending_ok_def entry_sum_def lp_seeded_def bank_ops_def ex_tokens_def ex_token_def lp_balance_def lp_empty_def)
qed

theorem share_worth_is_kept_witness:
  "\<exists>w' ps'. labelled_run (pair_turn bank_ops (Address 100)) [Trade, Idle] (ex_world 1010000 1000000) w' \<and>
    get_pair_state w' = Some ps' \<and> 1000000000000 \<le> ps_reserve_a ps' * ps_reserve_b ps'"
proof -
  obtain w1 where w1: "pair_swap bank_ops ex_view pool_env 0 9860 (Address 1) (ex_world 1010000 1000000) = Inr ((), w1)"
    using ex_swap_ok by blast
  have "pair_turn bank_ops (Address 100) Trade (ex_world 1010000 1000000) w1"
    using ex_turn [of "PC_swap 0 9860 (Address 1)"] w1 by simp
  moreover have "pair_turn bank_ops (Address 100) Idle w1 w1"
    by (rule turn_outside [OF outside_done])
  ultimately have run: "labelled_run (pair_turn bank_ops (Address 100)) [Trade, Idle] (ex_world 1010000 1000000) w1"
    by (rule run_step [OF _ run_step [OF _ run_done]])
  show ?thesis
    using share_worth_is_kept [OF lp_bank_funded.sep41_funded_axioms run ex_world_sound ex_world_state(1) refl] run
    by (auto simp: ex_storage_def ex_world_def ex_pool_lp_def)
qed

end
