(* ===== verification/Pool_Exit.thy ===== *)
theory Pool_Exit
  imports Pair_Props2
begin

text \<open>
  The way into a pool and the way out: while the LP token is not paused, a staged provider can
  burn, also in a frozen pool, as long as the amounts are in range and above the dust limits; and
  a pool whose product of reserves is past the range of the swap's check refuses every swap.
\<close>

section \<open>The way out\<close>

lemma mul_then_div_ok:
  assumes "0 \<le> a" "0 \<le> b" "0 < d" "a * b \<le> i128_max"
  shows "mul_then_div a b d = Inr (a * b div d)"
proof -
  have "0 \<le> a * b" "a * b div d \<le> a * b"
    using assms(1-3) zdiv_mono2 [of "a * b" 1 d] by simp_all
  then have "in_i128 (a * b)" "in_i128 (a * b div d)"
    using assms(3,4) by (auto simp: in_i128_def i128_min_def pos_imp_zdiv_nonneg_iff intro: order_trans [of _ 0])
  then show ?thesis
    using assms by (simp add: mul_then_div_def i128_checked_mul_def i128_checked_div_def sdiv_nonneg)
qed

lemma in_i128_below: "0 \<le> x \<Longrightarrow> x \<le> y \<Longrightarrow> y \<le> i128_max \<Longrightarrow> in_i128 x"
  by (simp add: in_i128_def i128_min_def)

lemma lp_burn_ok:
  assumes "\<not> lp_paused l" "e_auth e f" "0 \<le> x" "x \<le> lp_balance l f" "lp_balance l f \<le> lp_total_supply l"
    "lp_total_supply l \<le> i128_max"
  shows "\<exists>l'. lp_burn e f x l = Inr l'"
  using assms in_i128_below [of "lp_balance l f - x" "lp_total_supply l"]
    in_i128_below [of "lp_total_supply l - x" "lp_total_supply l"]
  by (auto simp: lp_burn_def lp_is_paused_def lp_burn_balance_def i128_checked_sub_def Let_def)

text \<open>What the invariants of a pair say about staged LP.\<close>

lemma staged_lp_held:
  assumes "pair_wf p w" "0 < get_pending_lp w to"
  shows "get_pending_lp w to \<le> pc_pending_total (w_pair w)"
    "1000 + pc_pending_total (w_pair w) \<le> lp_balance (w_lp w) p"
    "lp_balance (w_lp w) p \<le> lp_total_supply (w_lp w)"
proof -
  have inv: "pending_ok (pc_pending (w_pair w)) (pc_pending_total (w_pair w))" "lp_base p (w_lp w)"
    "lp_seeded p (w_lp w) (pc_pending_total (w_pair w))"
    using assms(1) by (auto simp: pair_inv_def)
  show x: "get_pending_lp w to \<le> pc_pending_total (w_pair w)"
    using pending_le_total [OF inv(1), of to] by (simp add: get_pending_entry)
  show "1000 + pc_pending_total (w_pair w) \<le> lp_balance (w_lp w) p"
    using inv(3) x assms(2) by (auto simp: lp_seeded_def)
  show "lp_balance (w_lp w) p \<le> lp_total_supply (w_lp w)"
    by (rule lp_base_le_supply(1) [OF inv(2)])
qed

text \<open>
  C14. A freeze does not keep providers in: while the LP token is not paused, a burn by
  somebody who staged LP in a pair whose accounting is in order succeeds and pays the computed
  shares, frozen or not. Needed for it are that both pause switches are off (the pair's own
  flag and that of the LP token: a pause blocks \<open>burn\<close>), that both shares and what remains of
  each reserve are above the dust limits (or nothing remains), that the products of the code
  fit \<open>i128\<close>, and that the tokens carry out the two payments.
\<close>

theorem staged_provider_can_exit:
  fixes x :: int
  assumes "pair_wf p w" "e_self e = p" "get_pair_state w = Some ps"
    and "e_auth e to" "\<not> pc_lp_paused (w_pair w)" "\<not> lp_paused (w_lp w)"
    and "x = get_pending_lp w to" "0 < x" "T = lp_total_supply (w_lp w) - 1000"
    and "a = x * ps_reserve_a ps div T" "b = x * ps_reserve_b ps div T" "1000 \<le> a" "1000 \<le> b"
    and "ps_reserve_a ps - a = 0 \<or> 1000 \<le> ps_reserve_a ps - a"
    and "ps_reserve_b ps - b = 0 \<or> 1000 \<le> ps_reserve_b ps - b"
    and "x * ps_reserve_a ps \<le> i128_max" "x * ps_reserve_b ps \<le> i128_max"
    and "(ps_reserve_a ps - a) * (ps_reserve_b ps - b) \<le> i128_max" "lp_total_supply (w_lp w) \<le> i128_max"
    and "ps_reserve_a ps \<le> i128_max" "ps_reserve_b ps \<le> i128_max"
    and "tok_transfer Tk e (ps_token_a ps) p to a (w_tok w) = Some t1"
    and "tok_transfer Tk e (ps_token_b ps) p to b t1 = Some t2"
  shows "\<exists>w'. pair_burn Tk e to w = Inr ((a, b), w')"
proof -
  let ?t = "pc_pending_total (w_pair w)" and ?l = "w_lp w"
  have inv: "\<not> pc_locked (w_pair w)" "0 \<le> ps_reserve_a ps" "0 \<le> ps_reserve_b ps"
    using assms(1,3) by (auto simp: pair_inv_def)
  note held = staged_lp_held [OF assms(1) assms(8) [unfolded assms(7)], folded assms(7)]
  have T: "x \<le> T" "0 < T" "0 \<le> ?t"
    using held assms(8,9) by simp_all
  have shares: "burn_amounts x (ps_reserve_a ps) (ps_reserve_b ps) T = Inr (a, b)"
    using mul_then_div_ok assms(8,10,11,16,17) T(2) inv(2,3) by (simp add: burn_amounts_def)
  have left: "0 \<le> ps_reserve_a ps - a" "0 \<le> ps_reserve_b ps - b"
    using share_le(2) [of x T "ps_reserve_a ps"] share_le(2) [of x T "ps_reserve_b ps"] assms(8,10,11) T inv(2,3)
    by simp_all
  obtain l where l: "lp_burn (nested_env e (ps_lp_token ps)) p x ?l = Inr l"
    using lp_burn_ok [of ?l "nested_env e (ps_lp_token ps)" p x] assms(2,6,8,19) held by auto
  have checked: "i128_checked_sub (lp_total_supply ?l) 1000 = Some T" "in_i128 (?t - x)"
    "i128_checked_sub (ps_reserve_a ps) a = Some (ps_reserve_a ps - a)"
    "i128_checked_sub (ps_reserve_b ps) b = Some (ps_reserve_b ps - b)"
    "i128_checked_mul (ps_reserve_a ps - a) (ps_reserve_b ps - b) = Some ((ps_reserve_a ps - a) * (ps_reserve_b ps - b))"
    using in_i128_below [of T "lp_total_supply ?l"] in_i128_below [of "?t - x" "lp_total_supply ?l"]
      in_i128_below [of "ps_reserve_a ps - a" "ps_reserve_a ps"] in_i128_below [of "ps_reserve_b ps - b" "ps_reserve_b ps"]
      in_i128_below [of "(ps_reserve_a ps - a) * (ps_reserve_b ps - b)"] mult_nonneg_nonneg [OF left]
      assms(8,9,12,13,18-21) T held left
    by (simp_all add: i128_checked_sub_def i128_checked_mul_def)
  let ?w = "locked_world w"
  have seen: "get_pair_state ?w = Some ps" "get_pending_lp ?w to = x" "get_pending_lp_total ?w = ?t"
    using assms(3,7) by (simp_all add: get_pending_lp_def get_pending_lp_total_def)
  show ?thesis
    unfolding pair_burn_def require_Inr with_guard_Inr Let_def
    using assms(2,4,5,7-9,12-15,22,23) inv(1) seen checked shares l T
    by (auto simp: res_inv ensure_lp_token_not_paused_def MINIMUM_LIQUIDITY_def MINIMUM_RESERVE_def
        burn_lp_amount_def lp_client_burn_def tok_call_def)
qed

definition ex_frozen_world :: "bank world" where
  "ex_frozen_world = ex_exit_world\<lparr>w_pair := (w_pair ex_exit_world)\<lparr>pc_frozen := True\<rparr>\<rparr>"

lemma ex_frozen_wf: "pair_wf (Address 100) ex_frozen_world"
  by (simp add: ex_frozen_world_def ex_exit_world_def pair_inv_def ex_world_def ex_pair_def ex_pool_lp_def
      ex_storage_def fee_params_def get_fee_state_def get_pair_state_def initial_fee_state_def pair_deployed_def
      pending_ok_def entry_sum_def entry_val_def lp_seeded_def lp_base_def lp_supply_ok_def lp_balance_sum_def
      lp_empty_def lp_balance_def)

lemma ex_frozen_pays:
  "\<exists>t1 t2. tok_transfer bank_ops pool_env (Address 10) (Address 100) (Address 1) 1000000 (ex_tokens 1000000 1000000) = Some t1 \<and>
    tok_transfer bank_ops pool_env (Address 11) (Address 100) (Address 1) 1000000 t1 = Some t2"
  by (simp add: call_defs pool_defs int_ops_defs)

theorem staged_provider_can_exit_witness:
  "pc_frozen (w_pair ex_frozen_world) \<and>
   (\<exists>w'. pair_burn bank_ops pool_env (Address 1) ex_frozen_world = Inr ((1000000, 1000000), w'))"
proof -
  obtain t1 t2 where pays:
    "tok_transfer bank_ops pool_env (Address 10) (Address 100) (Address 1) 1000000 (ex_tokens 1000000 1000000) = Some t1"
    "tok_transfer bank_ops pool_env (Address 11) (Address 100) (Address 1) 1000000 t1 = Some t2"
    using ex_frozen_pays by blast
  have view: "get_pair_state ex_frozen_world = Some ex_storage" "get_pending_lp ex_frozen_world (Address 1) = 999000"
    "lp_total_supply (w_lp ex_frozen_world) = 1000000" "w_tok ex_frozen_world = ex_tokens 1000000 1000000"
    "\<not> pc_lp_paused (w_pair ex_frozen_world)" "\<not> lp_paused (w_lp ex_frozen_world)" "pc_frozen (w_pair ex_frozen_world)"
    by (simp_all add: ex_frozen_world_def ex_exit_world_def ex_world_def ex_pair_def pair_deployed_def ex_pool_lp_def
        lp_empty_def get_pair_state_def get_pending_lp_def)
  have "\<exists>w'. pair_burn bank_ops pool_env (Address 1) ex_frozen_world = Inr ((1000000, 1000000), w')"
    by (rule staged_provider_can_exit [OF ex_frozen_wf _ view(1), where x = 999000 and T = 999000 and ?t1.0 = t1 and ?t2.0 = t2])
      (use view pays in \<open>simp_all add: ex_storage_def i128_max_def\<close>)
  with view(7) show ?thesis by blast
qed

section \<open>Pools too large to trade\<close>

text \<open>
  The swap's check multiplies the product of the reserves by \<open>10\<^sup>8\<close> in \<open>i128\<close>, so it overflows
  long before the product itself does, which is all that a deposit asks for.
\<close>

fun trades :: "pair_call \<Rightarrow> bool" where
  "trades (PC_swap a b to) = True"
| "trades (PC_mint_with_one_token to tk x m) = True"
| "trades _ = False"

lemma check_k_range:
  "check_k ps ba bb ia ib fee = Inr u \<Longrightarrow> ps_reserve_a ps * ps_reserve_b ps * 100000000 \<le> i128_max"
  by (auto simp: check_k_def res_inv chk_inv in_i128_def)

lemma swap_inner_range:
  assumes "swap_inner T fv e a b to w = Inr (u, w')" "get_pair_state w = Some ps"
  shows "ps_reserve_a ps * ps_reserve_b ps * 100000000 \<le> i128_max"
proof -
  have "u = ()" by simp
  then show ?thesis
    using assms by (auto elim!: swap_inner_cases dest: check_k_range)
qed

text \<open>
  C34. A pool whose product of reserves exceeds about 1.7 * 10^30 (for example one unit each of two
  tokens with 18 decimals) refuses every swap and every single-sided mint, whoever calls with
  whatever amounts and fee.
\<close>

theorem large_pool_refuses_trades:
  assumes "get_pair_state w = Some ps" "i128_max < ps_reserve_a ps * ps_reserve_b ps * 100000000" "trades op"
  shows "pair_step T fv recv e op w \<noteq> Inr w'"
proof
  assume step: "pair_step T fv recv e op w = Inr w'"
  show False
  proof (cases op)
    case (PC_swap a b to)
    then show ?thesis
      using step assms(1,2) swap_inner_range [of T fv e a b to "locked_world w" _ _ ps]
      by (auto simp: pair_swap_def with_guard_Inr res_inv)
  next
    case (PC_mint_with_one_token to tk x m)
    then obtain y where "pair_mint_with_one_token T fv e to tk x m w = Inr (y, w')"
      using step by auto
    then show ?thesis
    proof (cases rule: pair_mint_with_one_token_Inr)
      case (1 ps0 fs fee swap_in w1 swap_out w2 post l dep_a dep_b r_in r_out)
      have "get_pair_state w1 = Some ps"
        using 1(4,14) assms(1) by (auto simp: res_inv)
      then show ?thesis
        using 1(17) assms(2) by (auto split: if_splits dest!: swap_inner_range)
    qed
  qed (use assms(3) in simp_all)
qed

text \<open>
  The witness: a deposit takes a pool of the example tokens past the limit, a second deposit
  into the pool that is past it is still accepted, and a swap there is not.
\<close>

abbreviation (input) large_storage :: pair_storage where
  "large_storage \<equiv> ex_storage\<lparr>ps_reserve_a := 2000000000000000, ps_reserve_b := 2000000000000000,
     ps_k_last := 4000000000000000000000000000000, ps_timestamp_last := 5000\<rparr>"

lemma ex_large_deposit:
  "\<exists>w1 log. pair_mint bank_ops pool_env (Address 1) (ex_world 2000000000000000 2000000000000000)
      = Inr (1999999999000000, w1) \<and> w_pair w1 = ex_pair\<lparr>pc_state := Some large_storage\<rparr> \<and>
    w_lp w1 = ex_pool_lp\<lparr>lp_balances := [Address 100 \<mapsto> 1000, Address 1 \<mapsto> 1999999999999000],
      lp_total_supply := 2000000000000000, lp_log := log\<rparr>"
  by (simp add: pair_mint_def mint_liquidity_def subsequent_liquidity_def mul_then_div_def
      release_lock_def set_pair_state_def emit_def call_defs pool_defs policy_defs int_ops_defs)

lemma ex_large_second_deposit:
  assumes "w_pair w1 = ex_pair\<lparr>pc_state := Some large_storage\<rparr>"
    "w_lp w1 = ex_pool_lp\<lparr>lp_balances := [Address 100 \<mapsto> 1000, Address 1 \<mapsto> 1999999999999000],
      lp_total_supply := 2000000000000000, lp_log := log\<rparr>"
  shows "\<exists>w2. pair_mint bank_ops pool_env (Address 1)
    (w1\<lparr>w_tok := ex_tokens 4000000000000000 4000000000000000\<rparr>) = Inr (2000000000000000, w2)"
  using assms
  by (simp add: pair_mint_def mint_liquidity_def subsequent_liquidity_def mul_then_div_def
      call_defs pool_defs policy_defs int_ops_defs)

theorem large_pool_refuses_trades_witness:
  "\<exists>w1 w2. pair_mint bank_ops pool_env (Address 1) (ex_world 2000000000000000 2000000000000000)
      = Inr (1999999999000000, w1) \<and>
    pair_mint bank_ops pool_env (Address 1) (w1\<lparr>w_tok := ex_tokens 4000000000000000 4000000000000000\<rparr>)
      = Inr (2000000000000000, w2) \<and>
    (\<forall>w'. pair_step bank_ops ex_view silent_receiver pool_env (PC_swap 0 9860 (Address 1))
      (w1\<lparr>w_tok := ex_tokens 2000000000010000 2000000000000000\<rparr>) \<noteq> Inr w')"
proof -
  obtain w1 log where w1: "pair_mint bank_ops pool_env (Address 1) (ex_world 2000000000000000 2000000000000000)
      = Inr (1999999999000000, w1)" "w_pair w1 = ex_pair\<lparr>pc_state := Some large_storage\<rparr>"
    "w_lp w1 = ex_pool_lp\<lparr>lp_balances := [Address 100 \<mapsto> 1000, Address 1 \<mapsto> 1999999999999000],
      lp_total_supply := 2000000000000000, lp_log := log\<rparr>"
    using ex_large_deposit by blast
  have "get_pair_state (w1\<lparr>w_tok := ex_tokens 2000000000010000 2000000000000000\<rparr>) = Some large_storage"
    using w1(2) by (simp add: get_pair_state_def)
  then have "pair_step bank_ops ex_view silent_receiver pool_env (PC_swap 0 9860 (Address 1))
      (w1\<lparr>w_tok := ex_tokens 2000000000010000 2000000000000000\<rparr>) \<noteq> Inr w'" for w'
    by (rule large_pool_refuses_trades) (simp_all add: i128_max_def)
  with w1(1) ex_large_second_deposit [OF w1(2,3)] show ?thesis by blast
qed

end
