(* ===== verification/Swap_Quote.thy ===== *)
theory Swap_Quote
  imports Pair_Props2
begin

text \<open>
  The check of the swap and the quote are the same function: a one-way swap passes the
  constant-product check exactly when it asks for at most what \<open>quote_output_amount\<close> answers for
  the input the pool received.
\<close>

lemma fair_iff_quote:
  assumes "quote_output_amount x r_in r_out fee = Inr q"
  shows "t \<le> q \<longleftrightarrow> r_in * r_out * 100000000 \<le> ((r_in + x) * 10000 - x * fee) * ((r_out - t) * 10000)"
proof -
  have "t \<le> q \<longleftrightarrow> r_in * 10000 * r_out \<le> (r_in * 10000 + x * (10000 - fee)) * (r_out - t)"
    using output_quote_is_largest_fair_output [OF assms] by blast
  also have "\<dots> \<longleftrightarrow> (r_in * 10000 * r_out) * 10000 \<le> ((r_in * 10000 + x * (10000 - fee)) * (r_out - t)) * 10000"
    by (simp only: mult_le_cancel_right_pos)
  also have "\<dots> \<longleftrightarrow> r_in * r_out * 100000000 \<le> ((r_in + x) * 10000 - x * fee) * ((r_out - t) * 10000)"
    by (simp add: algebra_simps)
  finally show ?thesis .
qed

text \<open>Everything the check computes is below the largest product.\<close>

lemma adjusted_in_range:
  assumes "0 \<le> fee" "fee \<le> 10000" "0 \<le> x" "x \<le> r" "0 < s" "r * 10000 * (s * 10000) \<le> i128_max"
  shows "in_i128 (r * 10000)" "in_i128 (x * fee)" "in_i128 (r * 10000 - x * fee)" "0 \<le> r * 10000 - x * fee"
    "r * 10000 - x * fee \<le> r * 10000"
proof -
  have "x * fee \<le> r * 10000" "0 \<le> x * fee"
    using assms(1-4) by (auto intro: mult_mono)
  moreover have "r * 10000 * 1 \<le> r * 10000 * (s * 10000)"
    using assms(3-5) by (intro mult_left_mono) auto
  ultimately show "in_i128 (r * 10000)" "in_i128 (x * fee)" "in_i128 (r * 10000 - x * fee)"
    "0 \<le> r * 10000 - x * fee" "r * 10000 - x * fee \<le> r * 10000"
    using assms(6) by (simp_all add: in_i128_def i128_min_def)
qed

text \<open>
  C16. The constant-product check accepts a one-way swap exactly up to the quote. For reserves in
  range, an input \<open>x\<close> of one token and a request of \<open>t\<close> of the other, in either direction, the
  check of \<open>swap\<close> returns success when \<open>t\<close> is at most what \<open>quote_output_amount\<close> answers and
  \<open>InvalidK\<close> when it is one unit more: the quote is the exact boundary of what the pool sells.
\<close>

theorem swap_check_is_the_quote:
  assumes "quote_output_amount x r_in r_out fee = Inr q" "0 \<le> fee" "0 \<le> t" "t < r_out"
    and "(r_in + x) * 10000 * (r_out * 10000) \<le> i128_max"
  shows "(ps_reserve_a ps = r_in \<and> ps_reserve_b ps = r_out \<longrightarrow>
      check_k ps (r_in + x) (r_out - t) x 0 fee = (if t \<le> q then Inr () else Inl (Err P_InvalidK))) \<and>
    (ps_reserve_b ps = r_in \<and> ps_reserve_a ps = r_out \<longrightarrow>
      check_k ps (r_out - t) (r_in + x) 0 x fee = (if t \<le> q then Inr () else Inl (Err P_InvalidK)))"
proof -
  let ?in = "(r_in + x) * 10000 - x * fee" and ?out = "(r_out - t) * 10000"
  note spec = quote_output_spec [OF assms(1)] and fair = fair_iff_quote [OF assms(1), of t]
  have pos: "0 < r_in + x" "0 < r_out - t" "r_out - t \<le> r_out"
    using spec(1,2) assms(3,4) by simp_all
  note adj = adjusted_in_range [OF assms(2) _ _ _ spec(3) assms(5), of x]
  have inp: "in_i128 ((r_in + x) * 10000)" "in_i128 (x * fee)" "in_i128 ?in" "0 \<le> ?in" "?in \<le> (r_in + x) * 10000"
    using adj spec(1,2,4) by simp_all
  have below: "y \<le> (r_in + x) * 10000 * (r_out * 10000) \<Longrightarrow> 0 \<le> y \<Longrightarrow> in_i128 y" for y
    using assms(5) by (simp add: in_i128_def i128_min_def)
  have "in_i128 ?out"
    using pos mult_mono [of 1 "(r_in + x) * 10000" ?out "r_out * 10000"] by (intro below) simp_all
  moreover have "in_i128 (?in * ?out)" "in_i128 (?out * ?in)"
    using inp(4,5) pos mult_mono [of ?in "(r_in + x) * 10000" ?out "r_out * 10000"]
    by (auto intro!: below simp: mult.commute)
  moreover have "in_i128 (r_in * r_out)" "in_i128 (r_in * r_out * 100000000)"
    using spec(1-3) mult_mono [of r_in "r_in + x" r_out r_out]
    by (auto intro!: below simp: mult_ac)
  ultimately have range: "in_i128 ?out" "in_i128 (?in * ?out)" "in_i128 (?out * ?in)" "in_i128 (r_in * r_out)"
    "in_i128 (r_out * r_in)" "in_i128 (r_in * r_out * 100000000)" "in_i128 (r_out * r_in * 100000000)" "in_i128 0"
    by (simp_all add: mult.commute in_i128_def i128_min_def i128_max_def)
  have fair': "t \<le> q \<longleftrightarrow> r_out * r_in * 100000000 \<le> ?out * ?in"
    unfolding fair by (simp only: mult.commute [of r_out] mult.commute [of ?out])
  note eval = check_k_def adjusted_balance_def i128_checked_mul_def i128_checked_sub_def BPS_DENOMINATOR_def
    reject_def not_less
  show ?thesis
    using inp range fair fair' by (auto simp: eval)
qed

theorem swap_check_is_the_quote_witness:
  "check_k ex_storage 1010000 (1000000 - 9871) 10000 0 30 = Inr () \<and>
   check_k ex_storage 1010000 (1000000 - 9872) 10000 0 30 = Inl (Err P_InvalidK)"
proof -
  have q: "quote_output_amount 10000 1000000 1000000 30 = Inr 9871"
    by (simp add: quote_output_amount_def fee_factor_def policy_defs int_ops_defs)
  have "ps_reserve_a ex_storage = 1000000" "ps_reserve_b ex_storage = 1000000"
    by (simp_all add: ex_storage_def)
  then show ?thesis
    using swap_check_is_the_quote [OF q, of 9871 ex_storage] swap_check_is_the_quote [OF q, of 9872 ex_storage]
    by (simp add: i128_max_def)
qed

section \<open>The swap\<close>

text \<open>
  C17. No swap beats the quote. When the pool holds no more of the outgoing token than its reserve
  and somebody else is paid, a successful one-way swap pays at most what the quote answers for the
  tokens the pool really received, at the fee the pair charges then; in either direction.
\<close>

theorem swap_never_beats_the_quote:
  assumes "sep41 T" "pair_swap T fv e a_out b_out to w = Inr (u, w')" "get_pair_state w = Some ps"
    and "ps_token_a ps \<noteq> ps_token_b ps" "to \<noteq> e_self e" "get_fee_state w = Some fs"
    and "x = tok_held T e (ps_token_a ps) w - ps_reserve_a ps" "y = tok_held T e (ps_token_b ps) w - ps_reserve_b ps"
  shows "\<exists>fs' dyn fee. decay_stale_ema e fs = Inr fs' \<and> compute_fee_bps fs' = Inr dyn \<and>
    fee = effective_fee fv (e_self e) dyn \<and>
    (\<forall>q. a_out = 0 \<longrightarrow> y = 0 \<longrightarrow> quote_output_amount x (ps_reserve_a ps) (ps_reserve_b ps) fee = Inr q \<longrightarrow> b_out \<le> q) \<and>
    (\<forall>q. b_out = 0 \<longrightarrow> x = 0 \<longrightarrow> quote_output_amount y (ps_reserve_b ps) (ps_reserve_a ps) fee = Inr q \<longrightarrow> a_out \<le> q)"
proof -
  obtain v where v: "swap_inner T fv e a_out b_out to (locked_world w) = Inr (u, v)"
    using assms(2) by (auto simp: pair_swap_def with_guard_Inr res_inv)
  have u: "u = ()" by simp
  show ?thesis
    using v
  proof (cases rule: swap_inner_cases)
    case (1 ps0 fs0 fs1 dyn w1 w2 in_a in_b pf_a pf_b w3 fs')
    let ?fee = "effective_fee fv (e_self e) dyn"
    have eqs: "ps0 = ps" "fs0 = fs"
      using 1(2,3) assms(3,6) by simp_all
    have held: "tok_held T e tk w2 = tok_held T e tk w - (if tk = ps_token_a ps then max a_out 0 else 0)
        - (if tk = ps_token_b ps then max b_out 0 else 0)" for tk
      using sep41.pay_out_held [OF assms(1) 1(7), of tk] sep41.pay_out_held [OF assms(1) 1(8), of tk] assms(5) eqs
      by simp
    note ins = 1(9-11) [unfolded swap_input_Inr eqs held] and check = check_k_Inr(1) [OF 1(12), unfolded eqs held]
    have "b_out \<le> q" if "a_out = 0" "y = 0" "quote_output_amount x (ps_reserve_a ps) (ps_reserve_b ps) ?fee = Inr q" for q
      using ins check 1(1) that(1,2) assms(4,7,8) fair_iff_quote [OF that(3), of b_out] quote_output_spec(1) [OF that(3)]
      by (auto simp: max_def split: if_splits)
    moreover have "a_out \<le> q" if "b_out = 0" "x = 0" "quote_output_amount y (ps_reserve_b ps) (ps_reserve_a ps) ?fee = Inr q" for q
      using ins check 1(1) that(1,2) assms(4,7,8) fair_iff_quote [OF that(3), of a_out] quote_output_spec(1) [OF that(3)]
      by (auto simp: max_def mult_ac split: if_splits)
    ultimately show ?thesis
      using 1(5,6) eqs by blast
  qed
qed

theorem swap_never_beats_the_quote_witness:
  "\<exists>w' fs' dyn. pair_swap bank_ops ex_view pool_env 0 9860 (Address 1) (ex_world 1010000 1000000) = Inr ((), w') \<and>
    decay_stale_ema pool_env initial_fee_state = Inr fs' \<and> compute_fee_bps fs' = Inr dyn \<and>
    (\<forall>q. quote_output_amount 10000 1000000 1000000 (effective_fee ex_view (e_self pool_env) dyn) = Inr q \<longrightarrow> 9860 \<le> q)"
proof -
  obtain w' where w': "pair_swap bank_ops ex_view pool_env 0 9860 (Address 1) (ex_world 1010000 1000000) = Inr ((), w')"
    using ex_swap_ok by blast
  have "tok_held bank_ops pool_env (ps_token_a ex_storage) (ex_world 1010000 1000000) - ps_reserve_a ex_storage = 10000"
    "tok_held bank_ops pool_env (ps_token_b ex_storage) (ex_world 1010000 1000000) - ps_reserve_b ex_storage = 0"
    "ps_reserve_a ex_storage = 1000000" "ps_reserve_b ex_storage = 1000000" "ps_token_a ex_storage \<noteq> ps_token_b ex_storage"
    "Address 1 \<noteq> e_self pool_env"
    by (simp_all add: ex_storage_def tok_held_def bank_ops_def ex_world_def ex_tokens_def ex_token_def lp_balance_def
        pool_env_def)
  then show ?thesis
    using w' swap_never_beats_the_quote [OF lp_bank.sep41_axioms w' ex_world_state(1) _ _ ex_world_state(2) refl refl]
    by auto
qed

end
