(* ===== verification/Oracle_Twap.thy ===== *)
theory Oracle_Twap
  imports Pair_Oracle
begin

text \<open>
  The price oracle end to end (\<open>oracle/mod.rs\<close>): a pool that hands the oracle its reserves at
  every change, with the ledgers since the change before, is answered the exact time-weighted
  average of its prices. The wrap-around of the accumulators, the reuse of slots and the
  interpolation at the start of the window leave no trace in the answer.
\<close>

section \<open>Wrapping arithmetic\<close>

lemma wrap_wrap_add: "i128_wrap (i128_wrap x + y) = i128_wrap (x + y)"
proof -
  have "(i128_wrap x + y + 2 ^ 127) mod 2 ^ 128 = ((x + 2 ^ 127) mod 2 ^ 128 + y) mod 2 ^ 128"
    by (simp add: i128_wrap_def)
  also have "\<dots> = (x + 2 ^ 127 + y) mod 2 ^ 128"
    by (rule mod_add_left_eq)
  finally show ?thesis
    unfolding i128_wrap_def [of "i128_wrap x + y"] i128_wrap_def [of "x + y"] by (simp only: ac_simps)
qed

lemma wrap_add_wrap: "i128_wrap (x + i128_wrap y) = i128_wrap (x + y)"
  using wrap_wrap_add [of y x] by (simp add: add.commute)

lemma wrap_diff_wraps: "i128_wrap (i128_wrap x - i128_wrap y) = i128_wrap (x - y)"
proof -
  let ?n = "2 ^ 128 :: int" and ?h = "2 ^ 127 :: int"
  have "(i128_wrap x - i128_wrap y + ?h) mod ?n = ((x + ?h) mod ?n - ((y + ?h) mod ?n - ?h)) mod ?n"
    by (rule arg_cong [where f = "\<lambda>z. z mod ?n"]) (simp only: i128_wrap_def diff_diff_eq2 diff_add_cancel)
  also have "\<dots> = (x + ?h - ((y + ?h) mod ?n - ?h)) mod ?n"
    by (rule mod_diff_left_eq)
  also have "\<dots> = (x + ?h + ?h - (y + ?h) mod ?n) mod ?n"
    by (simp only: diff_diff_eq2)
  also have "\<dots> = (x + ?h + ?h - (y + ?h)) mod ?n"
    by (rule mod_diff_right_eq)
  finally show ?thesis
    unfolding i128_wrap_def [of "i128_wrap x - i128_wrap y"] i128_wrap_def [of "x - y"]
    by (simp add: algebra_simps)
qed

section \<open>Prices and accumulated prices\<close>

text \<open>An update: its ledger, and the reserves that were in effect since the update before.\<close>

type_synonym update = "int \<times> int \<times> int"

text \<open>The price in effect at a ledger is that of the first update at or after it.\<close>

fun price_at :: "(int \<times> int) list \<Rightarrow> int \<Rightarrow> int" where
  "price_at [] s = 0"
| "price_at ((l, p) # ps) s = (if s \<le> l then p else price_at ps s)"

definition prices_a :: "update list \<Rightarrow> (int \<times> int) list" where
  "prices_a = map (\<lambda>(l, reserve_a, reserve_b). (l, reserve_b div reserve_a))"

definition prices_b :: "update list \<Rightarrow> (int \<times> int) list" where
  "prices_b = map (\<lambda>(l, reserve_a, reserve_b). (l, reserve_a div reserve_b))"

text \<open>The true accumulator, without wrap-around: the sum of the prices of all ledgers so far.\<close>

definition accumulated :: "int \<Rightarrow> (int \<times> int) list \<Rightarrow> int \<Rightarrow> int" where
  "accumulated n ps t = (\<Sum>s \<in> {n<..t}. price_at ps s)"

lemma accumulated_split:
  assumes "n \<le> m" "m \<le> t"
  shows "accumulated n ps t = accumulated n ps m + (\<Sum>s \<in> {m<..t}. price_at ps s)"
proof -
  have "{n<..t} = {n<..m} \<union> {m<..t}" "{n<..m} \<inter> {m<..t} = {}"
    using assms by auto
  then show ?thesis
    unfolding accumulated_def by (simp add: sum.union_disjoint)
qed

text \<open>Between two updates the price is constant.\<close>

definition flat :: "(int \<Rightarrow> int) \<Rightarrow> int \<Rightarrow> int \<Rightarrow> int \<Rightarrow> bool" where
  "flat C p m l \<longleftrightarrow> (\<forall>t. m \<le> t \<longrightarrow> t \<le> l \<longrightarrow> C t = C m + p * (t - m))"

lemma flatD: "flat C p m l \<Longrightarrow> m \<le> t \<Longrightarrow> t \<le> l \<Longrightarrow> C t = C m + p * (t - m)"
  unfolding flat_def by blast

lemma flat_accumulated:
  assumes "n \<le> m" "\<And>s. m < s \<Longrightarrow> s \<le> l \<Longrightarrow> price_at ps s = p"
  shows "flat (accumulated n ps) p m l"
  unfolding flat_def
proof (intro allI impI)
  fix t
  assume t: "m \<le> t" "t \<le> l"
  have "(\<Sum>s \<in> {m<..t}. price_at ps s) = (\<Sum>s \<in> {m<..t}. p)"
    using assms(2) t by (intro sum.cong [OF refl]) simp
  also have "\<dots> = p * (t - m)"
    using t(1) by (simp add: mult.commute)
  finally show "accumulated n ps t = accumulated n ps m + p * (t - m)"
    using accumulated_split [OF assms(1) t(1), of ps] by (simp only:)
qed

lemma price_at_append:
  "\<forall>l \<in> fst ` set ps. l < s \<Longrightarrow> price_at (ps @ qs) s = price_at qs s"
  by (induction ps) auto

lemma price_at_cases: "price_at ps s = 0 \<or> (\<exists>l. (l, price_at ps s) \<in> set ps)"
  by (induction ps s rule: price_at.induct) auto

section \<open>The samples of the ring\<close>

text \<open>
  What the ring holds after the update of ledger \<open>n\<close>, for true accumulators \<open>C\<close> and \<open>D\<close>: samples
  of both, in the order of their ledgers, at most a window apart, with a flat price in between.
\<close>

definition segment :: "(int \<Rightarrow> int) \<Rightarrow> (int \<Rightarrow> int) \<Rightarrow> int \<Rightarrow> int \<Rightarrow> int \<Rightarrow> bool" where
  "segment C D M m l \<longleftrightarrow> m < l \<and> l \<le> m + 86400 \<and>
     (\<exists>p q. 0 \<le> p \<and> p \<le> M \<and> 0 \<le> q \<and> q \<le> M \<and> flat C p m l \<and> flat D q m l)"

definition oracle_tracks :: "(int \<Rightarrow> int) \<Rightarrow> (int \<Rightarrow> int) \<Rightarrow> int \<Rightarrow> int \<Rightarrow> oracle_state \<Rightarrow> bool" where
  "oracle_tracks C D M n st \<longleftrightarrow> ring_ok st \<and>
     price_a_cumulative st = i128_wrap (C n) \<and> price_b_cumulative st = i128_wrap (D n) \<and>
     (\<forall>x \<in> set (ring_list st). x = (fst x, i128_wrap (C (fst x)), i128_wrap (D (fst x)))) \<and>
     successively (\<lambda>x y. segment C D M (fst x) (fst y)) (ring_list st) \<and>
     (ring_list st \<noteq> [] \<longrightarrow> fst (last (ring_list st)) = n)"

lemma successively_dropWhile: "successively P xs \<Longrightarrow> successively P (dropWhile Q xs)"
  using successively_append_iff [of P "takeWhile Q xs" "dropWhile Q xs"] by simp

lemma successively_tl: "successively P xs \<Longrightarrow> successively P (tl xs)"
  by (cases xs) (auto simp: successively_Cons)

lemma successively_bounded_snoc:
  assumes "successively P xs" "xs \<noteq> [] \<Longrightarrow> P (last xs) x"
  shows "successively P (bounded_snoc n xs x)"
proof -
  have "tl xs \<noteq> [] \<Longrightarrow> P (last (tl xs)) x"
    using assms(2) by (cases xs) auto
  then show ?thesis
    using assms successively_tl [OF assms(1)] by (auto simp: bounded_snoc_def successively_append_iff)
qed

lemma set_bounded_snoc: "set (bounded_snoc n xs x) \<subseteq> insert x (set xs)"
  by (cases xs) (auto simp: bounded_snoc_def)

lemma last_bounded_snoc [simp]: "last (bounded_snoc n xs x) = x" "bounded_snoc n xs x \<noteq> []"
  by (simp_all add: bounded_snoc_def)

lemma last_dropWhile: "dropWhile Q xs \<noteq> [] \<Longrightarrow> last (dropWhile Q xs) = last xs"
  by (metis last_appendR takeWhile_dropWhile_id)

lemma segments_sorted:
  "successively (\<lambda>x y. segment C D M (fst x) (fst y)) xs \<Longrightarrow> x \<in> set xs \<Longrightarrow> fst x \<le> fst (last xs)"
proof (induction xs arbitrary: x)
  case (Cons y xs)
  have "fst y \<le> fst (last xs)" if "xs \<noteq> []"
    using Cons.IH [OF _ hd_in_set [OF that]] Cons.prems(1) that by (auto simp: successively_Cons segment_def)
  moreover have "fst x \<le> fst (last xs)" if "x \<in> set xs"
    using Cons.IH [OF _ that] Cons.prems(1) that by (auto simp: successively_Cons)
  ultimately show ?case
    using Cons.prems(2) by auto
qed simp

lemma prune_expired_cumulative [simp]:
  "price_a_cumulative (prune_expired now st) = price_a_cumulative st"
  "price_b_cumulative (prune_expired now st) = price_b_cumulative st"
proof (induction now st rule: prune_expired.induct)
  case (1 now st)
  {
    case 1
    then show ?case
      using "1.IH" by (subst prune_expired.simps) (auto split: option.split)
  next
    case 2
    then show ?case
      using "1.IH" by (subst prune_expired.simps) (auto split: option.split)
  }
qed

lemma oracle_push_cumulative:
  "oracle_push s st = Some st' \<Longrightarrow> price_a_cumulative st' = price_a_cumulative st \<and>
     price_b_cumulative st' = price_b_cumulative st"
  by (auto simp: oracle_push_def Let_def split: if_splits)

text \<open>One update, from the ledger \<open>m\<close> of the update before.\<close>

lemma oracle_update_tracks:
  assumes tracks: "oracle_tracks C D M m st"
    and res: "0 < reserve_a" "reserve_a \<le> i128_max" "0 < reserve_b" "reserve_b \<le> i128_max"
    and price: "reserve_b div reserve_a \<le> M" "reserve_a div reserve_b \<le> M"
    and l: "m < l" "flat C (reserve_b div reserve_a) m l" "flat D (reserve_a div reserve_b) m l"
  shows "\<exists>st'. update_cumulative_prices (e\<lparr>e_sequence := l\<rparr>) reserve_a reserve_b (l - m) st = Inr st' \<and>
    oracle_tracks C D M l st' \<and> ring_list st' \<noteq> [] \<and> fst ` set (ring_list st') \<subseteq> insert l (fst ` set (ring_list st))"
proof -
  let ?p = "reserve_b div reserve_a" and ?q = "reserve_a div reserve_b"
  have p: "reserve_b sdiv reserve_a = ?p" "reserve_a sdiv reserve_b = ?q" "0 \<le> ?p" "0 \<le> ?q"
    using res by (simp_all add: sdiv_nonneg pos_imp_zdiv_nonneg_iff)
  have "?p \<le> reserve_b" "?q \<le> reserve_a"
    using res zdiv_mono2 [of reserve_b 1 reserve_a] zdiv_mono2 [of reserve_a 1 reserve_b] by simp_all
  then have arith: "arith ?p = Inr ?p" "arith ?q = Inr ?q"
    using p res by (simp_all add: arith_def in_i128_nonneg)
  define st1 where "st1 = st\<lparr>price_a_cumulative := i128_wrap (C l), price_b_cumulative := i128_wrap (D l)\<rparr>"
  have acc: "i128_wrap (price_a_cumulative st + i128_wrap (?p * (l - m))) = i128_wrap (C l)"
      "i128_wrap (price_b_cumulative st + i128_wrap (?q * (l - m))) = i128_wrap (D l)"
    using tracks flatD [OF l(2), of l] flatD [OF l(3), of l] l(1)
    by (simp_all add: oracle_tracks_def wrap_wrap_add wrap_add_wrap)
  let ?Q = "\<lambda>s :: observation. fst s + 86400 < l" and ?x = "(l, i128_wrap (C l), i128_wrap (D l))"
  let ?L = "dropWhile ?Q (ring_list st)" and ?seg = "\<lambda>x y. segment C D M (fst x) (fst y)"
  have st1: "ring_ok st1" "ring_list st1 = ring_list st"
    using tracks by (simp_all add: st1_def oracle_tracks_def ring_ok_def ring_list_def)
  note prune = ring_prune [OF st1(1), of l, unfolded st1(2)]
  obtain st' where st': "oracle_push ?x (prune_expired l st1) = Some st'" "ring_ok st'" "ring_list st' = bounded_snoc 24 ?L ?x"
    using ring_push [of "prune_expired l st1" ?x] prune by auto
  have cum: "price_a_cumulative st' = i128_wrap (C l)" "price_b_cumulative st' = i128_wrap (D l)"
    using oracle_push_cumulative [OF st'(1)] by (simp_all add: st1_def)
  have updated: "update_cumulative_prices (e\<lparr>e_sequence := l\<rparr>) reserve_a reserve_b (l - m) st = Inr st'"
    using res l(1) st'(1) by (simp add: update_cumulative_prices_def p arith acc or_panic_def st1_def Let_def)
  have "?seg (last ?L) ?x" if "?L \<noteq> []"
  proof -
    have "fst (last ?L) = m"
      using that tracks last_dropWhile [OF that] by (auto simp: oracle_tracks_def)
    moreover have "fst (hd ?L) \<le> fst (last ?L)"
      using tracks that by (intro segments_sorted [OF successively_dropWhile]) (auto simp: oracle_tracks_def)
    moreover have "l \<le> fst (hd ?L) + 86400"
      using hd_dropWhile [OF that] by simp
    ultimately show ?thesis
      using l p(3,4) price by (auto simp: segment_def)
  qed
  then have "successively ?seg (ring_list st')"
    using tracks successively_dropWhile [of ?seg "ring_list st" ?Q] unfolding st'(3)
    by (intro successively_bounded_snoc) (simp_all add: oracle_tracks_def)
  moreover have "fst ` set (ring_list st') \<subseteq> insert l (fst ` set (ring_list st))"
    using set_bounded_snoc [of 24 ?L ?x] set_dropWhileD unfolding st'(3) by fastforce
  moreover have "\<forall>x \<in> set (ring_list st'). x = (fst x, i128_wrap (C (fst x)), i128_wrap (D (fst x)))"
  proof
    fix x
    assume "x \<in> set (ring_list st')"
    then have "x = ?x \<or> x \<in> set (ring_list st)"
      using set_bounded_snoc [of 24 ?L ?x] set_dropWhileD unfolding st'(3) by fast
    then show "x = (fst x, i128_wrap (C (fst x)), i128_wrap (D (fst x)))"
      using tracks by (auto simp only: oracle_tracks_def fst_conv)
  qed
  ultimately have "oracle_tracks C D M l st'" "ring_list st' \<noteq> []"
      "fst ` set (ring_list st') \<subseteq> insert l (fst ` set (ring_list st))"
    using st'(2,3) cum by (simp_all add: oracle_tracks_def)
  then show ?thesis
    using updated by blast
qed

section \<open>Consulting the ring\<close>

text \<open>The scan, on the list of the samples.\<close>

fun scan_list :: "int \<Rightarrow> observation list \<Rightarrow> observation \<Rightarrow> observation \<Rightarrow> observation \<times> observation" where
  "scan_list target [] s e = (s, e)"
| "scan_list target (x # xs) s e =
     (let s' = if fst x \<le> target then x else s in
      if target \<le> fst x \<and> fst e \<le> target then (s', x) else scan_list target xs s' e)"

lemma twap_scan_list:
  assumes "ring_ok st"
  shows "i \<le> count st \<Longrightarrow> twap_scan st target [i..<count st] s e = Inr (scan_list target (drop i (ring_list st)) s e)"
proof (induction "count st - i" arbitrary: i s)
  case 0
  then show ?case by simp
next
  case (Suc n)
  then have i: "i < count st" by simp
  then have "[i..<count st] = i # [Suc i..<count st]" "drop i (ring_list st) = ring_list st ! i # drop (Suc i) (ring_list st)"
    by (simp_all add: upt_conv_Cons Cons_nth_drop_Suc)
  then show ?case
    using Suc.hyps(1) [of "Suc i"] Suc.hyps(2) i
    by (simp add: ring_sample [OF assms] or_panic_def bindR_def Let_def del: upt_Suc)
qed

text \<open>The scan stops at the first sample that is not before the target.\<close>

lemma scan_list_first:
  assumes "\<forall>y \<in> set before. fst y < target" "target \<le> fst x" "fst e \<le> target"
  shows "scan_list target (before @ x # after) s e =
    (if fst x = target then x else if before = [] then s else last before, x)"
  using assms(1)
proof (induction before arbitrary: s)
  case (Cons y before)
  then have "fst y < target" by simp
  then show ?case
    using Cons assms(2) by (simp add: Let_def)
qed (use assms(2,3) in \<open>auto simp: Let_def\<close>)

text \<open>Interpolation on a flat segment is exact.\<close>

lemma interpolate_flat:
  assumes "flat C p m l" "m < l" "m \<le> target" "target \<le> l" "0 \<le> p" "p * (l - m) * (l - m) \<le> i128_max"
  shows "interpolate target m (i128_wrap (C m)) l (i128_wrap (C l)) = Inr (i128_wrap (C target))"
proof -
  have d: "C l = C m + p * (l - m)" "C target = C m + p * (target - m)"
    using flatD [OF assms(1), of l] flatD [OF assms(1), of target] assms(2-4) by linarith+
  have "p * (l - m) * 1 \<le> p * (l - m) * (l - m)"
    using assms(2,5) by (intro mult_left_mono) auto
  then have "in_i128 (p * (l - m))"
    using assms(2,5,6) by (simp add: in_i128_nonneg)
  then have wrapped: "i128_wrap (i128_wrap (C l) - i128_wrap (C m)) = p * (l - m)"
    by (simp add: wrap_diff_wraps d)
  have "p * (l - m) * (target - m) \<le> p * (l - m) * (l - m)"
    using assms(2,4,5) by (intro mult_left_mono) auto
  then have scaled: "arith (p * (l - m) * (target - m)) = Inr (p * (l - m) * (target - m))"
    using assms by (simp add: arith_def in_i128_nonneg)
  have "p * (l - m) * (target - m) sdiv (l - m) = p * (target - m)"
    using assms(2,3,5) sdiv_nonneg [of "p * (l - m) * (target - m)" "l - m"] by simp
  then show ?thesis
    using assms(2) by (simp add: interpolate_def wrapped scaled wrap_wrap_add d(2) bindR_def)
qed

lemma interpolate_at [simp]: "interpolate target l v l v' = Inr v"
  by (simp add: interpolate_def)

text \<open>Whatever the scan stops at, the accumulator at the start of the window is recovered.\<close>

lemma scan_interpolates:
  assumes "successively (\<lambda>x y. segment C D M (fst x) (fst y)) xs" "M * 86400 * 86400 \<le> i128_max"
    and "\<forall>x \<in> set xs. x = (fst x, i128_wrap (C (fst x)), i128_wrap (D (fst x)))"
    and "xs \<noteq> []" "fst (hd xs) \<le> target" "target \<le> fst (last xs)"
  obtains m a b l a' b' where "scan_list target xs (hd xs) (hd xs) = ((m, a, b), (l, a', b'))"
    "interpolate target m a l a' = Inr (i128_wrap (C target))"
    "interpolate target m b l b' = Inr (i128_wrap (D target))"
proof -
  let ?P = "\<lambda>y :: observation. fst y < target"
  define before x after where split: "before = takeWhile ?P xs" "x = hd (dropWhile ?P xs)" "after = tl (dropWhile ?P xs)"
  have "dropWhile ?P xs \<noteq> []"
    using assms(4,6) by (auto simp: not_less intro!: last_in_set bexI [of _ "last xs"])
  then have xs: "xs = before @ x # after" and x: "target \<le> fst x" and b: "\<forall>y \<in> set before. fst y < target"
    using hd_dropWhile [of ?P xs] by (auto simp: split not_less dest: set_takeWhileD)
  have scan: "scan_list target xs (hd xs) (hd xs) =
      (if fst x = target then x else if before = [] then hd xs else last before, x)"
    unfolding xs by (rule scan_list_first [OF b x]) (use assms(5) xs in simp)
  have x_eq: "x = (fst x, i128_wrap (C (fst x)), i128_wrap (D (fst x)))"
    using assms(3) xs by simp
  show thesis
  proof (cases "fst x = target")
    case True
    then show thesis
      using scan x_eq by (intro that [of target "i128_wrap (C target)" "i128_wrap (D target)" target]) simp_all
  next
    case False
    then have ne: "before \<noteq> []"
      using x assms(5) xs by auto
    let ?y = "last before"
    have y: "?y \<in> set before" "?y = (fst ?y, i128_wrap (C (fst ?y)), i128_wrap (D (fst ?y)))"
      using ne assms(3) xs last_in_set [OF ne] by simp_all
    have "segment C D M (fst ?y) (fst x)"
      using assms(1) ne unfolding xs by (simp add: successively_append_iff)
    then obtain p q where seg: "fst ?y < fst x" "fst x - fst ?y \<le> 86400" "0 \<le> p" "p \<le> M" "0 \<le> q" "q \<le> M"
        "flat C p (fst ?y) (fst x)" "flat D q (fst ?y) (fst x)"
      by (auto simp: segment_def)
    have small: "r * (fst x - fst ?y) * (fst x - fst ?y) \<le> i128_max" if "0 \<le> r" "r \<le> M" for r
    proof -
      have "r * (fst x - fst ?y) * (fst x - fst ?y) \<le> M * 86400 * 86400"
        using that seg(1,2) by (intro mult_mono) auto
      then show ?thesis using assms(2) by simp
    qed
    have "fst ?y \<le> target"
      using b y(1) by (simp add: less_imp_le)
    note inter = interpolate_flat [OF seg(7,1) this x seg(3) small [OF seg(3,4)]]
      interpolate_flat [OF seg(8,1) this x seg(5) small [OF seg(5,6)]]
    show thesis
      by (rule that [OF _ inter]) (use scan False ne y(2) x_eq in simp)
  qed
qed

lemma consult_tracks:
  assumes tracks: "oracle_tracks C D M (e_sequence e) st" and "M * 86400 * 86400 \<le> i128_max"
    and w: "0 < w" "w \<le> 86400" "ring_list st \<noteq> []" "fst (hd (ring_list st)) \<le> e_sequence e - w" "w \<le> e_sequence e"
    and range: "0 \<le> C (e_sequence e) - C (e_sequence e - w)" "C (e_sequence e) - C (e_sequence e - w) \<le> i128_max"
      "0 \<le> D (e_sequence e) - D (e_sequence e - w)" "D (e_sequence e) - D (e_sequence e - w) \<le> i128_max"
  shows "consult_twap e w st = Inr ((C (e_sequence e) - C (e_sequence e - w)) div w,
    (D (e_sequence e) - D (e_sequence e - w)) div w)"
proof -
  let ?now = "e_sequence e" and ?L = "ring_list st"
  have ok: "ring_ok st" and last: "fst (last ?L) = ?now"
    using tracks w(3) by (simp_all add: oracle_tracks_def)
  have c: "count st \<noteq> 0"
    using w(3) by (metis length_0_conv length_ring_list)
  have sat: "u64_saturating_sub ?now w = ?now - w" "u64_saturating_sub ?now (?now - w) = w"
    using w by (simp_all add: u64_saturating_sub_def)
  have first: "oracle_sample st 0 = Some (hd ?L)" and newest: "oracle_newest st = Some (last ?L)"
    using ring_sample [OF ok, of 0] oracle_newest_ring [OF ok] c w(3) by (simp_all add: hd_conv_nth)
  have last_eq: "last ?L = (?now, i128_wrap (C ?now), i128_wrap (D ?now))"
    using tracks w(3) last unfolding oracle_tracks_def by (metis last_in_set)
  obtain m a b l a' b' where scan: "scan_list (?now - w) ?L (hd ?L) (hd ?L) = ((m, a, b), (l, a', b'))"
      "interpolate (?now - w) m a l a' = Inr (i128_wrap (C (?now - w)))"
      "interpolate (?now - w) m b l b' = Inr (i128_wrap (D (?now - w)))"
    using tracks w last assms(2) by (elim scan_interpolates [rotated 6]) (auto simp: oracle_tracks_def)
  have scanned: "twap_scan st (?now - w) [0..<count st] (hd ?L) (hd ?L) = Inr ((m, a, b), (l, a', b'))"
    using twap_scan_list [OF ok, of 0] scan(1) by simp
  show ?thesis
    using w c range
    by (simp add: consult_twap_def MAX_TWAP_WINDOW_def reject_def Let_def sat first newest last_eq scanned scan(2,3)
        or_panic_def bindR_def wrap_diff_wraps in_i128_nonneg sdiv_nonneg)
qed

section \<open>A pool that reports to the oracle\<close>

text \<open>
  At every update the oracle is handed the reserves that were in effect and the number of ledgers
  since the update before, as the tests of the module do.
\<close>

fun oracle_run :: "env \<Rightarrow> int \<Rightarrow> update list \<Rightarrow> oracle_state \<Rightarrow> (oracle_error, oracle_state) res" where
  "oracle_run e n [] st = Inr st"
| "oracle_run e n ((l, reserve_a, reserve_b) # us) st =
     bindR (update_cumulative_prices (e\<lparr>e_sequence := l\<rparr>) reserve_a reserve_b (l - n) st) (oracle_run e l us)"

text \<open>Reserves in range, and prices whose product with two windows is; about \<open>2 * 10 ^ 28\<close>.\<close>

definition max_price :: int where
  "max_price = i128_max div (86400 * 86400)"

definition sane_update :: "update \<Rightarrow> bool" where
  "sane_update = (\<lambda>(l, reserve_a, reserve_b). 0 < reserve_a \<and> reserve_a \<le> i128_max \<and> 0 < reserve_b \<and>
     reserve_b \<le> i128_max \<and> reserve_b div reserve_a \<le> max_price \<and> reserve_a div reserve_b \<le> max_price)"

lemma max_price_range: "max_price * 86400 * 86400 \<le> i128_max" "0 \<le> max_price"
  by (simp_all add: max_price_def i128_max_def)

lemma flat_prices:
  assumes "n \<le> m" "\<forall>k \<in> fst ` set ps. k \<le> m"
  shows "flat (accumulated n (ps @ (l, p) # qs)) p m l"
proof (rule flat_accumulated [OF assms(1)])
  fix s
  assume "m < s" "s \<le> l"
  then show "price_at (ps @ (l, p) # qs) s = p"
    using price_at_append [of ps s "(l, p) # qs"] assms(2) by fastforce
qed

lemma oracle_run_tracks:
  assumes "oracle_tracks (accumulated n (prices_a (before @ us))) (accumulated n (prices_b (before @ us))) max_price m st"
    and "sorted_wrt (<) (m # map fst us)" "\<forall>u \<in> set us. sane_update u" "n \<le> m" "\<forall>k \<in> fst ` set before. k \<le> m"
    and "\<forall>x \<in> set (ring_list st). n < fst x"
  shows "\<exists>st'. oracle_run e m us st = Inr st' \<and>
    oracle_tracks (accumulated n (prices_a (before @ us))) (accumulated n (prices_b (before @ us))) max_price
      (if us = [] then m else fst (last us)) st' \<and>
    (\<forall>x \<in> set (ring_list st'). n < fst x) \<and> (us \<noteq> [] \<longrightarrow> ring_list st' \<noteq> [])"
  using assms
proof (induction us arbitrary: before m st)
  case (Cons u us)
  obtain l ra rb where u: "u = (l, ra, rb)" by (cases u)
  let ?C = "accumulated n (prices_a (before @ u # us))" and ?D = "accumulated n (prices_b (before @ u # us))"
  have m: "m < l" "sorted_wrt (<) (l # map fst us)"
    using Cons.prems(2) u by auto
  have flats: "flat ?C (rb div ra) m l" "flat ?D (ra div rb) m l"
    using flat_prices [OF Cons.prems(4), of "prices_a before" l "rb div ra" "prices_a us"]
      flat_prices [OF Cons.prems(4), of "prices_b before" l "ra div rb" "prices_b us"] Cons.prems(5)
    by (force simp: prices_a_def prices_b_def u)+
  obtain st1 where st1: "update_cumulative_prices (e\<lparr>e_sequence := l\<rparr>) ra rb (l - m) st = Inr st1"
      "oracle_tracks ?C ?D max_price l st1" "ring_list st1 \<noteq> []"
      "fst ` set (ring_list st1) \<subseteq> insert l (fst ` set (ring_list st))"
    using oracle_update_tracks [OF Cons.prems(1) _ _ _ _ _ _ m(1) flats, of e] Cons.prems(3)
    by (auto simp: u sane_update_def)
  have "\<forall>x \<in> set (ring_list st1). n < fst x"
    using st1(4) Cons.prems(4,6) m(1) by fastforce
  then obtain st' where "oracle_run e l us st1 = Inr st'"
      "oracle_tracks ?C ?D max_price (if us = [] then l else fst (last us)) st'"
      "\<forall>x \<in> set (ring_list st'). n < fst x" "us \<noteq> [] \<longrightarrow> ring_list st' \<noteq> []"
    using Cons.IH [of "before @ [u]" l st1] st1(2) m Cons.prems(3-5) by (fastforce simp: u)
  then show ?case
    using st1(1,3) by (cases us) (auto simp: u bindR_def)
qed auto

lemma accumulated_window:
  assumes "n \<le> t - w" "0 \<le> w" "w \<le> 86400" "\<forall>(l, p) \<in> set ps. 0 \<le> p \<and> p \<le> max_price"
  shows "accumulated n ps t - accumulated n ps (t - w) = (\<Sum>s \<in> {t - w<..t}. price_at ps s)"
    "0 \<le> (\<Sum>s \<in> {t - w<..t}. price_at ps s)" "(\<Sum>s \<in> {t - w<..t}. price_at ps s) \<le> i128_max"
proof -
  show "accumulated n ps t - accumulated n ps (t - w) = (\<Sum>s \<in> {t - w<..t}. price_at ps s)"
    using accumulated_split [OF assms(1), of t ps] assms(2) by simp
  have each: "0 \<le> price_at ps s" "price_at ps s \<le> max_price" for s
    using price_at_cases [of ps s] assms(4) max_price_range(2) by auto
  show "0 \<le> (\<Sum>s \<in> {t - w<..t}. price_at ps s)"
    using each(1) by (rule sum_nonneg)
  have "(\<Sum>s \<in> {t - w<..t}. price_at ps s) \<le> (\<Sum>s \<in> {t - w<..t}. max_price)"
    using each(2) by (rule sum_mono)
  also have "\<dots> \<le> 86400 * max_price"
    using assms(2,3) max_price_range(2) by (simp add: mult_right_mono)
  also have "\<dots> \<le> i128_max"
    using max_price_range by simp
  finally show "(\<Sum>s \<in> {t - w<..t}. price_at ps s) \<le> i128_max" .
qed

section \<open>Properties\<close>

text \<open>
  C10. The TWAP is exact. A pool reports its reserves to a fresh oracle at ledgers in increasing
  order, as often as it likes. No report fails; and when it is asked in the ledger of the newest
  report for a window of \<open>w\<close> ledgers, the oracle answers, for both directions, the sum of the
  prices that were in effect in the last \<open>w\<close> ledgers divided by \<open>w\<close>, if the oldest sample it still
  holds is not younger than the window, and \<open>WindowTooShort\<close> otherwise. Neither the wrap-around of
  the accumulators, nor the reuse of slots, nor the interpolation between samples shows.
\<close>

theorem twap_is_exact_average:
  assumes "us \<noteq> []" "sorted_wrt (<) (n # map fst us)" "0 \<le> n" "\<forall>u \<in> set us. sane_update u"
    and "e_sequence e = fst (last us)" "0 < w" "w \<le> 86400"
  shows "\<exists>st l a b. oracle_run e n us empty_oracle = Inr st \<and> oracle_oldest st = Some (l, a, b) \<and>
    consult_twap e w st =
      (if l \<le> e_sequence e - w
       then Inr ((\<Sum>s \<in> {e_sequence e - w<..e_sequence e}. price_at (prices_a us) s) div w,
         (\<Sum>s \<in> {e_sequence e - w<..e_sequence e}. price_at (prices_b us) s) div w)
       else Inl (Err O_WindowTooShort))"
proof -
  let ?C = "accumulated n (prices_a us)" and ?D = "accumulated n (prices_b us)" and ?now = "e_sequence e"
  have "oracle_tracks ?C ?D max_price n empty_oracle"
    using ring_ok_empty by (simp add: oracle_tracks_def accumulated_def empty_oracle_def in_i128_nonneg i128_max_def)
  from oracle_run_tracks [of n "[]" us, unfolded append_Nil, OF this assms(2,4) order_refl] assms(1,5)
  obtain st where st: "oracle_run e n us empty_oracle = Inr st" "oracle_tracks ?C ?D max_price ?now st"
      "\<forall>x \<in> set (ring_list st). n < fst x" "ring_list st \<noteq> []"
    by (auto simp: ring_ok_empty)
  have ok: "ring_ok st" and c: "count st \<noteq> 0"
    using st(2,4) by (simp add: oracle_tracks_def, metis length_0_conv length_ring_list)
  obtain l a b where hd: "hd (ring_list st) = (l, a, b)"
    by (cases "hd (ring_list st)")
  have old: "oracle_oldest st = Some (l, a, b)"
    using ring_sample [OF ok, of 0] c st(4) hd by (simp add: oracle_oldest_def hd_conv_nth)
  have l: "n < l"
    using st(3) hd hd_in_set [OF st(4)] by force
  have sane: "\<forall>(l, p) \<in> set (prices_a us). 0 \<le> p \<and> p \<le> max_price" "\<forall>(l, p) \<in> set (prices_b us). 0 \<le> p \<and> p \<le> max_price"
    using assms(4) by (auto simp: prices_a_def prices_b_def sane_update_def pos_imp_zdiv_nonneg_iff)
  show ?thesis
  proof (cases "l \<le> ?now - w")
    case True
    have start: "n \<le> ?now - w" "0 \<le> w"
      using True l assms(6) by simp_all
    note windows = accumulated_window [OF start assms(7) sane(1)] accumulated_window [OF start assms(7) sane(2)]
    have "consult_twap e w st = Inr ((?C ?now - ?C (?now - w)) div w, (?D ?now - ?D (?now - w)) div w)"
      using True start assms(3,6,7) hd windows
      by (intro consult_tracks [OF st(2) max_price_range(1) _ _ st(4)]) simp_all
    then show ?thesis
      using st(1) old True windows by simp
  next
    case False
    have "u64_saturating_sub ?now w < l"
      using False l assms(3) by (simp add: u64_saturating_sub_def)
    then have "consult_twap e w st = Inl (Err O_WindowTooShort)"
      using old c assms(6,7)
      by (simp add: consult_twap_def MAX_TWAP_WINDOW_def reject_def Let_def oracle_oldest_def or_panic_def bindR_def)
    then show ?thesis
      using st(1) old False by simp
  qed
qed

definition ex_oracle_env :: env where
  "ex_oracle_env = \<lparr>e_timestamp = 0, e_sequence = 40, e_self = Address 0, e_auth = (\<lambda>a. False)\<rparr>"

definition ex_updates :: "update list" where
  "ex_updates = [(10, 1000, 7000), (20, 500, 6000), (40, 2000, 3000)]"

theorem twap_is_exact_average_witness:
  "\<exists>st. oracle_run ex_oracle_env 0 ex_updates empty_oracle = Inr st \<and> consult_twap ex_oracle_env 25 st = Inr (80 div 25, 0)"
proof -
  have sums: "(\<Sum>s \<in> {15<..40}. price_at (prices_a ex_updates) s) = 80" "(\<Sum>s \<in> {15<..40}. price_at (prices_b ex_updates) s) = 0"
    by code_simp+
  have oldest: "(case oracle_run ex_oracle_env 0 ex_updates empty_oracle of Inr st \<Rightarrow> oracle_oldest st | Inl _ \<Rightarrow> None) = Some (10, 70, 0)"
    by code_simp
  have now: "e_sequence ex_oracle_env = 40" and window: "{40 - 25<..40} = {15<..40 :: int}"
    by (simp_all add: ex_oracle_env_def)
  have "ex_updates \<noteq> []" "sorted_wrt (<) (0 # map fst ex_updates)" "\<forall>u \<in> set ex_updates. sane_update u"
      "e_sequence ex_oracle_env = fst (last ex_updates)"
    by (simp_all add: ex_updates_def ex_oracle_env_def sane_update_def max_price_def i128_max_def)
  from twap_is_exact_average [OF this(1,2) order_refl this(3,4), of 25, unfolded now window sums]
  obtain st l a b where st: "oracle_run ex_oracle_env 0 ex_updates empty_oracle = Inr st" "oracle_oldest st = Some (l, a, b)"
      "consult_twap ex_oracle_env 25 st = (if l \<le> 15 then Inr (80 div 25, 0 div 25) else Inl (Err O_WindowTooShort))"
    by auto
  then have "l = 10"
    using oldest by simp
  then show ?thesis
    using st(1,3) by simp
qed

text \<open>
  The prices are quotients of integers without a scale: the price of the token with the larger
  reserve is 0, and so is its average.
\<close>

lemma larger_reserve_is_priced_zero:
  assumes "\<forall>(l, reserve_a, reserve_b) \<in> set us. 0 \<le> reserve_b \<and> reserve_b < reserve_a"
  shows "price_at (prices_a us) s = 0"
proof -
  have "\<forall>(l, p) \<in> set (prices_a us). p = 0"
    using assms by (force simp: prices_a_def)
  then show ?thesis
    using price_at_cases [of "prices_a us" s] by auto
qed

end
