(* ===== verification/Lp_Lifetime.thy ===== *)
theory Lp_Lifetime
  imports Lp_Token
begin

text \<open>
  The lifetime of the LP token's ledger entries (\<open>lp_token/src/lib.rs\<close>, the policy constants of
  \<open>shared/src/lib.rs\<close>). Every entry of the ledger carries the last ledger it is alive in; an
  invocation whose footprint holds an archived entry fails. The token's operations are those of
  \<open>Lp_Token\<close>; here each is paired with the \<open>extend_ttl\<close> calls of its source. Shown: the contract
  instance is never extended, balances live 30 days after they are written (not the 60 the
  documentation promises), and allowances live to their deadline.
\<close>

section \<open>The policy and the ledger\<close>

definition INSTANCE_TTL_THRESHOLD :: int where "INSTANCE_TTL_THRESHOLD = 60480"
definition INSTANCE_TTL_EXTEND_TO :: int where "INSTANCE_TTL_EXTEND_TO = 120960"
definition REENTRANCY_MAX_HOLD_LEDGERS :: int where "REENTRANCY_MAX_HOLD_LEDGERS = 720"
definition REENTRANCY_TTL_THRESHOLD :: int where "REENTRANCY_TTL_THRESHOLD = 5000"
definition REENTRANCY_TTL_EXTEND_TO :: int where "REENTRANCY_TTL_EXTEND_TO = 120960"
definition FACTORY_INSTANCE_THRESHOLD :: int where "FACTORY_INSTANCE_THRESHOLD = 17280"
definition FACTORY_INSTANCE_BUMP_AMOUNT :: int where "FACTORY_INSTANCE_BUMP_AMOUNT = 518400"
definition LP_PERSISTENT_THRESHOLD :: int where "LP_PERSISTENT_THRESHOLD = 518400"
definition LP_PERSISTENT_EXTEND_TO :: int where "LP_PERSISTENT_EXTEND_TO = 1036800"

lemmas ttl_policy_defs =
  INSTANCE_TTL_THRESHOLD_def INSTANCE_TTL_EXTEND_TO_def REENTRANCY_MAX_HOLD_LEDGERS_def
  REENTRANCY_TTL_THRESHOLD_def REENTRANCY_TTL_EXTEND_TO_def FACTORY_INSTANCE_THRESHOLD_def
  FACTORY_INSTANCE_BUMP_AMOUNT_def LP_PERSISTENT_THRESHOLD_def LP_PERSISTENT_EXTEND_TO_def

text \<open>
  What the network decides: how long a new entry lives, how long an entry may live at most, and
  \<open>lr_extend now threshold extend_to live_until\<close>, the new \<open>live_until\<close> after \<open>extend_ttl\<close>.
\<close>

record ledger_rules =
  lr_min_ttl :: int
  lr_max_ttl :: int
  lr_extend :: "int \<Rightarrow> int \<Rightarrow> int \<Rightarrow> int \<Rightarrow> int"

text \<open>
  The documentation of \<open>extend_ttl\<close>: it extends only if the entry has less than \<open>threshold\<close>
  ledgers left; then it has \<open>extend_to\<close> left (at most the network's maximum, and never less than
  before). It leaves open what happens at the threshold itself.
\<close>

definition extended :: "ledger_rules \<Rightarrow> int \<Rightarrow> int \<Rightarrow> int \<Rightarrow> int" where
  "extended R now extend_to live = max live (now + min extend_to (lr_max_ttl R))"

definition documented_ttl :: "ledger_rules \<Rightarrow> bool" where
  "documented_ttl R \<longleftrightarrow> 0 \<le> lr_min_ttl R \<and> lr_min_ttl R \<le> lr_max_ttl R \<and> (\<forall>now thr ext live.
     (live - now < thr \<longrightarrow> lr_extend R now thr ext live = extended R now ext live) \<and>
     (live - now = thr \<longrightarrow> lr_extend R now thr ext live \<in> {live, extended R now ext live}) \<and>
     (thr < live - now \<longrightarrow> lr_extend R now thr ext live = live))"

lemma extend_cases:
  assumes "documented_ttl R"
  obtains "thr \<le> live - now" "lr_extend R now thr ext live = live"
  | "live - now \<le> thr" "lr_extend R now thr ext live = extended R now ext live"
proof -
  have doc: "live - now < thr \<Longrightarrow> lr_extend R now thr ext live = extended R now ext live"
    "live - now = thr \<Longrightarrow> lr_extend R now thr ext live \<in> {live, extended R now ext live}"
    "thr < live - now \<Longrightarrow> lr_extend R now thr ext live = live"
    using assms unfolding documented_ttl_def by blast+
  consider "live - now < thr" | "live - now = thr" | "thr < live - now"
    by linarith
  then show thesis
  proof cases
    case 1
    then show thesis
      by (intro that(2) doc(1)) simp_all
  next
    case 2
    then show thesis
      using doc(2) [OF 2] by (elim insertE emptyE) (simp_all add: that)
  next
    case 3
    then show thesis
      by (intro that(1) doc(3)) simp_all
  qed
qed

lemma extend_mono: "documented_ttl R \<Longrightarrow> live \<le> lr_extend R now thr ext live"
  by (rule extend_cases [of R thr live now ext]) (simp_all add: extended_def)

lemma extend_bound:
  assumes "documented_ttl R" "b \<le> thr" "b \<le> ext" "b \<le> lr_max_ttl R"
  shows "now + b \<le> lr_extend R now thr ext live"
  using assms(2-4) by (cases rule: extend_cases [OF assms(1), of thr live now ext]) (simp_all add: extended_def)

lemma extend_beyond: "documented_ttl R \<Longrightarrow> thr < live - now \<Longrightarrow> lr_extend R now thr ext live = live"
  by (simp add: documented_ttl_def)

section \<open>Contract instances\<close>

definition extend_instance_ttl :: "ledger_rules \<Rightarrow> int \<Rightarrow> int \<Rightarrow> int" where
  "extend_instance_ttl R now live = lr_extend R now INSTANCE_TTL_THRESHOLD INSTANCE_TTL_EXTEND_TO live"

definition extend_reentrancy_ttl :: "ledger_rules \<Rightarrow> int \<Rightarrow> int \<Rightarrow> int" where
  "extend_reentrancy_ttl R now live = lr_extend R now REENTRANCY_TTL_THRESHOLD REENTRANCY_TTL_EXTEND_TO live"

definition extend_factory_instance_ttl :: "ledger_rules \<Rightarrow> int \<Rightarrow> int \<Rightarrow> int" where
  "extend_factory_instance_ttl R now live =
     lr_extend R now FACTORY_INSTANCE_THRESHOLD FACTORY_INSTANCE_BUMP_AMOUNT live"

lemmas instance_ttl_defs =
  extend_instance_ttl_def extend_reentrancy_ttl_def extend_factory_instance_ttl_def

text \<open>
  What each policy guarantees is its threshold, not its extension: a flip of the lock leaves the
  pair more than the longest time the lock may be held, a mutating call leaves it 3.5 days, and a
  call of the factory leaves that one day. A flip of the lock never lowers what another call gave.
\<close>

lemma instance_ttl_guarantees:
  assumes "documented_ttl R" "FACTORY_INSTANCE_BUMP_AMOUNT \<le> lr_max_ttl R"
  shows "now + REENTRANCY_MAX_HOLD_LEDGERS < extend_reentrancy_ttl R now live"
    "now + INSTANCE_TTL_THRESHOLD \<le> extend_instance_ttl R now live"
    "now + FACTORY_INSTANCE_THRESHOLD \<le> extend_factory_instance_ttl R now live"
    "live \<le> extend_reentrancy_ttl R now live"
  using assms extend_bound [of R 5000 5000 120960 now live] extend_bound [of R 60480 60480 120960 now live]
    extend_bound [of R 17280 17280 518400 now live] extend_mono [OF assms(1)]
  by (simp_all add: instance_ttl_defs ttl_policy_defs)

text \<open>
  And no more than that: an instance that has one ledger more than the threshold left is not
  extended, so a factory that has just been called can be one day from its archival, not 30.
\<close>

lemma instance_ttl_tight:
  assumes "documented_ttl R"
  shows "extend_factory_instance_ttl R now (now + FACTORY_INSTANCE_THRESHOLD + 1) = now + FACTORY_INSTANCE_THRESHOLD + 1"
    "extend_instance_ttl R now (now + INSTANCE_TTL_THRESHOLD + 1) = now + INSTANCE_TTL_THRESHOLD + 1"
  unfolding instance_ttl_defs by (rule extend_beyond [OF assms], simp)+

section \<open>The entries of the LP token\<close>

text \<open>
  The instance holds the admin, the metadata, the supply and the pause flag; every balance,
  allowance and nonce is an entry of its own.
\<close>

datatype lp_key = K_Instance | K_Balance address | K_Allowance address address | K_Nonce address

fun lp_has_entry :: "lp_state \<Rightarrow> lp_key \<Rightarrow> bool" where
  "lp_has_entry s K_Instance = True"
| "lp_has_entry s (K_Balance a) = (lp_balances s a \<noteq> None)"
| "lp_has_entry s (K_Allowance f sp) = (lp_allowances s (f, sp) \<noteq> None)"
| "lp_has_entry s (K_Nonce a) = (lp_nonces s a \<noteq> None)"

type_synonym lifetimes = "lp_key \<Rightarrow> int"

text \<open>\<open>set\<close> gives a lifetime to a new entry only; \<open>extend_ttl\<close> as above.\<close>

definition ttl_set :: "ledger_rules \<Rightarrow> int \<Rightarrow> lp_state \<Rightarrow> lp_key \<Rightarrow> lifetimes \<Rightarrow> lifetimes" where
  "ttl_set R now s k live = (if lp_has_entry s k then live else live(k := now + lr_min_ttl R))"

definition ttl_extend :: "ledger_rules \<Rightarrow> int \<Rightarrow> int \<Rightarrow> int \<Rightarrow> lp_key \<Rightarrow> lifetimes \<Rightarrow> lifetimes" where
  "ttl_extend R now thr ext k live = live(k := lr_extend R now thr ext (live k))"

definition write_balance_ttl ::
  "ledger_rules \<Rightarrow> int \<Rightarrow> address \<Rightarrow> int \<Rightarrow> lp_state \<Rightarrow> lifetimes \<Rightarrow> lifetimes" where
  "write_balance_ttl R now a b s live =
     (if b = 0 then live
      else ttl_extend R now LP_PERSISTENT_THRESHOLD LP_PERSISTENT_EXTEND_TO (K_Balance a)
        (ttl_set R now s (K_Balance a) live))"

definition transfer_internal_ttl ::
  "ledger_rules \<Rightarrow> int \<Rightarrow> address \<Rightarrow> address \<Rightarrow> int \<Rightarrow> lp_state \<Rightarrow> lifetimes \<Rightarrow> lifetimes" where
  "transfer_internal_ttl R now from to amount s live =
     (if amount = 0 then live
      else
        let new_from_balance = lp_balance s from - amount;
            s1 = lp_write_balance from new_from_balance s;
            new_to_balance = lp_balance s1 to + amount in
        write_balance_ttl R now to new_to_balance s1 (write_balance_ttl R now from new_from_balance s live))"

text \<open>Storing an allowance extends its entry to the deadline (saturating subtraction).\<close>

definition allowance_ttl ::
  "ledger_rules \<Rightarrow> int \<Rightarrow> address \<Rightarrow> address \<Rightarrow> int \<Rightarrow> lp_state \<Rightarrow> lifetimes \<Rightarrow> lifetimes" where
  "allowance_ttl R now from spender expiration_ledger s live =
     (let ledgers_to_live = max 0 (expiration_ledger - now) in
      ttl_extend R now ledgers_to_live ledgers_to_live (K_Allowance from spender)
        (ttl_set R now s (K_Allowance from spender) live))"

definition spend_allowance_ttl ::
  "ledger_rules \<Rightarrow> int \<Rightarrow> address \<Rightarrow> address \<Rightarrow> int \<Rightarrow> lp_state \<Rightarrow> lifetimes \<Rightarrow> lifetimes" where
  "spend_allowance_ttl R now from spender amount s live =
     (case lp_allowances s (from, spender) of
        None \<Rightarrow> live
      | Some en \<Rightarrow> if ae_amount en - amount = 0 then live
          else allowance_ttl R now from spender (ae_expiration_ledger en) s live)"

definition permit_ttl ::
  "ledger_rules \<Rightarrow> int \<Rightarrow> address \<Rightarrow> address \<Rightarrow> int \<Rightarrow> lp_state \<Rightarrow> lifetimes \<Rightarrow> lifetimes" where
  "permit_ttl R now owner spender deadline s live =
     ttl_extend R now LP_PERSISTENT_THRESHOLD LP_PERSISTENT_EXTEND_TO (K_Nonce owner)
       (ttl_set R now s (K_Nonce owner) (allowance_ttl R now owner spender deadline s live))"

text \<open>
  The lifetimes after a successful call. Spending an allowance changes no balance, so the
  balances written after it are those of the state before.
\<close>

fun lp_ttl :: "ledger_rules \<Rightarrow> int \<Rightarrow> lp_call \<Rightarrow> lp_state \<Rightarrow> lifetimes \<Rightarrow> lifetimes" where
  "lp_ttl R now (LC_approve f sp x l) s live =
     (if x = 0 then live else allowance_ttl R now f sp l s live)"
| "lp_ttl R now (LC_permit ow sp x d sg) s live = permit_ttl R now ow sp d s live"
| "lp_ttl R now (LC_transfer f t x) s live = transfer_internal_ttl R now f t x s live"
| "lp_ttl R now (LC_transfer_from sp f t x) s live =
     transfer_internal_ttl R now f t x s
       (if sp \<noteq> f then spend_allowance_ttl R now f sp x s live else live)"
| "lp_ttl R now (LC_mint t x) s live = write_balance_ttl R now t (lp_balance s t + x) s live"
| "lp_ttl R now (LC_burn f x) s live = write_balance_ttl R now f (lp_balance s f - x) s live"
| "lp_ttl R now (LC_burn_from sp f x) s live =
     write_balance_ttl R now f (lp_balance s f - x) s (spend_allowance_ttl R now f sp x s live)"
| "lp_ttl R now _ s live = live"

text \<open>The entries a call reads or writes. Every call loads the instance.\<close>

fun lp_footprint :: "lp_call \<Rightarrow> lp_key list" where
  "lp_footprint (LC_approve f sp x l) = [K_Instance, K_Allowance f sp]"
| "lp_footprint (LC_permit ow sp x d sg) = [K_Instance, K_Nonce ow, K_Allowance ow sp]"
| "lp_footprint (LC_transfer f t x) = [K_Instance, K_Balance f, K_Balance t]"
| "lp_footprint (LC_transfer_from sp f t x) =
     [K_Instance, K_Balance f, K_Balance t] @ (if sp \<noteq> f then [K_Allowance f sp] else [])"
| "lp_footprint (LC_mint t x) = [K_Instance, K_Balance t]"
| "lp_footprint (LC_burn f x) = [K_Instance, K_Balance f]"
| "lp_footprint (LC_burn_from sp f x) = [K_Instance, K_Allowance f sp, K_Balance f]"
| "lp_footprint _ = [K_Instance]"

section \<open>The token on the ledger\<close>

record timed_lp =
  tl_state :: lp_state
  tl_live :: lifetimes

definition lp_alive :: "int \<Rightarrow> timed_lp \<Rightarrow> lp_key \<Rightarrow> bool" where
  "lp_alive now w k \<longleftrightarrow> (lp_has_entry (tl_state w) k \<longrightarrow> now \<le> tl_live w k)"

text \<open>An invocation: one archived entry of its footprint makes it fail.\<close>

definition timed_call ::
  "crypto \<Rightarrow> ledger_rules \<Rightarrow> env \<Rightarrow> lp_call \<Rightarrow> timed_lp \<Rightarrow> (lp_error, timed_lp) res" where
  "timed_call c R e op w =
     require (\<forall>k \<in> set (lp_footprint op). lp_alive (e_sequence e) w k) (
     bindR (lp_step c e op (tl_state w)) (\<lambda>s'.
     Inr \<lparr>tl_state = s', tl_live = lp_ttl R (e_sequence e) op (tl_state w) (tl_live w)\<rparr>))"

text \<open>\<open>balance\<close> is a view, and extends the entry it reads.\<close>

definition timed_balance ::
  "ledger_rules \<Rightarrow> env \<Rightarrow> address \<Rightarrow> timed_lp \<Rightarrow> (lp_error, int \<times> timed_lp) res" where
  "timed_balance R e a w =
     require (lp_alive (e_sequence e) w K_Instance \<and> lp_alive (e_sequence e) w (K_Balance a)) (
     let b = lp_balance (tl_state w) a in
     if 0 < b then Inr (b, w\<lparr>tl_live := ttl_extend R (e_sequence e) LP_PERSISTENT_THRESHOLD LP_PERSISTENT_EXTEND_TO
         (K_Balance a) (tl_live w)\<rparr>)
     else Inr (b, w))"

text \<open>What anyone can send to the ledger, and a run of it; a failing invocation leaves no trace.\<close>

datatype timed_action = Call lp_call | View address

definition timed_exec ::
  "crypto \<Rightarrow> ledger_rules \<Rightarrow> env \<times> timed_action \<Rightarrow> timed_lp \<Rightarrow> timed_lp" where
  "timed_exec c R = (\<lambda>(e, act) w. case act of
       Call op \<Rightarrow> (case timed_call c R e op w of Inr w' \<Rightarrow> w' | Inl _ \<Rightarrow> w)
     | View a \<Rightarrow> (case timed_balance R e a w of Inr (b, w') \<Rightarrow> w' | Inl _ \<Rightarrow> w))"

definition timed_run ::
  "crypto \<Rightarrow> ledger_rules \<Rightarrow> (env \<times> timed_action) list \<Rightarrow> timed_lp \<Rightarrow> timed_lp" where
  "timed_run c R = fold (timed_exec c R)"

text \<open>A token that is deployed and initialised at ledger \<open>n\<close>.\<close>

definition timed_deployed :: "ledger_rules \<Rightarrow> int \<Rightarrow> lp_state \<Rightarrow> timed_lp" where
  "timed_deployed R n s = \<lparr>tl_state = s, tl_live = (\<lambda>k. n + lr_min_ttl R)\<rparr>"

lemma timed_call_Inr [res_inv]:
  "timed_call c R e op w = Inr w' \<longleftrightarrow> (\<forall>k \<in> set (lp_footprint op). lp_alive (e_sequence e) w k) \<and>
     (\<exists>s'. lp_step c e op (tl_state w) = Inr s' \<and>
       w' = \<lparr>tl_state = s', tl_live = lp_ttl R (e_sequence e) op (tl_state w) (tl_live w)\<rparr>)"
  by (auto simp: timed_call_def res_inv)

lemma timed_balance_Inr [res_inv]:
  "timed_balance R e a w = Inr (b, w') \<longleftrightarrow>
     lp_alive (e_sequence e) w K_Instance \<and> lp_alive (e_sequence e) w (K_Balance a) \<and>
     b = lp_balance (tl_state w) a \<and>
     w' = (if 0 < b then w\<lparr>tl_live := ttl_extend R (e_sequence e) LP_PERSISTENT_THRESHOLD LP_PERSISTENT_EXTEND_TO
         (K_Balance a) (tl_live w)\<rparr> else w)"
  by (auto simp: timed_balance_def Let_def res_inv)

text \<open>An invariant of actions is an invariant of runs.\<close>

lemma timed_exec_cases:
  assumes "P w"
    and "\<And>op w'. act = Call op \<Longrightarrow> timed_call c R e op w = Inr w' \<Longrightarrow> P w'"
    and "\<And>a b w'. act = View a \<Longrightarrow> timed_balance R e a w = Inr (b, w') \<Longrightarrow> P w'"
  shows "P (timed_exec c R (e, act) w)"
  using assms by (auto simp: timed_exec_def split: timed_action.split sum.split prod.split)

lemma timed_run_invariant:
  assumes "P w" "\<And>e act w. (e, act) \<in> set acts \<Longrightarrow> P w \<Longrightarrow> P (timed_exec c R (e, act) w)"
  shows "P (timed_run c R acts w)"
  using assms
proof (induction acts arbitrary: w)
  case (Cons x acts)
  obtain e act where x: "x = (e, act)" by (cases x)
  have "P (timed_exec c R (e, act) w)"
    using Cons.prems(1) by (rule Cons.prems(2) [rotated]) (simp add: x)
  then have "P (timed_run c R acts (timed_exec c R (e, act) w))"
    by (rule Cons.IH) (simp add: Cons.prems(2))
  then show ?case
    by (simp add: timed_run_def x)
qed (simp add: timed_run_def)

section \<open>Which entries a call can extend\<close>

lemmas ttl_defs = ttl_set_def ttl_extend_def write_balance_ttl_def transfer_internal_ttl_def
  allowance_ttl_def spend_allowance_ttl_def permit_ttl_def

lemma lp_ttl_instance [simp]: "lp_ttl R now op s live K_Instance = live K_Instance"
  by (cases op) (simp_all add: ttl_defs Let_def split: option.split)

lemma timed_run_instance: "tl_live (timed_run c R acts w) K_Instance = tl_live w K_Instance"
proof (rule timed_run_invariant [where P = "\<lambda>v. tl_live v K_Instance = tl_live w K_Instance"])
  fix e act and v :: timed_lp
  assume v: "tl_live v K_Instance = tl_live w K_Instance"
  show "tl_live (timed_exec c R (e, act) v) K_Instance = tl_live w K_Instance"
    by (rule timed_exec_cases) (auto simp: v res_inv ttl_extend_def)
qed simp

lemma instance_in_footprint [simp]: "K_Instance \<in> set (lp_footprint op)"
  by (cases op) simp_all

text \<open>An entry, if there is one, lives to \<open>b\<close>.\<close>

definition lives_to :: "int \<Rightarrow> lp_state \<Rightarrow> lifetimes \<Rightarrow> lp_key \<Rightarrow> bool" where
  "lives_to b s live k \<longleftrightarrow> (lp_has_entry s k \<longrightarrow> b \<le> live k)"

lemma lp_alive_lives_to: "lp_alive now w k = lives_to now (tl_state w) (tl_live w) k"
  by (simp add: lp_alive_def lives_to_def)

lemma lives_to_mono: "lives_to b s live k \<Longrightarrow> b' \<le> b \<Longrightarrow> lives_to b' s live k"
  by (auto simp: lives_to_def)

section \<open>Balances\<close>

text \<open>The accounts whose balance a call writes.\<close>

fun balance_writes :: "lp_call \<Rightarrow> address set" where
  "balance_writes (LC_transfer f t x) = (if x = 0 then {} else {f, t})"
| "balance_writes (LC_transfer_from sp f t x) = (if x = 0 then {} else {f, t})"
| "balance_writes (LC_mint t x) = {t}"
| "balance_writes (LC_burn f x) = {f}"
| "balance_writes (LC_burn_from sp f x) = {f}"
| "balance_writes _ = {}"

text \<open>The balances a successful call leaves, entry by entry.\<close>

lemma balances_after:
  "lp_transfer_internal f t x s = Inr s' \<Longrightarrow> lp_balances s' = (if x = 0 then lp_balances s
     else let s1 = lp_write_balance f (lp_balance s f - x) s in lp_balances (lp_write_balance t (lp_balance s1 t + x) s1))"
  "lp_mint e t x s = Inr s' \<Longrightarrow> lp_balances s' = lp_balances (lp_write_balance t (lp_balance s t + x) s)"
  "lp_burn_balance f x s = Inr s' \<Longrightarrow> lp_balances s' = lp_balances (lp_write_balance f (lp_balance s f - x) s)"
  by (auto simp: lp_transfer_internal_def lp_mint_def lp_burn_balance_def Let_def res_inv chk_inv split: if_splits)

lemma write_balance_ttl_other:
  "k \<noteq> K_Balance x \<Longrightarrow> write_balance_ttl R now x b s live k = live k"
  "(\<And>a. k \<noteq> K_Balance a) \<Longrightarrow> transfer_internal_ttl R now f t y s live k = live k"
  by (simp_all add: ttl_defs Let_def)

lemma allowance_ttl_other:
  "k \<noteq> K_Allowance f sp \<Longrightarrow> allowance_ttl R now f sp d s live k = live k"
  "k \<noteq> K_Allowance f sp \<Longrightarrow> spend_allowance_ttl R now f sp x s live k = live k"
  "k \<noteq> K_Allowance f sp \<Longrightarrow> k \<noteq> K_Nonce f \<Longrightarrow> permit_ttl R now f sp d s live k = live k"
  by (simp_all add: ttl_defs Let_def split: option.split)

lemma write_balance_lives:
  assumes "documented_ttl R" "LP_PERSISTENT_THRESHOLD \<le> lr_max_ttl R" "b \<le> now + LP_PERSISTENT_THRESHOLD"
    and "a = x \<or> lives_to b s live (K_Balance a)"
  shows "lives_to b (lp_write_balance x y s) (write_balance_ttl R now x y s live) (K_Balance a)"
proof (cases "a = x \<and> y \<noteq> 0")
  case True
  have "now + LP_PERSISTENT_THRESHOLD \<le> lr_extend R now LP_PERSISTENT_THRESHOLD LP_PERSISTENT_EXTEND_TO l" for l
    using assms(1,2) by (intro extend_bound) (simp_all add: ttl_policy_defs)
  then show ?thesis
    using True assms(3) order_trans unfolding lives_to_def write_balance_ttl_def ttl_extend_def by fastforce
next
  case False
  then show ?thesis
    using assms(4) by (auto simp: lives_to_def write_balance_ttl_other lp_write_balance_def)
qed

lemma lives_to_cong:
  "lp_balances s' = lp_balances s \<Longrightarrow> lives_to b s' live (K_Balance a) = lives_to b s live (K_Balance a)"
  by (simp add: lives_to_def)

text \<open>A call keeps every bound up to 30 days ahead, and establishes it for what it writes.\<close>

lemma transfer_lives:
  assumes "documented_ttl R" "LP_PERSISTENT_THRESHOLD \<le> lr_max_ttl R" "b \<le> now + LP_PERSISTENT_THRESHOLD"
    and "x \<noteq> 0 \<and> a \<in> {f, t} \<or> lives_to b s live (K_Balance a)" "lp_transfer_internal f t x s = Inr s'"
  shows "lives_to b s' (transfer_internal_ttl R now f t x s live) (K_Balance a)"
proof (cases "x = 0")
  case False
  let ?s1 = "lp_write_balance f (lp_balance s f - x) s"
  have step: "a = t \<or> lives_to b ?s1 (write_balance_ttl R now f (lp_balance s f - x) s live) (K_Balance a)"
    using assms(4) False by (auto intro!: write_balance_lives [OF assms(1-3)])
  show ?thesis
    using write_balance_lives [OF assms(1-3) step, where y = "lp_balance ?s1 t + x"] False balances_after(1) [OF assms(5)]
    by (simp add: transfer_internal_ttl_def Let_def lives_to_def del: lp_write_balance_simps(1))
qed (use assms in \<open>simp add: transfer_internal_ttl_def lp_transfer_internal_def\<close>)

lemma lp_ttl_balance_frame:
  assumes "lp_step c e op s = Inr s'" "\<not> lp_moves op"
  shows "lp_balances s' = lp_balances s" "lp_ttl R now op s live (K_Balance a) = live (K_Balance a)"
  using assms
  by (cases op; auto simp: lp_admin_transfer_def lp_set_admin_def lp_pause_def lp_unpause_def lp_approve_def
      lp_permit_def res_inv Let_def allowance_ttl_other)+

lemma transfer_internal_ttl_cong:
  assumes "lp_balances s1 = lp_balances s"
  shows "transfer_internal_ttl R now f t x s1 live = transfer_internal_ttl R now f t x s live"
proof -
  have wr: "lp_balances u = lp_balances v \<Longrightarrow> write_balance_ttl R now a y u l = write_balance_ttl R now a y v l" for u v a y l
    by (simp add: ttl_defs)
  have "lp_balance s1 = lp_balance s"
    "lp_balances (lp_write_balance f y s1) = lp_balances (lp_write_balance f y s)" for y
    using assms by (simp_all add: lp_balance_def lp_write_balance_def fun_eq_iff)
  then show ?thesis
    unfolding transfer_internal_ttl_def Let_def
    by (simp add: wr [OF assms] wr [of "lp_write_balance f _ s1" "lp_write_balance f _ s"])
qed

lemma timed_call_lives:
  assumes "documented_ttl R" "LP_PERSISTENT_THRESHOLD \<le> lr_max_ttl R" "b \<le> e_sequence e + LP_PERSISTENT_THRESHOLD"
    and "a \<in> balance_writes op \<or> lives_to b s live (K_Balance a)" "lp_step c e op s = Inr s'"
  shows "lives_to b s' (lp_ttl R (e_sequence e) op s live) (K_Balance a)"
proof -
  let ?now = "e_sequence e"
  note wr = write_balance_lives [OF assms(1-3)] and frame = lp_ttl_balance_frame [OF assms(5)]
  have spent: "lp_spend_allowance e f sp x s = Inr s1 \<Longrightarrow> lp_balances s1 = lp_balances s \<and> lp_balance s1 = lp_balance s" for f sp x s1
    by (auto dest!: lp_spend_allowance_Inr simp: lp_balance_def)
  show ?thesis
  proof (cases op)
    case (LC_transfer f t x)
    then show ?thesis
      using assms(4,5) transfer_lives [OF assms(1-3), of x a f t s live s']
      by (auto simp: res_inv split: if_splits)
  next
    case (LC_mint t x)
    then show ?thesis
      using assms(4,5) wr [of a t s live] by (auto dest!: balances_after(2) simp: lives_to_def)
  next
    case (LC_burn f x)
    then show ?thesis
      using assms(4,5) wr [of a f s live] by (auto dest!: balances_after(3) simp: lives_to_def res_inv)
  next
    case (LC_burn_from sp f x)
    then obtain s1 where s1: "lp_spend_allowance e f sp x s = Inr s1" "lp_burn_balance f x s1 = Inr s'"
      using assms(5) by (auto simp: lp_burn_from_def res_inv)
    then have "lp_balances s' = lp_balances (lp_write_balance f (lp_balance s f - x) s)"
      using balances_after(3) [OF s1(2)] spent [OF s1(1)] by (auto simp: lp_write_balance_def)
    then show ?thesis
      using LC_burn_from assms(4) wr [of a f s "spend_allowance_ttl R ?now f sp x s live"]
      by (simp add: lives_to_def allowance_ttl_other)
  next
    case (LC_transfer_from sp f t x)
    then obtain s1 where s1: "(if sp \<noteq> f then lp_spend_allowance e f sp x s else Inr s) = Inr s1"
        "lp_transfer_internal f t x s1 = Inr s'"
      using assms(5) by (auto simp: lp_transfer_from_def res_inv)
    then have same: "lp_balances s1 = lp_balances s" "lp_balance s1 = lp_balance s"
      using spent by (auto split: if_splits)
    have "transfer_internal_ttl R ?now f t x s1 l = transfer_internal_ttl R ?now f t x s l" for l
      by (rule transfer_internal_ttl_cong [OF same(1)])
    moreover have "lives_to b s' (transfer_internal_ttl R ?now f t x s1
        (if sp \<noteq> f then spend_allowance_ttl R ?now f sp x s live else live)) (K_Balance a)"
      using LC_transfer_from assms(4) same
      by (intro transfer_lives [OF assms(1-3) _ s1(2)])
        (auto simp: lives_to_def allowance_ttl_other split: if_splits)
    ultimately show ?thesis
      using LC_transfer_from by simp
  qed (use assms(4) frame in \<open>simp_all add: lives_to_def\<close>)
qed

lemma timed_exec_lives:
  assumes "documented_ttl R" "LP_PERSISTENT_THRESHOLD \<le> lr_max_ttl R" "b \<le> e_sequence e + LP_PERSISTENT_THRESHOLD"
    and "lives_to b (tl_state w) (tl_live w) (K_Balance a)"
  shows "lives_to b (tl_state (timed_exec c R (e, act) w)) (tl_live (timed_exec c R (e, act) w)) (K_Balance a)"
proof (rule timed_exec_cases [where P = "\<lambda>v. lives_to b (tl_state v) (tl_live v) (K_Balance a)"])
  fix op w'
  assume "timed_call c R e op w = Inr w'"
  then show "lives_to b (tl_state w') (tl_live w') (K_Balance a)"
    using timed_call_lives [OF assms(1-3)] assms(4) by (auto simp: res_inv)
next
  fix x y w'
  assume "timed_balance R e x w = Inr (y, w')"
  then show "lives_to b (tl_state w') (tl_live w') (K_Balance a)"
    using assms(4) extend_mono [OF assms(1)]
    by (auto simp: res_inv lives_to_def ttl_extend_def intro: order_trans)
qed (rule assms(4))

section \<open>Allowances\<close>

text \<open>Every stored allowance lives to its deadline.\<close>

definition allowances_live :: "lp_state \<Rightarrow> lifetimes \<Rightarrow> bool" where
  "allowances_live s live \<longleftrightarrow> (\<forall>f sp en. lp_allowances s (f, sp) = Some en \<longrightarrow>
     ae_expiration_ledger en \<le> live (K_Allowance f sp))"

text \<open>Deadlines the network can grant: no further ahead than an entry may live.\<close>

fun deadline_fits :: "ledger_rules \<Rightarrow> int \<Rightarrow> lp_call \<Rightarrow> bool" where
  "deadline_fits R now (LC_approve f sp x l) = (x = 0 \<or> l - now \<le> lr_max_ttl R)"
| "deadline_fits R now (LC_permit ow sp x d sg) = (d - now \<le> lr_max_ttl R)"
| "deadline_fits R now _ = True"

lemma allowance_ttl_reaches:
  assumes "documented_ttl R" "d - now \<le> lr_max_ttl R"
  shows "d \<le> allowance_ttl R now f sp d s live (K_Allowance f sp)"
proof -
  let ?l = "max 0 (d - now)"
  have "?l \<le> lr_max_ttl R"
    using assms by (simp add: documented_ttl_def)
  then have "now + ?l \<le> lr_extend R now ?l ?l x" for x
    by (rule extend_bound [OF assms(1) order_refl order_refl])
  then have "d \<le> lr_extend R now ?l ?l x" for x
    by (rule order_trans [rotated]) simp
  then show ?thesis
    by (simp add: allowance_ttl_def Let_def ttl_extend_def)
qed

lemma allowance_ttl_keeps:
  "documented_ttl R \<Longrightarrow> lp_allowances s (f, sp) \<noteq> None \<Longrightarrow>
     live (K_Allowance f sp) \<le> allowance_ttl R now f sp d s live (K_Allowance f sp)"
  using extend_mono by (simp add: allowance_ttl_def Let_def ttl_defs)

lemma allowances_live_upd:
  assumes "allowances_live s live" "\<And>k. k \<noteq> K_Allowance f sp \<Longrightarrow> k \<noteq> K_Nonce f \<Longrightarrow> live' k = live k"
    and "lp_allowances s' = (lp_allowances s)((f, sp) := en)"
    and "\<And>en'. en = Some en' \<Longrightarrow> ae_expiration_ledger en' \<le> live' (K_Allowance f sp)"
  shows "allowances_live s' live'"
  using assms unfolding allowances_live_def by auto

lemma spend_allowance_lives:
  assumes "documented_ttl R" "lp_spend_allowance e f sp x s = Inr s1" "allowances_live s live"
  shows "allowances_live s1 (spend_allowance_ttl R (e_sequence e) f sp x s live)"
proof -
  obtain en where en: "lp_allowances s (f, sp) = Some en"
      "lp_allowances s1 = (lp_allowances s)((f, sp) := if x = ae_amount en then None
         else Some \<lparr>ae_amount = ae_amount en - x, ae_expiration_ledger = ae_expiration_ledger en\<rparr>)"
    using lp_spend_allowance_Inr [OF assms(2)] by blast
  have "ae_expiration_ledger en \<le> live (K_Allowance f sp)"
    using assms(3) en(1) by (simp add: allowances_live_def)
  also have "\<dots> \<le> allowance_ttl R (e_sequence e) f sp (ae_expiration_ledger en) s live (K_Allowance f sp)"
    by (rule allowance_ttl_keeps [OF assms(1)]) (simp add: en(1))
  finally show ?thesis
    by (intro allowances_live_upd [OF assms(3) _ en(2)])
      (auto simp: spend_allowance_ttl_def en(1) allowance_ttl_other split: if_splits)
qed

lemma lp_step_allowances_live:
  assumes "documented_ttl R" "lp_step c e op s = Inr s'" "deadline_fits R (e_sequence e) op" "allowances_live s live"
  shows "allowances_live s' (lp_ttl R (e_sequence e) op s live)"
proof -
  let ?now = "e_sequence e"
  note spend = spend_allowance_lives [OF assms(1), rotated, OF assms(4)] and reaches = allowance_ttl_reaches [OF assms(1)]
  note inv = lp_transfer_internal_Inr lp_mint_Inr lp_burn_balance_Inr
  show ?thesis
  proof (cases op)
    case (LC_approve f sp x l)
    then show ?thesis
      using assms(2,3) reaches
      by (intro allowances_live_upd [OF assms(4), where f = f and sp = sp and
            en = "if x = 0 then None else Some \<lparr>ae_amount = x, ae_expiration_ledger = l\<rparr>"])
        (auto simp: lp_approve_def res_inv Let_def allowance_ttl_other)
  next
    case (LC_permit ow sp x d sg)
    have "permit_ttl R ?now ow sp d s live (K_Allowance ow sp) = allowance_ttl R ?now ow sp d s live (K_Allowance ow sp)"
      by (simp add: permit_ttl_def ttl_extend_def ttl_set_def)
    then show ?thesis
      using assms(2,3) reaches [of d ?now] LC_permit
      by (intro allowances_live_upd [OF assms(4), where f = ow and sp = sp and
            en = "Some \<lparr>ae_amount = x, ae_expiration_ledger = d\<rparr>"])
        (auto simp: lp_permit_def res_inv Let_def allowance_ttl_other)
  next
    case (LC_transfer_from sp f t x)
    then obtain s1 where s1: "(if sp \<noteq> f then lp_spend_allowance e f sp x s else Inr s) = Inr s1"
        "lp_transfer_internal f t x s1 = Inr s'"
      using assms(2) by (auto simp: lp_transfer_from_def res_inv)
    have "allowances_live s1 (if sp \<noteq> f then spend_allowance_ttl R ?now f sp x s live else live)"
      using spend s1(1) assms(4) by (auto split: if_splits)
    then show ?thesis
      using LC_transfer_from inv(1) [OF s1(2)]
      by (simp add: allowances_live_def write_balance_ttl_other)
  next
    case (LC_burn_from sp f x)
    then obtain s1 where s1: "lp_spend_allowance e f sp x s = Inr s1" "lp_burn_balance f x s1 = Inr s'"
      using assms(2) by (auto simp: lp_burn_from_def res_inv)
    then show ?thesis
      using LC_burn_from spend [OF s1(1)] inv(3) [OF s1(2)]
      by (simp add: allowances_live_def write_balance_ttl_other)
  qed (use assms(2,4) in \<open>auto simp: allowances_live_def res_inv write_balance_ttl_other lp_admin_transfer_def
      lp_set_admin_def lp_pause_def lp_unpause_def dest!: inv\<close>)
qed

section \<open>Properties\<close>

text \<open>A network for the witnesses: new entries live 4096 ledgers, none longer than 180 days.\<close>

definition ex_rules :: ledger_rules where
  "ex_rules = \<lparr>lr_min_ttl = 4096, lr_max_ttl = 3110400,
     lr_extend = (\<lambda>now thr ext live. if live - now \<le> thr then max live (now + min ext 3110400) else live)\<rparr>"

lemma ex_rules_simps [simp]: "documented_ttl ex_rules" "lr_min_ttl ex_rules = 4096" "lr_max_ttl ex_rules = 3110400"
  by (simp_all add: documented_ttl_def ex_rules_def extended_def)

text \<open>
  No call extends the instance of the LP token: whoever calls what, from the moment the
  contract has lived as long as the network lets a new entry live, every call of it fails and so
  does the view of a balance. The admin, the metadata, the supply and the pause flag are in that
  entry, so a pool can then neither mint nor burn, until somebody extends or restores the entry
  by other means.
\<close>

lemma lp_instance_is_never_extended:
  assumes "lp_initialize admin decimals name symbol lp_empty = Inr s"
    and "n + lr_min_ttl R < e_sequence e"
  shows "timed_call c R e op (timed_run c R acts (timed_deployed R n s)) = Inl Panic \<and>
    timed_balance R e a (timed_run c R acts (timed_deployed R n s)) = Inl Panic"
proof -
  have "tl_live (timed_run c R acts (timed_deployed R n s)) K_Instance = n + lr_min_ttl R"
    by (simp add: timed_run_instance timed_deployed_def)
  then have "\<not> lp_alive (e_sequence e) (timed_run c R acts (timed_deployed R n s)) K_Instance"
    using assms(2) by (simp add: lp_alive_def)
  then show ?thesis
    using instance_in_footprint [of op] by (auto simp: timed_call_def timed_balance_def require_def)
qed

text \<open>
  C30. A balance that a call writes is alive for the 518400 ledgers (about 30 days) after it,
  whatever else is called in the meantime by anybody.
\<close>

theorem written_balance_lives_thirty_days:
  assumes "documented_ttl R" "LP_PERSISTENT_THRESHOLD \<le> lr_max_ttl R"
    and "timed_call c R e op w = Inr w'" "a \<in> balance_writes op"
    and "\<forall>(e1, act) \<in> set acts. e_sequence e \<le> e_sequence e1"
    and "e_sequence e2 \<le> e_sequence e + LP_PERSISTENT_THRESHOLD"
  shows "lp_alive (e_sequence e2) (timed_run c R acts w') (K_Balance a)"
proof -
  let ?b = "e_sequence e + LP_PERSISTENT_THRESHOLD"
  have "lives_to ?b (tl_state w') (tl_live w') (K_Balance a)"
    using assms(3,4) by (auto simp: res_inv intro!: timed_call_lives [OF assms(1,2) order_refl])
  then have "lives_to ?b (tl_state (timed_run c R acts w')) (tl_live (timed_run c R acts w')) (K_Balance a)"
    using assms(5)
    by (intro timed_run_invariant [where P = "\<lambda>v. lives_to ?b (tl_state v) (tl_live v) (K_Balance a)"]
        timed_exec_lives [OF assms(1,2)]) auto
  then show ?thesis
    using assms(6) lives_to_mono by (auto simp: lp_alive_lives_to)
qed

theorem written_balance_lives_thirty_days_witness:
  "\<exists>w'. timed_call ex_crypto ex_rules ex_env (LC_transfer (Address 2) (Address 4) 100)
      \<lparr>tl_state = ex_lp, tl_live = (\<lambda>k. 4146)\<rparr> = Inr w' \<and>
    lp_alive 518450 (timed_run ex_crypto ex_rules [(ex_env, Call (LC_burn (Address 4) 7))] w') (K_Balance (Address 4))"
proof -
  obtain w' where w': "timed_call ex_crypto ex_rules ex_env (LC_transfer (Address 2) (Address 4) 100)
      \<lparr>tl_state = ex_lp, tl_live = (\<lambda>k. 4146)\<rparr> = Inr w'"
    by (auto simp: timed_call_def lp_transfer_def lp_transfer_internal_def lp_is_paused_def ex_lp_def ex_env_def
        lp_alive_def lp_write_balance_def lp_balance_def int_ops_defs require_def)
  then show ?thesis
    using written_balance_lives_thirty_days [OF ex_rules_simps(1) _ w', of "Address 4"
        "[(ex_env, Call (LC_burn (Address 4) 7))]" "ex_env\<lparr>e_sequence := 518450\<rparr>"]
    by (auto simp: ttl_policy_defs ex_env_def)
qed

text \<open>
  Not longer: a holder whose entry has one ledger more than the threshold left is not extended
  by looking at it or by receiving more, and finds it archived 518402 ledgers later, long before
  the 60 days of the documentation.
\<close>

lemma touch_above_threshold:
  assumes "documented_ttl R" "tl_live w (K_Balance a) = e_sequence e + LP_PERSISTENT_THRESHOLD + 1"
    and "lp_has_entry (tl_state w) (K_Balance a)"
    and "timed_balance R e a w = Inr (y, w') \<or> timed_call c R e (LC_mint a x) w = Inr w' \<or>
      timed_call c R e (LC_transfer f a x) w = Inr w' \<and> f \<noteq> a"
  shows "tl_live w' (K_Balance a) = tl_live w (K_Balance a)"
  using assms(2-4)
  by (auto simp: res_inv ttl_defs Let_def lp_write_balance_def extend_beyond [OF assms(1)])

lemma sixty_days_are_not_enough:
  assumes "tl_live w (K_Balance a) = e_sequence e + LP_PERSISTENT_THRESHOLD + 1"
    and "lp_has_entry (tl_state w) (K_Balance a)" "e_sequence e2 = e_sequence e + LP_PERSISTENT_THRESHOLD + 2"
    and "K_Balance a \<in> set (lp_footprint op)"
  shows "timed_call c R e2 op w = Inl Panic" "e_sequence e2 < e_sequence e + LP_PERSISTENT_EXTEND_TO"
  using assms by (auto simp: timed_call_def require_def lp_alive_def ttl_policy_defs)

text \<open>
  Allowances keep their promise: as long as nobody asks for a deadline further ahead than the
  network lets an entry live, every stored allowance is alive up to its deadline, also after parts
  of it were spent.
\<close>

lemma allowances_live_to_their_deadline:
  assumes "documented_ttl R" "lp_initialize admin decimals name symbol lp_empty = Inr s"
    and "\<forall>(e, act) \<in> set acts. \<forall>op. act = Call op \<longrightarrow> deadline_fits R (e_sequence e) op"
    and "w = timed_run c R acts (timed_deployed R n s)"
    and "lp_allowances (tl_state w) (f, sp) = Some en" "e_sequence e \<le> ae_expiration_ledger en"
  shows "lp_alive (e_sequence e) w (K_Allowance f sp)"
proof -
  let ?P = "\<lambda>v. allowances_live (tl_state v) (tl_live v)"
  have "?P w"
    unfolding assms(4)
  proof (rule timed_run_invariant [where P = ?P])
    show "?P (timed_deployed R n s)"
      using assms(2) by (auto simp: timed_deployed_def allowances_live_def res_inv lp_empty_def)
    fix e act and v :: timed_lp
    assume act: "(e, act) \<in> set acts" "?P v"
    show "?P (timed_exec c R (e, act) v)"
    proof (rule timed_exec_cases [where P = ?P])
      fix op w'
      assume "act = Call op" "timed_call c R e op v = Inr w'"
      then show "?P w'"
        using act assms(3) lp_step_allowances_live [OF assms(1)] by (auto simp: res_inv)
    qed (use act(2) in \<open>auto simp: res_inv allowances_live_def ttl_extend_def\<close>)
  qed
  then show ?thesis
    using assms(5,6) by (fastforce simp: allowances_live_def lp_alive_def)
qed

end
