(* ===== verification/Router_State.thy ===== *)
theory Router_State
  imports Token_Iface
begin

text \<open>
  The router's errors and storage (\<open>router/src/errors.rs\<close>, \<open>router/src/storage.rs\<close>) and its
  view of the contracts it calls: the client traits of \<open>router/src/helpers.rs\<close> and the token
  client, as a record of operations on the rest of the ledger. The router's theorems about
  quoting hold for any such record; \<open>Router_Net\<close> instantiates it with the factory and the pairs
  of this repository.
\<close>

section \<open>Errors and storage\<close>

datatype router_error =
    R_Expired | R_InsufficientOutputAmount | R_ExcessiveInputAmount | R_InvalidPath
  | R_PairNotFound | R_IdenticalTokens | R_ZeroAmount | R_InsufficientLiquidity
  | R_SlippageExceeded | R_InternalError | R_CommitNotFound | R_CommitRevealTooEarly
  | R_CommitHashMismatch | R_NonceAlreadyUsed | R_DustAmount | R_CommitExpired
  | R_TooManyCommits | R_InvalidCommitConfig | R_InvalidTokenOrder

record commit_entry =
  ce_hash :: "8 word list"
  ce_ledger :: int

record router_commit_config =
  max_commits :: int
  expiry_ledgers :: int

text \<open>One field per \<open>DataKey\<close>; a key that is absent from the instance storage is \<open>None\<close>.\<close>

record router_state =
  rs_factory :: "address option"
  rs_hubs :: "address list option"
  rs_commit :: "address \<rightharpoonup> commit_entry"
  rs_nonce_used :: "address \<times> int \<rightharpoonup> bool"
  rs_commit_count :: "int option"
  rs_commit_config :: "router_commit_config option"

definition router_empty :: router_state where
  "router_empty = \<lparr>rs_factory = None, rs_hubs = None, rs_commit = Map.empty,
     rs_nonce_used = Map.empty, rs_commit_count = None, rs_commit_config = None\<rparr>"

definition default_commit_config :: router_commit_config where
  "default_commit_config =
     \<lparr>max_commits = DEFAULT_MAX_COMMITS, expiry_ledgers = DEFAULT_COMMIT_EXPIRY_LEDGERS\<rparr>"

definition get_commit_config :: "router_state \<Rightarrow> router_commit_config" where
  "get_commit_config rs =
     (case rs_commit_config rs of None \<Rightarrow> default_commit_config | Some c \<Rightarrow> c)"

definition store_commit_config :: "router_commit_config \<Rightarrow> router_state \<Rightarrow> router_state" where
  "store_commit_config config rs = rs\<lparr>rs_commit_config := Some config\<rparr>"

definition get_commit_count :: "router_state \<Rightarrow> int" where
  "get_commit_count rs = (case rs_commit_count rs of None \<Rightarrow> 0 | Some n \<Rightarrow> n)"

definition set_commit_count :: "int \<Rightarrow> router_state \<Rightarrow> router_state" where
  "set_commit_count count rs = rs\<lparr>rs_commit_count := Some count\<rparr>"

definition set_router_factory :: "address \<Rightarrow> router_state \<Rightarrow> router_state" where
  "set_router_factory factory rs = rs\<lparr>rs_factory := Some factory\<rparr>"

definition get_router_factory :: "router_state \<Rightarrow> (router_error, address) res" where
  "get_router_factory rs = ok_or (rs_factory rs) R_PairNotFound"

definition store_hubs :: "address list \<Rightarrow> router_state \<Rightarrow> router_state" where
  "store_hubs hubs rs = rs\<lparr>rs_hubs := Some hubs\<rparr>"

definition get_hubs :: "router_state \<Rightarrow> address list" where
  "get_hubs rs = (case rs_hubs rs of None \<Rightarrow> [] | Some hubs \<Rightarrow> hubs)"

definition set_commit :: "address \<Rightarrow> commit_entry \<Rightarrow> router_state \<Rightarrow> router_state" where
  "set_commit sender entry rs = rs\<lparr>rs_commit := (rs_commit rs)(sender \<mapsto> entry)\<rparr>"

definition get_commit :: "router_state \<Rightarrow> address \<Rightarrow> commit_entry option" where
  "get_commit rs sender = rs_commit rs sender"

definition clear_commit :: "address \<Rightarrow> router_state \<Rightarrow> router_state" where
  "clear_commit sender rs = rs\<lparr>rs_commit := (rs_commit rs)(sender := None)\<rparr>"

text \<open>\<open>has\<close>: the key is present, whatever it holds.\<close>

definition is_nonce_used :: "router_state \<Rightarrow> address \<Rightarrow> int \<Rightarrow> bool" where
  "is_nonce_used rs sender nonce \<longleftrightarrow> rs_nonce_used rs (sender, nonce) \<noteq> None"

definition set_nonce_used :: "address \<Rightarrow> int \<Rightarrow> router_state \<Rightarrow> router_state" where
  "set_nonce_used sender nonce rs =
     rs\<lparr>rs_nonce_used := (rs_nonce_used rs)((sender, nonce) \<mapsto> True)\<rparr>"

lemmas router_storage_defs = get_commit_count_def set_commit_count_def set_router_factory_def
  get_router_factory_def store_hubs_def get_hubs_def set_commit_def get_commit_def clear_commit_def
  is_nonce_used_def set_nonce_used_def store_commit_config_def

section \<open>The contracts the router calls\<close>

text \<open>
  Questions return \<open>None\<close> when the callee traps or returns an error; calls that change the ledger
  take the environment of the router, and are \<open>None\<close> when they fail, in which case the router traps.
\<close>

record 'w clients =
  cl_get_pair :: "address \<Rightarrow> address \<Rightarrow> address \<Rightarrow> 'w \<Rightarrow> address option option"
  cl_is_pair :: "address \<Rightarrow> address \<Rightarrow> 'w \<Rightarrow> bool option"
  cl_fee_to_setter :: "address \<Rightarrow> 'w \<Rightarrow> address option option"
  cl_get_reserves :: "address \<Rightarrow> 'w \<Rightarrow> (int \<times> int \<times> int) option"
  cl_effective_fee :: "address \<Rightarrow> 'w \<Rightarrow> (int \<times> bool) option"
  cl_swap :: "env \<Rightarrow> address \<Rightarrow> int \<Rightarrow> int \<Rightarrow> address \<Rightarrow> 'w \<Rightarrow> 'w option"
  cl_mint :: "env \<Rightarrow> address \<Rightarrow> address \<Rightarrow> 'w \<Rightarrow> (int \<times> 'w) option"
  cl_deposit_lp :: "env \<Rightarrow> address \<Rightarrow> address \<Rightarrow> int \<Rightarrow> 'w \<Rightarrow> 'w option"
  cl_burn :: "env \<Rightarrow> address \<Rightarrow> address \<Rightarrow> 'w \<Rightarrow> ((int \<times> int) \<times> 'w) option"
  cl_transfer :: "env \<Rightarrow> address \<Rightarrow> address \<Rightarrow> address \<Rightarrow> int \<Rightarrow> 'w \<Rightarrow> 'w option"
  cl_balance :: "address \<Rightarrow> address \<Rightarrow> 'w \<Rightarrow> int"

text \<open>\<open>if let Ok(x) = m\<close>: a typed error is caught, a trap is not.\<close>

definition attempt :: "('e, 'a) res \<Rightarrow> ('e, 'a option) res" where
  "attempt m = (case m of Inr x \<Rightarrow> Inr (Some x) | Inl (Err _) \<Rightarrow> Inr None | Inl Panic \<Rightarrow> Inl Panic)"

lemma attempt_Inr [res_inv]:
  "attempt m = Inr y \<longleftrightarrow> (\<exists>x. m = Inr x \<and> y = Some x) \<or> (\<exists>er. m = Inl (Err er) \<and> y = None)"
  by (auto simp: attempt_def split: sum.splits fault.splits)

lemma attempt_simps [simp]: "attempt (Inr x) = Inr (Some x)" "attempt (Inl (Err er)) = Inr None"
  by (simp_all add: attempt_def)

end
