(* ===== verification/Factory_State.thy ===== *)
theory Factory_State
  imports Pair_Contract
begin

text \<open>
  The factory's storage (\<open>factory/src/storage.rs\<close>), its errors and events, and the deployment
  it governs: all pairs and LP tokens it has created, the pool tokens, and the event log. The
  operations of a pair, which act on the world of one pair, are lifted to the deployment by
  \<open>on_pair\<close>.
\<close>

section \<open>Errors, storage, events\<close>

datatype factory_error =
    F_AlreadyInitialized | F_NotInitialized | F_PairExists | F_InvalidSignerCount
  | F_InsufficientSignatures | F_TimelockNotExpired | F_ProtocolPaused | F_IdenticalTokens
  | F_UpgradeTimelockNotExpired | F_Unauthorized | F_UpgradeAlreadyPending | F_NoPendingUpgrade
  | F_LimitTooHigh | F_FeeTooHigh | F_InvalidFeeRecipient | F_FeeDisabled | F_DuplicateSigner
  | F_PairFreezeFailed | F_PairNotFound

type_synonym bytes = "8 word list"

record factory_storage =
  fs_signers :: "address list"
  fs_pair_wasm_hash :: bytes
  fs_concentrated_pair_wasm_hash :: bytes
  fs_lp_token_wasm_hash :: bytes
  fs_pair_count :: int
  fs_protocol_version :: int
  fs_paused :: bool
  fs_fee_to :: "address option"
  fs_fee_to_setter :: address
  fs_fee_bps :: int

record pending_upgrade =
  pu_new_wasm_hash :: bytes
  pu_proposed_at_ledger :: int

text \<open>One field per \<open>DataKey\<close>; a key that is absent from the instance storage is \<open>None\<close>.\<close>

record factory_state =
  fc_storage :: "factory_storage option"
  fc_pair :: "address \<times> address \<rightharpoonup> address"
  fc_pending_upgrade :: "pending_upgrade option"
  fc_pair_list :: "address list"
  fc_fee_override :: "address \<rightharpoonup> int"
  fc_total_pairs :: "int option"
  fc_pair_frozen :: "address \<rightharpoonup> bool"
  fc_is_pair :: "address \<rightharpoonup> bool"
  fc_is_lp_token :: "address \<rightharpoonup> bool"
  fc_fee_balance :: "bytes \<rightharpoonup> int"

definition factory_empty :: factory_state where
  "factory_empty = \<lparr>fc_storage = None, fc_pair = Map.empty, fc_pending_upgrade = None,
     fc_pair_list = [], fc_fee_override = Map.empty, fc_total_pairs = None,
     fc_pair_frozen = Map.empty, fc_is_pair = Map.empty, fc_is_lp_token = Map.empty,
     fc_fee_balance = Map.empty\<rparr>"

datatype system_event =
  FE_created address address address int
| FE_paused
| FE_unpaused
| FE_resumed
| FE_sync bool int
| FE_pair_frozen address address int
| FE_pair_unfrozen address address int
| FE_prop_upg bytes
| FE_upgraded int
| FE_fee_to "address option"
| FE_setter address
| FE_fee_upd int int "address option"
| FE_pair_fee address int int int
| FE_protocol_fee_collected address int
| SE_pair address pair_event

section \<open>The deployment\<close>

record 'tok system =
  sy_factory :: factory_state
  sy_code :: bytes
  sy_pairs :: "address \<rightharpoonup> pair_contract"
  sy_lps :: "address \<rightharpoonup> lp_state"
  sy_tok :: 'tok
  sy_log :: "system_event list"

text \<open>
  The host. \<open>h_contract_address\<close> derives the address of a contract from its deployer and a
  salt. \<open>h_reentry\<close> says whether a contract may call back into one that is already on the call
  stack; Soroban refuses this, so there it is \<open>False\<close>, and a \<open>try_\<close> call gets an error.
  \<open>h_foreign\<close> says which addresses outside the deployment answer a call that is meant for a
  pair without trapping.
\<close>

record host = crypto +
  h_symbol_xdr :: "string \<Rightarrow> bytes"
  h_contract_address :: "address \<Rightarrow> bytes \<Rightarrow> address"
  h_reentry :: bool
  h_foreign :: "address \<Rightarrow> bool"

definition sy_emit :: "system_event \<Rightarrow> 'tok system \<Rightarrow> 'tok system" where
  "sy_emit ev sy = sy\<lparr>sy_log := sy_log sy @ [ev]\<rparr>"

definition set_factory :: "(factory_state \<Rightarrow> factory_state) \<Rightarrow> 'tok system \<Rightarrow> 'tok system" where
  "set_factory f sy = sy\<lparr>sy_factory := f (sy_factory sy)\<rparr>"

definition set_factory_storage :: "factory_storage \<Rightarrow> 'tok system \<Rightarrow> 'tok system" where
  "set_factory_storage fs = set_factory (\<lambda>c. c\<lparr>fc_storage := Some fs\<rparr>)"

definition get_factory_storage :: "'tok system \<Rightarrow> (factory_error, factory_storage) res" where
  "get_factory_storage sy = ok_or (fc_storage (sy_factory sy)) F_NotInitialized"

definition get_total_pairs :: "factory_state \<Rightarrow> int" where
  "get_total_pairs c = (case fc_total_pairs c of None \<Rightarrow> 0 | Some n \<Rightarrow> n)"

definition factory_is_pair_frozen :: "factory_state \<Rightarrow> address \<Rightarrow> bool" where
  "factory_is_pair_frozen c p = (case fc_pair_frozen c p of None \<Rightarrow> False | Some b \<Rightarrow> b)"

text \<open>A cleared flag is removed from the storage.\<close>

definition set_flag :: "address \<Rightarrow> bool \<Rightarrow> (address \<rightharpoonup> bool) \<Rightarrow> (address \<rightharpoonup> bool)" where
  "set_flag a b m = m(a := if b then Some True else None)"

definition factory_is_pair :: "factory_state \<Rightarrow> address \<Rightarrow> bool" where
  "factory_is_pair c p =
     (case fc_is_pair c p of Some b \<Rightarrow> b | None \<Rightarrow> p \<in> set (fc_pair_list c))"

definition factory_is_lp_token :: "factory_state \<Rightarrow> address \<Rightarrow> bool" where
  "factory_is_lp_token c t = (case fc_is_lp_token c t of None \<Rightarrow> False | Some b \<Rightarrow> b)"

section \<open>Pairs inside the deployment\<close>

text \<open>What a pair learns when it asks the factory, and when the host refuses the question.\<close>

definition fee_to_of :: "factory_state \<Rightarrow> address option" where
  "fee_to_of c = (case fc_storage c of None \<Rightarrow> None | Some fs \<Rightarrow> fs_fee_to fs)"

definition fee_bps_of :: "factory_state \<Rightarrow> int" where
  "fee_bps_of c = (case fc_storage c of None \<Rightarrow> 0 | Some fs \<Rightarrow> fs_fee_bps fs)"

definition view_of :: "factory_state \<Rightarrow> factory_view" where
  "view_of c = \<lparr>fv_fee_override = (\<lambda>p. Some (fc_fee_override c p)), fv_fee_to = Some (fee_to_of c),
     fv_fee_bps = Some (fee_bps_of c), fv_is_pair = (\<lambda>p. Some (factory_is_pair c p)),
     fv_is_lp_token = (\<lambda>t. Some (factory_is_lp_token c t))\<rparr>"

definition refused_view :: factory_view where
  "refused_view = \<lparr>fv_fee_override = (\<lambda>_. None), fv_fee_to = None, fv_fee_bps = None,
     fv_is_pair = (\<lambda>_. None), fv_is_lp_token = (\<lambda>_. None)\<rparr>"

definition lp_of_pair :: "'tok system \<Rightarrow> pair_contract \<Rightarrow> lp_state" where
  "lp_of_pair sy c =
     (case pc_state c of None \<Rightarrow> lp_empty
      | Some ps \<Rightarrow> (case sy_lps sy (ps_lp_token ps) of None \<Rightarrow> lp_empty | Some l \<Rightarrow> l))"

definition world_of :: "'tok system \<Rightarrow> pair_contract \<Rightarrow> 'tok world" where
  "world_of sy c = \<lparr>w_pair = c, w_lp = lp_of_pair sy c, w_tok = sy_tok sy, w_events = []\<rparr>"

definition put_world :: "address \<Rightarrow> 'tok world \<Rightarrow> 'tok system \<Rightarrow> 'tok system" where
  "put_world p w sy = sy\<lparr>sy_pairs := (sy_pairs sy)(p \<mapsto> w_pair w),
     sy_lps := (case pc_state (w_pair w) of None \<Rightarrow> sy_lps sy
                | Some ps \<Rightarrow> (sy_lps sy)(ps_lp_token ps \<mapsto> w_lp w)),
     sy_tok := w_tok w,
     sy_log := sy_log sy @ map (SE_pair p) (w_events w)\<rparr>"

definition on_pair ::
  "address \<Rightarrow> ('tok world \<Rightarrow> ('e, 'a \<times> 'tok world) res) \<Rightarrow> 'tok system \<Rightarrow>
     ('e, 'a \<times> 'tok system) res" where
  "on_pair p f sy =
     bindR (or_panic (sy_pairs sy p)) (\<lambda>c.
     bindR (f (world_of sy c)) (\<lambda>(x, w). Inr (x, put_world p w sy)))"

lemma set_factory_simps [simp]:
  "sy_factory (set_factory f sy) = f (sy_factory sy)" "sy_pairs (set_factory f sy) = sy_pairs sy"
  "sy_lps (set_factory f sy) = sy_lps sy" "sy_tok (set_factory f sy) = sy_tok sy"
  "sy_code (set_factory f sy) = sy_code sy" "sy_log (set_factory f sy) = sy_log sy"
  by (simp_all add: set_factory_def)

lemma set_factory_storage_simps [simp]:
  "sy_factory (set_factory_storage fs sy) = (sy_factory sy)\<lparr>fc_storage := Some fs\<rparr>"
  "sy_pairs (set_factory_storage fs sy) = sy_pairs sy"
  "sy_lps (set_factory_storage fs sy) = sy_lps sy" "sy_tok (set_factory_storage fs sy) = sy_tok sy"
  "sy_code (set_factory_storage fs sy) = sy_code sy" "sy_log (set_factory_storage fs sy) = sy_log sy"
  by (simp_all add: set_factory_storage_def)

lemma sy_emit_simps [simp]:
  "sy_factory (sy_emit ev sy) = sy_factory sy" "sy_pairs (sy_emit ev sy) = sy_pairs sy"
  "sy_lps (sy_emit ev sy) = sy_lps sy" "sy_tok (sy_emit ev sy) = sy_tok sy"
  "sy_code (sy_emit ev sy) = sy_code sy" "sy_log (sy_emit ev sy) = sy_log sy @ [ev]"
  by (simp_all add: sy_emit_def)

lemma put_world_simps [simp]:
  "sy_factory (put_world p w sy) = sy_factory sy" "sy_tok (put_world p w sy) = w_tok w"
  "sy_pairs (put_world p w sy) = (sy_pairs sy)(p \<mapsto> w_pair w)"
  "sy_code (put_world p w sy) = sy_code sy"
  by (simp_all add: put_world_def)

lemma world_of_simps [simp]:
  "w_pair (world_of sy c) = c" "w_tok (world_of sy c) = sy_tok sy"
  "w_lp (world_of sy c) = lp_of_pair sy c" "w_events (world_of sy c) = []"
  "get_pair_state (world_of sy c) = pc_state c" "get_fee_state (world_of sy c) = pc_fee c"
  by (simp_all add: world_of_def get_pair_state_def get_fee_state_def)

lemma get_factory_storage_Inr [res_inv]:
  "get_factory_storage sy = Inr fs \<longleftrightarrow> fc_storage (sy_factory sy) = Some fs"
  by (simp add: get_factory_storage_def res_inv)

lemma on_pair_Inr:
  "on_pair p f sy = Inr (x, sy') \<longleftrightarrow>
    (\<exists>c w. sy_pairs sy p = Some c \<and> f (world_of sy c) = Inr (x, w) \<and> sy' = put_world p w sy)"
  by (auto simp: on_pair_def res_inv)

text \<open>A \<open>try_\<close> call whose failures are all mapped to one error.\<close>

lemma try_case_Inr [res_inv]:
  "(case m of Inl u \<Rightarrow> Inl (Err er) | Inr x \<Rightarrow> f x) = Inr y \<longleftrightarrow> (\<exists>x. m = Inr x \<and> f x = Inr y)"
  by (auto split: sum.splits)

lemma set_flag_simps [simp]:
  "set_flag a b m x = (if x = a then if b then Some True else None else m x)"
  by (simp add: set_flag_def)

end
