(* ===== verification/Router.thy ===== *)
theory Router
  imports Router_State Factory_State
begin

text \<open>
  The router contract: \<open>router/src/helpers.rs\<close> and \<open>router/src/lib.rs\<close>. A path is a list of
  tokens; the loops over its hops are recursions over that list. Entry points that change the
  router's storage take and return a \<open>router_state\<close>, those that change the rest of the ledger
  take and return its state.
\<close>

section \<open>Quotes\<close>

fun map_quote_error :: "quote_error \<Rightarrow> router_error" where
  "map_quote_error QZeroAmount = R_ZeroAmount"
| "map_quote_error QDust = R_DustAmount"
| "map_quote_error QInsufficientLiquidity = R_InsufficientLiquidity"
| "map_quote_error QOverflow = R_InsufficientLiquidity"
| "map_quote_error QInvalidFee = R_InsufficientLiquidity"

definition get_amount_out :: "int \<Rightarrow> int \<Rightarrow> int \<Rightarrow> int \<Rightarrow> (router_error, int) res" where
  "get_amount_out amount_in reserve_in reserve_out fee_bps =
     map_errR map_quote_error (quote_output_amount amount_in reserve_in reserve_out fee_bps)"

definition get_amount_in :: "int \<Rightarrow> int \<Rightarrow> int \<Rightarrow> int \<Rightarrow> (router_error, int) res" where
  "get_amount_in amount_out reserve_in reserve_out fee_bps =
     map_errR map_quote_error (quote_input_amount amount_out reserve_in reserve_out fee_bps)"

definition router_quote :: "int \<Rightarrow> int \<Rightarrow> int \<Rightarrow> (router_error, int) res" where
  "router_quote amount_a reserve_a reserve_b =
     reject (amount_a \<le> 0) R_ZeroAmount (
     reject (reserve_a \<le> 0 \<or> reserve_b \<le> 0) R_InsufficientLiquidity (
     bindR (ok_or (i128_checked_mul amount_a reserve_b) R_InsufficientLiquidity) (\<lambda>product.
     Inr (product sdiv reserve_a))))"

definition sort_tokens :: "address \<Rightarrow> address \<Rightarrow> (router_error, address \<times> address) res" where
  "sort_tokens token_a token_b =
     reject (token_a = token_b) R_IdenticalTokens (
     Inr (if token_a < token_b then (token_a, token_b) else (token_b, token_a)))"

text \<open>The plain division of \<open>i128\<close> values: it panics on a zero divisor and on overflow.\<close>

definition i128_div :: "int \<Rightarrow> int \<Rightarrow> (router_error, int) res" where
  "i128_div a b = or_panic (i128_checked_div a b)"

definition compute_optimal_amounts ::
  "int \<Rightarrow> int \<Rightarrow> int \<Rightarrow> int \<Rightarrow> int \<Rightarrow> int \<Rightarrow> (router_error, int \<times> int) res" where
  "compute_optimal_amounts amount_a_desired amount_b_desired amount_a_min amount_b_min
       reserve_a reserve_b =
     (if reserve_a = 0 \<and> reserve_b = 0 then Inr (amount_a_desired, amount_b_desired)
      else
        bindR (ok_or (i128_checked_mul amount_a_desired reserve_b) R_InsufficientLiquidity) (\<lambda>product_b.
        bindR (i128_div product_b reserve_a) (\<lambda>amount_b_optimal.
        if amount_b_optimal \<le> amount_b_desired then
          reject (amount_b_optimal < amount_b_min) R_SlippageExceeded (
          Inr (amount_a_desired, amount_b_optimal))
        else
          bindR (ok_or (i128_checked_mul amount_b_desired reserve_a) R_InsufficientLiquidity) (\<lambda>product_a.
          bindR (i128_div product_a reserve_b) (\<lambda>amount_a_optimal.
          reject (amount_a_optimal < amount_a_min) R_SlippageExceeded (
          Inr (amount_a_optimal, amount_b_desired)))))))"

section \<open>Looking up pairs\<close>

definition get_pair_address ::
  "'w clients \<Rightarrow> address \<Rightarrow> 'w \<Rightarrow> address \<Rightarrow> address \<Rightarrow> (router_error, address) res" where
  "get_pair_address cl factory w token_a token_b =
     bindR (or_panic (cl_get_pair cl factory token_a token_b w)) (\<lambda>found.
     bindR (ok_or found R_PairNotFound) (\<lambda>pair.
     bindR (or_panic (cl_is_pair cl factory pair w)) (\<lambda>registered.
     reject (\<not> registered) R_PairNotFound (Inr pair))))"

definition get_pair_reserves_and_fee ::
  "'w clients \<Rightarrow> 'w \<Rightarrow> address \<Rightarrow> address \<Rightarrow> address \<Rightarrow> (router_error, int \<times> int \<times> int) res" where
  "get_pair_reserves_and_fee cl w pair token_in token_out =
     bindR (ok_or (cl_get_reserves cl pair w) R_PairNotFound) (\<lambda>(reserve_a, reserve_b, _).
     reject (reserve_a \<le> 0 \<or> reserve_b \<le> 0 \<or> i128_checked_mul reserve_a reserve_b = None)
       R_InsufficientLiquidity (
     bindR (ok_or (cl_effective_fee cl pair w) R_PairNotFound) (\<lambda>(fee_bps, _).
     reject (fee_bps > 100) R_PairNotFound (
     bindR (sort_tokens token_in token_out) (\<lambda>(token_0, _).
     Inr (if token_in = token_0 then (reserve_a, reserve_b, fee_bps)
          else (reserve_b, reserve_a, fee_bps)))))))"

text \<open>The two lookups that every hop makes.\<close>

definition hop_pool ::
  "'w clients \<Rightarrow> address \<Rightarrow> 'w \<Rightarrow> address \<Rightarrow> address \<Rightarrow> (router_error, int \<times> int \<times> int) res" where
  "hop_pool cl factory w token_in token_out =
     bindR (get_pair_address cl factory w token_in token_out) (\<lambda>pair.
     get_pair_reserves_and_fee cl w pair token_in token_out)"

section \<open>Quotes along a path\<close>

fun hops_out ::
  "'w clients \<Rightarrow> address \<Rightarrow> 'w \<Rightarrow> address list \<Rightarrow> int \<Rightarrow> (router_error, int list) res" where
  "hops_out cl factory w (a # b # path) current_amount =
     bindR (hop_pool cl factory w a b) (\<lambda>(reserve_in, reserve_out, fee_bps).
     bindR (get_amount_out current_amount reserve_in reserve_out fee_bps) (\<lambda>next_amount.
     bindR (hops_out cl factory w (b # path) next_amount) (\<lambda>amounts.
     Inr (next_amount # amounts))))"
| "hops_out cl factory w _ current_amount = Inr []"

definition get_path_amounts_out ::
  "'w clients \<Rightarrow> address \<Rightarrow> 'w \<Rightarrow> address list \<Rightarrow> int \<Rightarrow> (router_error, int list) res" where
  "get_path_amounts_out cl factory w path amount_in =
     reject (length path < 2) R_InvalidPath (hops_out cl factory w path amount_in)"

text \<open>
  The backward walks: each returns the list it inserts at the front of and the amount it carries
  to the hop before.
\<close>

fun hops_minimum ::
  "'w clients \<Rightarrow> address \<Rightarrow> 'w \<Rightarrow> address list \<Rightarrow> int \<Rightarrow> (router_error, int list \<times> int) res" where
  "hops_minimum cl factory w (a # b # path) amount_out_min =
     bindR (hops_minimum cl factory w (b # path) amount_out_min) (\<lambda>(min_amounts, current_min_output).
     bindR (hop_pool cl factory w a b) (\<lambda>(reserve_in, reserve_out, fee_bps).
     bindR (if current_min_output \<le> 0 then Inr 0
            else get_amount_in current_min_output reserve_in reserve_out fee_bps) (\<lambda>previous.
     Inr (current_min_output # min_amounts, previous))))"
| "hops_minimum cl factory w _ amount_out_min = Inr ([], amount_out_min)"

definition get_path_minimums ::
  "'w clients \<Rightarrow> address \<Rightarrow> 'w \<Rightarrow> address list \<Rightarrow> int \<Rightarrow> (router_error, int list) res" where
  "get_path_minimums cl factory w path amount_out_min =
     reject (length path < 2) R_InvalidPath (
     bindR (hops_minimum cl factory w path amount_out_min) (\<lambda>(min_amounts, _).
     Inr min_amounts))"

fun hops_required ::
  "'w clients \<Rightarrow> address \<Rightarrow> 'w \<Rightarrow> address list \<Rightarrow> int \<Rightarrow> (router_error, int list \<times> int) res" where
  "hops_required cl factory w (a # b # path) amount_out =
     bindR (hops_required cl factory w (b # path) amount_out) (\<lambda>(required, current).
     bindR (hop_pool cl factory w a b) (\<lambda>(reserve_in, reserve_out, fee_bps).
     bindR (get_amount_in current reserve_in reserve_out fee_bps) (\<lambda>previous.
     Inr (previous # required, previous))))"
| "hops_required cl factory w _ amount_out = Inr ([], amount_out)"

section \<open>Finding a path\<close>

text \<open>
  The expected output of a candidate path, \<open>None\<close> when a lookup or a quote on it fails: all pairs
  are looked up, then all reserves, then the amounts are chained, as the three nested blocks of
  \<open>get_best_path\<close> do for one, two and three hops.
\<close>

fun collect_results :: "('e, 'a option) res list \<Rightarrow> ('e, 'a option list) res" where
  "collect_results [] = Inr []"
| "collect_results (m # ms) = bindR m (\<lambda>x. bindR (collect_results ms) (\<lambda>xs. Inr (x # xs)))"

fun chain_out :: "(int \<times> int \<times> int) list \<Rightarrow> int \<Rightarrow> (router_error, int option) res" where
  "chain_out [] amount = Inr (Some amount)"
| "chain_out ((reserve_in, reserve_out, fee_bps) # pools) amount =
     bindR (attempt (get_amount_out amount reserve_in reserve_out fee_bps)) (\<lambda>out.
     case out of None \<Rightarrow> Inr None | Some x \<Rightarrow> chain_out pools x)"

definition route_out ::
  "'w clients \<Rightarrow> address \<Rightarrow> 'w \<Rightarrow> int \<Rightarrow> address list \<Rightarrow> (router_error, int option) res" where
  "route_out cl factory w amount_in path =
     (let hops = zip path (tl path) in
      bindR (collect_results (map (\<lambda>(a, b). attempt (get_pair_address cl factory w a b)) hops)) (\<lambda>pairs.
      if None \<in> set pairs then Inr None
      else
        bindR (collect_results (map (\<lambda>(p, a, b). attempt (get_pair_reserves_and_fee cl w p a b))
                 (zip (map the pairs) hops))) (\<lambda>pools.
        if None \<in> set pools then Inr None
        else chain_out (map the pools) amount_in)))"

fun improve_route ::
  "(address list \<Rightarrow> (router_error, int option) res) \<Rightarrow> address list list \<Rightarrow>
     address list \<times> int \<Rightarrow> (router_error, address list \<times> int) res" where
  "improve_route expected [] best = Inr best"
| "improve_route expected (path # paths) (best_path, best_out) =
     bindR (expected path) (\<lambda>result.
     improve_route expected paths
       (case result of
          Some out \<Rightarrow> if out > best_out then (path, out) else (best_path, best_out)
        | None \<Rightarrow> (best_path, best_out)))"

definition two_hop_paths :: "address list \<Rightarrow> address \<Rightarrow> address \<Rightarrow> address list list" where
  "two_hop_paths hubs token_in token_out =
     [[token_in, hub, token_out]. hub \<leftarrow> hubs, \<not> (hub = token_in \<or> hub = token_out)]"

definition three_hop_paths :: "address list \<Rightarrow> address \<Rightarrow> address \<Rightarrow> address list list" where
  "three_hop_paths hubs token_in token_out =
     [[token_in, hubs ! i, hubs ! j, token_out].
        i \<leftarrow> [0..<length hubs], j \<leftarrow> [0..<length hubs], i \<noteq> j,
        \<not> (hubs ! i = token_in \<or> hubs ! i = token_out \<or> hubs ! j = token_in \<or> hubs ! j = token_out)]"

definition get_best_path ::
  "'w clients \<Rightarrow> router_state \<Rightarrow> 'w \<Rightarrow> address \<Rightarrow> address \<Rightarrow> int \<Rightarrow>
     (router_error, address list \<times> int) res" where
  "get_best_path cl rs w token_in token_out amount_in =
     reject (token_in = token_out) R_IdenticalTokens (
     reject (amount_in \<le> 0) R_ZeroAmount (
     bindR (get_router_factory rs) (\<lambda>factory.
     let hubs = get_hubs rs; expected = route_out cl factory w amount_in in
     bindR (expected [token_in, token_out]) (\<lambda>direct.
     let best = (case direct of Some out \<Rightarrow> ([token_in, token_out], out) | None \<Rightarrow> ([], - 1)) in
     bindR (improve_route expected (two_hop_paths hubs token_in token_out) best) (\<lambda>best.
     bindR (improve_route expected (three_hop_paths hubs token_in token_out) best) (\<lambda>(best_path, best_out).
     reject (best_out < 0) R_PairNotFound (
     Inr (best_path, best_out))))))))"


section \<open>Deadlines and hop counts\<close>

definition check_deadline :: "env \<Rightarrow> int \<Rightarrow> int option \<Rightarrow> (router_error, unit) res" where
  "check_deadline e deadline deadline_ledger =
     reject (deadline < e_timestamp e) R_Expired (
     case deadline_ledger of
       None \<Rightarrow> Inr ()
     | Some limit \<Rightarrow> reject (e_sequence e > limit) R_Expired (Inr ()))"

text \<open>\<open>path.len() - 1\<close> on \<open>u32\<close>: the subtraction panics for an empty path.\<close>

definition hop_count :: "address list \<Rightarrow> (router_error, nat) res" where
  "hop_count path =
     require (path \<noteq> []) (
     let hops = length path - 1 in
     reject (\<not> (1 \<le> hops \<and> hops \<le> 3)) R_InvalidPath (Inr hops))"

section \<open>Administration\<close>

definition router_initialize :: "address \<Rightarrow> address list \<Rightarrow> router_state \<Rightarrow> router_state" where
  "router_initialize factory hubs rs = store_hubs hubs (set_router_factory factory rs)"

definition router_set_hubs :: "address list \<Rightarrow> router_state \<Rightarrow> router_state" where
  "router_set_hubs hubs rs = store_hubs hubs rs"

text \<open>The factory's \<open>fee_to_setter\<close>, who must authorise.\<close>

definition require_governance :: "'w clients \<Rightarrow> env \<Rightarrow> router_state \<Rightarrow> 'w \<Rightarrow> (router_error, unit) res" where
  "require_governance cl e rs w =
     bindR (get_router_factory rs) (\<lambda>factory.
     bindR (or_panic (cl_fee_to_setter cl factory w)) (\<lambda>setter.
     bindR (ok_or setter R_InternalError) (\<lambda>governance.
     require (e_auth e governance) (Inr ()))))"

definition router_sweep ::
  "'w clients \<Rightarrow> env \<Rightarrow> address \<Rightarrow> address \<Rightarrow> router_state \<Rightarrow> 'w \<Rightarrow> (router_error, int \<times> 'w) res" where
  "router_sweep cl e token recipient rs w =
     bindR (require_governance cl e rs w) (\<lambda>_.
     let router = e_self e; amount = cl_balance cl token router w in
     reject (amount \<le> 0) R_ZeroAmount (
     bindR (or_panic (cl_transfer cl e token router recipient amount w)) (\<lambda>w'.
     Inr (amount, w'))))"

definition router_set_commit_config ::
  "'w clients \<Rightarrow> env \<Rightarrow> int \<Rightarrow> int \<Rightarrow> 'w \<Rightarrow> router_state \<Rightarrow> (router_error, router_state) res" where
  "router_set_commit_config cl e new_max new_expiry w rs =
     bindR (require_governance cl e rs w) (\<lambda>_.
     reject (new_max = 0 \<or> new_max > MAX_COMMITS_HARD_CAP \<or> new_expiry = 0 \<or> new_expiry > COMMIT_EXPIRY_HARD_CAP)
       R_InvalidCommitConfig (
     Inr (store_commit_config \<lparr>max_commits = new_max, expiry_ledgers = new_expiry\<rparr> rs)))"

section \<open>Swaps\<close>

text \<open>
  The execution loop of both swaps: pool after pool, the outputs given. Outputs before the last
  hop go to the router, which forwards them to the next pool.
\<close>

fun run_hops ::
  "'w clients \<Rightarrow> env \<Rightarrow> address \<Rightarrow> address \<Rightarrow> address list \<Rightarrow> int list \<Rightarrow> 'w \<Rightarrow> (router_error, 'w) res" where
  "run_hops cl e factory to (token_from # token_to # path) (amount_out_hop # outs) w =
     bindR (get_pair_address cl factory w token_from token_to) (\<lambda>pair.
     bindR (sort_tokens token_from token_to) (\<lambda>(token_0, _).
     let dest = (if path = [] then to else e_self e) in
     bindR (or_panic (if token_from = token_0 then cl_swap cl e pair 0 amount_out_hop dest w
                      else cl_swap cl e pair amount_out_hop 0 dest w)) (\<lambda>w1.
     case path of
       [] \<Rightarrow> Inr w1
     | token_next # _ \<Rightarrow>
         bindR (get_pair_address cl factory w1 token_to token_next) (\<lambda>next_pair.
         bindR (or_panic (cl_transfer cl e token_to (e_self e) next_pair amount_out_hop w1)) (\<lambda>w2.
         run_hops cl e factory to (token_to # path) outs w2)))))"
| "run_hops cl e factory to _ _ w = Inr w"

text \<open>The user's input goes to the first pool before the loop.\<close>

definition pay_first_pool ::
  "'w clients \<Rightarrow> env \<Rightarrow> address \<Rightarrow> address \<Rightarrow> address list \<Rightarrow> int \<Rightarrow> 'w \<Rightarrow> (router_error, 'w) res" where
  "pay_first_pool cl e factory to path amount w =
     (let token_in = path ! 0 in
      bindR (get_pair_address cl factory w token_in (path ! 1)) (\<lambda>first_pair.
      or_panic (cl_transfer cl e token_in to first_pair amount w)))"

definition swap_exact_tokens_multi_hop ::
  "'w clients \<Rightarrow> env \<Rightarrow> address list \<Rightarrow> int \<Rightarrow> int \<Rightarrow> address \<Rightarrow> int \<Rightarrow> int option \<Rightarrow> router_state \<Rightarrow> 'w \<Rightarrow>
     (router_error, int \<times> 'w) res" where
  "swap_exact_tokens_multi_hop cl e path amount_in amount_out_min to deadline deadline_ledger rs w =
     bindR (check_deadline e deadline deadline_ledger) (\<lambda>_.
     reject (amount_in \<le> 0) R_ZeroAmount (
     bindR (hop_count path) (\<lambda>hops.
     bindR (get_router_factory rs) (\<lambda>factory.
     bindR (get_path_amounts_out cl factory w path amount_in) (\<lambda>amounts.
     let final_out = amounts ! (length amounts - 1) in
     reject (final_out < amount_out_min) R_InsufficientOutputAmount (
     bindR (get_path_minimums cl factory w path amount_out_min) (\<lambda>min_amounts.
     reject (\<exists>i \<in> set [0..<hops]. amounts ! i < min_amounts ! i) R_InsufficientOutputAmount (
     require (e_auth e to) (
     bindR (pay_first_pool cl e factory to path amount_in w) (\<lambda>w1.
     bindR (run_hops cl e factory to path amounts w1) (\<lambda>w2.
     let token_in = path ! 0; dust = cl_balance cl token_in (e_self e) w2 in
     bindR (if dust > 0 then or_panic (cl_transfer cl e token_in (e_self e) to dust w2)
            else Inr w2) (\<lambda>w3.
     Inr (final_out, w3)))))))))))))"

definition swap_exact_tokens_for_tokens ::
  "'w clients \<Rightarrow> env \<Rightarrow> int \<Rightarrow> int \<Rightarrow> address list \<Rightarrow> address \<Rightarrow> int \<Rightarrow> int option \<Rightarrow> router_state \<Rightarrow> 'w \<Rightarrow>
     (router_error, int list \<times> 'w) res" where
  "swap_exact_tokens_for_tokens cl e amount_in amount_out_min path to deadline deadline_ledger rs w =
     bindR (swap_exact_tokens_multi_hop cl e path amount_in amount_out_min to deadline
       deadline_ledger rs w) (\<lambda>(final_out, w'). Inr ([final_out], w'))"

text \<open>The output of a hop is the input that the next one requires.\<close>

definition swap_tokens_for_exact_tokens ::
  "'w clients \<Rightarrow> env \<Rightarrow> int \<Rightarrow> int \<Rightarrow> address list \<Rightarrow> address \<Rightarrow> int \<Rightarrow> int option \<Rightarrow> router_state \<Rightarrow> 'w \<Rightarrow>
     (router_error, int list \<times> 'w) res" where
  "swap_tokens_for_exact_tokens cl e amount_out amount_in_max path to deadline deadline_ledger rs w =
     bindR (check_deadline e deadline deadline_ledger) (\<lambda>_.
     reject (amount_out \<le> 0) R_ZeroAmount (
     bindR (hop_count path) (\<lambda>hops.
     bindR (get_router_factory rs) (\<lambda>factory.
     bindR (hops_required cl factory w path amount_out) (\<lambda>(required, amount_in_needed).
     reject (amount_in_needed > amount_in_max) R_ExcessiveInputAmount (
     require (e_auth e to) (
     bindR (pay_first_pool cl e factory to path amount_in_needed w) (\<lambda>w1.
     bindR (run_hops cl e factory to path (tl required @ [amount_out]) w1) (\<lambda>w2.
     Inr ([amount_in_needed], w2))))))))))"

section \<open>Liquidity\<close>

definition router_add_liquidity ::
  "'w clients \<Rightarrow> env \<Rightarrow> address \<Rightarrow> address \<Rightarrow> int \<Rightarrow> int \<Rightarrow> int \<Rightarrow> int \<Rightarrow> address \<Rightarrow> int \<Rightarrow> int option \<Rightarrow>
     router_state \<Rightarrow> 'w \<Rightarrow> (router_error, (int \<times> int \<times> int) \<times> 'w) res" where
  "router_add_liquidity cl e token_a token_b amount_a_desired amount_b_desired amount_a_min
       amount_b_min to deadline deadline_ledger rs w =
     bindR (check_deadline e deadline deadline_ledger) (\<lambda>_.
     reject (amount_a_desired \<le> 0 \<or> amount_b_desired \<le> 0) R_ZeroAmount (
     reject (token_a = token_b) R_IdenticalTokens (
     bindR (sort_tokens token_a token_b) (\<lambda>(token_0, token_1).
     let swapped = (token_0 \<noteq> token_a);
         (amount_0_desired, amount_1_desired, amount_0_min, amount_1_min) =
           (if swapped then (amount_b_desired, amount_a_desired, amount_b_min, amount_a_min)
            else (amount_a_desired, amount_b_desired, amount_a_min, amount_b_min)) in
     bindR (get_router_factory rs) (\<lambda>factory.
     bindR (get_pair_address cl factory w token_0 token_1) (\<lambda>pair_address.
     bindR (or_panic (cl_get_reserves cl pair_address w)) (\<lambda>(reserve_0, reserve_1, _).
     bindR (compute_optimal_amounts amount_0_desired amount_1_desired amount_0_min amount_1_min
       reserve_0 reserve_1) (\<lambda>(amount_0, amount_1).
     require (e_auth e to) (
     bindR (or_panic (cl_transfer cl e token_0 to pair_address amount_0 w)) (\<lambda>w1.
     bindR (or_panic (cl_transfer cl e token_1 to pair_address amount_1 w1)) (\<lambda>w2.
     bindR (or_panic (cl_mint cl e pair_address to w2)) (\<lambda>(liquidity, w3).
     let (ret_amount_a, ret_amount_b) =
       (if swapped then (amount_1, amount_0) else (amount_0, amount_1)) in
     Inr ((ret_amount_a, ret_amount_b, liquidity), w3)))))))))))))"

definition router_remove_liquidity ::
  "'w clients \<Rightarrow> env \<Rightarrow> address \<Rightarrow> address \<Rightarrow> int \<Rightarrow> int \<Rightarrow> int \<Rightarrow> address \<Rightarrow> int \<Rightarrow> int option \<Rightarrow>
     router_state \<Rightarrow> 'w \<Rightarrow> (router_error, (int \<times> int) \<times> 'w) res" where
  "router_remove_liquidity cl e token_a token_b liquidity amount_a_min amount_b_min to deadline
       deadline_ledger rs w =
     bindR (check_deadline e deadline deadline_ledger) (\<lambda>_.
     reject (liquidity \<le> 0) R_ZeroAmount (
     reject (token_a = token_b) R_IdenticalTokens (
     bindR (sort_tokens token_a token_b) (\<lambda>(token_0, token_1).
     let swapped = (token_0 \<noteq> token_a);
         (amount_0_min, amount_1_min) =
           (if swapped then (amount_b_min, amount_a_min) else (amount_a_min, amount_b_min)) in
     bindR (get_router_factory rs) (\<lambda>factory.
     bindR (get_pair_address cl factory w token_0 token_1) (\<lambda>pair_address.
     require (e_auth e to) (
     bindR (or_panic (cl_deposit_lp cl e pair_address to liquidity w)) (\<lambda>w1.
     bindR (or_panic (cl_burn cl e pair_address to w1)) (\<lambda>((amount_0, amount_1), w2).
     reject (amount_0 < amount_0_min \<or> amount_1 < amount_1_min) R_InsufficientOutputAmount (
     let (ret_amount_a, ret_amount_b) =
       (if swapped then (amount_1, amount_0) else (amount_0, amount_1)) in
     Inr ((ret_amount_a, ret_amount_b), w2)))))))))))"

section \<open>Commit and reveal\<close>

record swap_commitment =
  sc_sender :: address
  sc_token_in :: address
  sc_token_out :: address
  sc_amount_in :: int
  sc_min_out :: int
  sc_nonce :: int
  sc_salt :: "8 word list"

definition swap_preimage :: "host \<Rightarrow> swap_commitment \<Rightarrow> 8 word list" where
  "swap_preimage h s =
     c_to_xdr h (sc_sender s) @ c_to_xdr h (sc_token_in s) @ c_to_xdr h (sc_token_out s)
       @ be_bytes 16 (sc_amount_in s) @ be_bytes 16 (sc_min_out s) @ be_bytes 8 (sc_nonce s)
       @ sc_salt s"

definition compute_swap_hash :: "host \<Rightarrow> swap_commitment \<Rightarrow> 8 word list" where
  "compute_swap_hash h s = c_sha256 h (swap_preimage h s)"

definition commit_swap ::
  "env \<Rightarrow> address \<Rightarrow> 8 word list \<Rightarrow> router_state \<Rightarrow> (router_error, router_state) res" where
  "commit_swap e sender hash rs =
     require (e_auth e sender) (
     let config = get_commit_config rs; existing = get_commit rs sender; now = e_sequence e;
         is_live = (case existing of
           Some c \<Rightarrow> now \<le> u32_saturating_add (ce_ledger c) (expiry_ledgers config)
         | None \<Rightarrow> False) in
     bindR (if existing = None \<or> \<not> is_live then
              let count = get_commit_count rs in
              reject (count \<ge> max_commits config) R_TooManyCommits (
              Inr (if existing = None then set_commit_count (u32_saturating_add count 1) rs else rs))
            else Inr rs) (\<lambda>rs1.
     Inr (set_commit sender \<lparr>ce_hash = hash, ce_ledger = now\<rparr> rs1)))"

text \<open>\<open>clear_commit\<close> and the decrement of the count, which always go together.\<close>

definition free_slot :: "address \<Rightarrow> router_state \<Rightarrow> router_state" where
  "free_slot sender rs =
     (let rs1 = clear_commit sender rs; count = get_commit_count rs1 in
      set_commit_count (u32_saturating_sub count 1) rs1)"

definition prune_expired_commit :: "env \<Rightarrow> address \<Rightarrow> router_state \<Rightarrow> bool \<times> router_state" where
  "prune_expired_commit e sender rs =
     (let config = get_commit_config rs in
      case get_commit rs sender of
        Some entry \<Rightarrow>
          if e_sequence e > u32_saturating_add (ce_ledger entry) (expiry_ledgers config)
          then (True, free_slot sender rs)
          else (False, rs)
      | None \<Rightarrow> (False, rs))"

text \<open>
  The branch of an expired commit frees the slot and then returns \<open>Err\<close>; the host discards the
  changes of a call that fails, so only the error is left of it.
\<close>

definition reveal_swap ::
  "'w clients \<Rightarrow> host \<Rightarrow> env \<Rightarrow> swap_commitment \<Rightarrow> router_state \<Rightarrow> 'w \<Rightarrow>
     (router_error, int \<times> router_state \<times> 'w) res" where
  "reveal_swap cl h e s rs w =
     bindR (ok_or (get_commit rs (sc_sender s)) R_CommitNotFound) (\<lambda>entry.
     let config = get_commit_config rs; now = e_sequence e in
     reject (now \<le> ce_ledger entry) R_CommitRevealTooEarly (
     reject (now > u32_saturating_add (ce_ledger entry) (expiry_ledgers config)) R_CommitExpired (
     reject (is_nonce_used rs (sc_sender s) (sc_nonce s)) R_NonceAlreadyUsed (
     reject (compute_swap_hash h s \<noteq> ce_hash entry) R_CommitHashMismatch (
     let rs1 = set_nonce_used (sc_sender s) (sc_nonce s) (free_slot (sc_sender s) rs) in
     bindR (get_best_path cl rs1 w (sc_token_in s) (sc_token_out s) (sc_amount_in s)) (\<lambda>(path, _).
     bindR (swap_exact_tokens_multi_hop cl e path (sc_amount_in s) (sc_min_out s) (sc_sender s)
       u64_max None rs1 w) (\<lambda>(final_out, w'). Inr (final_out, rs1, w'))))))))"

end
