(* ===== verification/Detached_Modules.thy ===== *)
theory Detached_Modules
  imports Lp_Lifetime Router
begin

text \<open>
  Four modules that no crate declares: \<open>router/src/path_guard.rs\<close>, \<open>factory/src/bounded_pairs.rs\<close>,
  \<open>pair/src/snapshot_view.rs\<close> and \<open>pair/src/ttl_maintenance.rs\<close>. They are modelled as they are
  written, placeholders included, and compared with the contracts they are meant for.
\<close>

section \<open>Path guard\<close>

text \<open>\<open>RouterError::PathTooLong\<close> is an error the module names and the crate does not have.\<close>

datatype guard_error = G_InvalidPath | G_PathTooLong

definition MAX_PATH_LENGTH :: nat where "MAX_PATH_LENGTH = 3"

definition GAS_PER_HOP :: int where "GAS_PER_HOP = 12500"

definition validate_path_length :: "address list \<Rightarrow> (guard_error, unit) res" where
  "validate_path_length path =
     reject (length path < 2) G_InvalidPath (
     reject (length path - 1 > MAX_PATH_LENGTH) G_PathTooLong (Inr ()))"

definition validate_and_estimate_gas :: "address list \<Rightarrow> (guard_error, nat \<times> int) res" where
  "validate_and_estimate_gas path =
     bindR (validate_path_length path) (\<lambda>_.
     let hop_count = length path - 1;
         estimated_gas = GAS_PER_HOP * int hop_count in
     Inr (hop_count, estimated_gas))"

text \<open>
  The guard accepts exactly the paths that the swaps of the router accept, with the same number
  of hops, and its estimate is below 50000. Only the errors differ: the router panics on an empty
  path, and has one error for all other lengths.
\<close>

lemma guard_agrees_with_router:
  "validate_and_estimate_gas path = Inr (hops, gas) \<longleftrightarrow> hop_count path = Inr hops \<and> gas = 12500 * int hops"
  by (auto simp: validate_and_estimate_gas_def validate_path_length_def hop_count_def MAX_PATH_LENGTH_def
      GAS_PER_HOP_def Let_def res_inv)

lemma gas_is_bounded: "validate_and_estimate_gas path = Inr (hops, gas) \<Longrightarrow> gas < 50000"
  by (auto simp: validate_and_estimate_gas_def validate_path_length_def MAX_PATH_LENGTH_def
      GAS_PER_HOP_def Let_def res_inv)

lemma empty_path_errors:
  "validate_path_length [] = Inl (Err G_InvalidPath)" "hop_count [] = Inl Panic"
  by (simp_all add: validate_path_length_def hop_count_def reject_def require_def)

section \<open>Bounded pair list\<close>

definition MAX_ACTIVE_PAIRS :: int where "MAX_ACTIVE_PAIRS = 10000"

record pair_list_metadata =
  active_count :: int
  total_created :: int
  total_pruned :: int

text \<open>The entry \<open>PairListMeta\<close>, and its default.\<close>

definition get_pair_list_metadata :: "pair_list_metadata option \<Rightarrow> pair_list_metadata" where
  "get_pair_list_metadata st =
     (case st of Some m \<Rightarrow> m | None \<Rightarrow> \<lparr>active_count = 0, total_created = 0, total_pruned = 0\<rparr>)"

definition can_create_pair :: "pair_list_metadata option \<Rightarrow> bool" where
  "can_create_pair st \<longleftrightarrow> active_count (get_pair_list_metadata st) < MAX_ACTIVE_PAIRS"

definition increment_pair_count ::
  "pair_list_metadata option \<Rightarrow> (unit, pair_list_metadata option) res" where
  "increment_pair_count st =
     (let metadata = get_pair_list_metadata st in
      require (in_u32 (active_count metadata + 1)) (
      require (in_u64 (total_created metadata + 1)) (
      Inr (Some (metadata\<lparr>active_count := active_count metadata + 1,
                          total_created := total_created metadata + 1\<rparr>)))))"

text \<open>The last activity of a pair is a placeholder, and so is its removal.\<close>

definition get_pair_last_activity :: "address \<Rightarrow> int" where
  "get_pair_last_activity pair = 0"

definition is_pair_inactive :: "env \<Rightarrow> address \<Rightarrow> bool" where
  "is_pair_inactive e pair \<longleftrightarrow>
     (let ninety_days = 90 * 24 * 60 * 60 in get_pair_last_activity pair + ninety_days < e_timestamp e)"

fun count_inactive :: "env \<Rightarrow> address list \<Rightarrow> int \<Rightarrow> (unit, int) res" where
  "count_inactive e [] pruned = Inr pruned"
| "count_inactive e (pair_addr # rest) pruned =
     (if is_pair_inactive e pair_addr
      then require (in_u32 (pruned + 1)) (count_inactive e rest (pruned + 1))
      else count_inactive e rest pruned)"

definition prune_inactive_pairs ::
  "env \<Rightarrow> address list \<Rightarrow> pair_list_metadata option \<Rightarrow> (unit, int \<times> pair_list_metadata option) res" where
  "prune_inactive_pairs e pair_addresses st =
     bindR (count_inactive e pair_addresses 0) (\<lambda>pruned.
     let metadata = get_pair_list_metadata st in
     require (in_u64 (total_pruned metadata + pruned)) (
     Inr (pruned, Some (metadata\<lparr>active_count := u32_saturating_sub (active_count metadata) pruned,
                                 total_pruned := total_pruned metadata + pruned\<rparr>))))"

lemma count_inactive_all:
  assumes "7776000 < e_timestamp e" "0 \<le> p"
  shows "count_inactive e ps p = Inr y \<Longrightarrow> y = p + int (length ps)"
  using assms(2)
proof (induction ps arbitrary: p)
  case (Cons x ps)
  then have "count_inactive e ps (p + 1) = Inr y"
    using assms(1) by (simp add: is_pair_inactive_def get_pair_last_activity_def res_inv)
  then show ?case
    using Cons.IH [of "p + 1"] Cons.prems(2) by simp
qed simp

text \<open>
  From the ninetieth day of the Unix epoch on, pruning counts every address it is given, whether
  it is a live pool, no pool at all, or a repetition. So \<open>active_count\<close> can be brought to zero
  with any list that is long enough, and the cap on pairs is void.
\<close>

lemma prune_counts_any_address:
  assumes "prune_inactive_pairs e ps st = Inr (pruned, st')" "7776000 < e_timestamp e"
  shows "pruned = int (length ps)"
    "active_count (get_pair_list_metadata st) \<le> int (length ps) \<Longrightarrow> can_create_pair st'"
  using assms count_inactive_all [OF assms(2) order_refl]
  by (auto simp: prune_inactive_pairs_def res_inv Let_def can_create_pair_def get_pair_list_metadata_def
      u32_saturating_sub_def MAX_ACTIVE_PAIRS_def)

section \<open>Snapshot view\<close>

text \<open>The module reads persistent entries under string keys.\<close>

type_synonym string_store = "string \<rightharpoonup> int"

record pair_snapshot =
  sn_reserve0 :: int
  sn_reserve1 :: int
  sn_block_timestamp_last :: int
  sn_price0_cumulative :: int
  sn_price1_cumulative :: int
  sn_k_last :: int

definition get_or_zero :: "string_store \<Rightarrow> string \<Rightarrow> int" where
  "get_or_zero st key = (case st key of Some v \<Rightarrow> v | None \<Rightarrow> 0)"

definition get_reserves_with_timestamp :: "string_store \<Rightarrow> int \<times> int \<times> int" where
  "get_reserves_with_timestamp st =
     (get_or_zero st ''Reserve0'', get_or_zero st ''Reserve1'', get_or_zero st ''BlockTimestampLast'')"

definition get_cumulative_prices :: "string_store \<Rightarrow> int \<times> int" where
  "get_cumulative_prices st = (get_or_zero st ''Price0Cumulative'', get_or_zero st ''Price1Cumulative'')"

definition get_snapshot :: "string_store \<Rightarrow> pair_snapshot" where
  "get_snapshot st =
     (let (reserve0, reserve1, block_timestamp_last) = get_reserves_with_timestamp st;
          (price0_cumulative, price1_cumulative) = get_cumulative_prices st;
          k_last = (case i128_checked_mul reserve0 reserve1 of Some k \<Rightarrow> k | None \<Rightarrow> 0) in
      \<lparr>sn_reserve0 = reserve0, sn_reserve1 = reserve1, sn_block_timestamp_last = block_timestamp_last,
       sn_price0_cumulative = price0_cumulative, sn_price1_cumulative = price1_cumulative, sn_k_last = k_last\<rparr>)"

definition snapshot_get_reserves :: "string_store \<Rightarrow> int \<times> int" where
  "snapshot_get_reserves st = (let (reserve0, reserve1, _) = get_reserves_with_timestamp st in (reserve0, reserve1))"

text \<open>
  The two views agree, and the product is exact unless it overflows, when it is reported as 0. A
  pair keeps none of these entries (its keys are those of \<open>DataKey\<close>), so on a pair every field is 0.
\<close>

lemma snapshot_consistent:
  "snapshot_get_reserves st = (sn_reserve0 (get_snapshot st), sn_reserve1 (get_snapshot st))"
  "sn_k_last (get_snapshot st) =
     (let k = sn_reserve0 (get_snapshot st) * sn_reserve1 (get_snapshot st) in if in_i128 k then k else 0)"
  by (simp_all add: snapshot_get_reserves_def get_snapshot_def get_reserves_with_timestamp_def
      get_cumulative_prices_def i128_checked_mul_def Let_def)

lemma snapshot_without_entries:
  "get_snapshot Map.empty = \<lparr>sn_reserve0 = 0, sn_reserve1 = 0, sn_block_timestamp_last = 0,
     sn_price0_cumulative = 0, sn_price1_cumulative = 0, sn_k_last = 0\<rparr>"
  by (simp add: get_snapshot_def get_reserves_with_timestamp_def get_cumulative_prices_def get_or_zero_def
      i128_checked_mul_def in_i128_nonneg i128_max_def)

section \<open>TTL maintenance\<close>

definition TTL_EXTENSION_LEDGERS :: int where "TTL_EXTENSION_LEDGERS = 518400"

definition WARNING_THRESHOLD_LEDGERS :: int where "WARNING_THRESHOLD_LEDGERS = 120960"

definition STATE_KEYS :: "string list" where
  "STATE_KEYS = [''FeeState'', ''OracleState'', ''GuardState'', ''Reserve0'', ''Reserve1'',
     ''BlockTimestampLast'', ''Price0Cumulative'', ''Price1Cumulative'']"

text \<open>The last ledger each persistent entry is alive in.\<close>

definition extend_key_ttl :: "ledger_rules \<Rightarrow> int \<Rightarrow> string \<Rightarrow> string_store \<Rightarrow> string_store" where
  "extend_key_ttl R now key live =
     (case live key of
        None \<Rightarrow> live
      | Some l \<Rightarrow> live(key \<mapsto> lr_extend R now TTL_EXTENSION_LEDGERS TTL_EXTENSION_LEDGERS l))"

definition extend_state_ttl :: "ledger_rules \<Rightarrow> int \<Rightarrow> string_store \<Rightarrow> string_store" where
  "extend_state_ttl R now live = fold (extend_key_ttl R now) STATE_KEYS live"

definition extend_ttl_on_view :: "ledger_rules \<Rightarrow> int \<Rightarrow> string_store \<Rightarrow> string_store" where
  "extend_ttl_on_view R now live = extend_state_ttl R now live"

definition extend_ttl_on_write :: "ledger_rules \<Rightarrow> int \<Rightarrow> string_store \<Rightarrow> string_store" where
  "extend_ttl_on_write R now live = extend_state_ttl R now live"

definition extend_ttl_on_governance :: "ledger_rules \<Rightarrow> int \<Rightarrow> string_store \<Rightarrow> string_store" where
  "extend_ttl_on_governance R now live = extend_state_ttl R now live"

definition is_state_approaching_expiration :: "int \<Rightarrow> string_store \<Rightarrow> bool" where
  "is_state_approaching_expiration now live \<longleftrightarrow>
     (\<exists>key \<in> set STATE_KEYS. case live key of None \<Rightarrow> False | Some l \<Rightarrow> l - now < WARNING_THRESHOLD_LEDGERS)"

text \<open>After an extension no entry is close to its expiration.\<close>

lemma extend_keys_eq:
  "distinct keys \<Longrightarrow> fold (extend_key_ttl R now) keys live k =
     (if k \<in> set keys then map_option (lr_extend R now TTL_EXTENSION_LEDGERS TTL_EXTENSION_LEDGERS) (live k) else live k)"
  by (induction keys arbitrary: live) (auto simp: extend_key_ttl_def split: option.split)

lemma extended_state_is_not_expiring:
  assumes "documented_ttl R" "TTL_EXTENSION_LEDGERS \<le> lr_max_ttl R"
  shows "\<not> is_state_approaching_expiration now (extend_state_ttl R now live)"
proof -
  have "WARNING_THRESHOLD_LEDGERS \<le> lr_extend R now TTL_EXTENSION_LEDGERS TTL_EXTENSION_LEDGERS x - now" for x
    using extend_bound [OF assms(1) order_refl order_refl assms(2), of now x]
    by (simp add: WARNING_THRESHOLD_LEDGERS_def TTL_EXTENSION_LEDGERS_def)
  moreover have "distinct STATE_KEYS"
    by (simp add: STATE_KEYS_def)
  ultimately show ?thesis
    by (auto simp: is_state_approaching_expiration_def extend_state_ttl_def extend_keys_eq not_less split: option.splits)
qed

text \<open>And on a pair, which keeps no entry under these keys, the extension does nothing.\<close>

lemma extension_without_entries: "extend_state_ttl R now Map.empty = Map.empty"
  by (simp add: extend_state_ttl_def STATE_KEYS_def extend_key_ttl_def)

end
