(* ===== verification/Factory.thy ===== *)
theory Factory
  imports Factory_State
begin

text \<open>
  The factory contract: \<open>factory/src/lib.rs\<close> with \<open>governance.rs\<close> and \<open>upgrade.rs\<close>. Every entry
  point is a definition; a call that fails is a value \<open>Inl\<close>, and the host keeps nothing of it.
\<close>

section \<open>Governance\<close>

definition quorum_threshold :: "int \<Rightarrow> int" where
  "quorum_threshold signer_count = signer_count div 2 + 1"

text \<open>The loop over the presented signers; \<open>earlier\<close> are those already seen.\<close>

fun check_signers :: "address list \<Rightarrow> address list \<Rightarrow> address list \<Rightarrow> (factory_error, unit) res" where
  "check_signers registered earlier [] = Inr ()"
| "check_signers registered earlier (signer # rest) =
     reject (signer \<notin> set registered) F_Unauthorized (
     reject (signer \<in> set earlier) F_DuplicateSigner (
     check_signers registered (earlier @ [signer]) rest))"

definition verify_multisig ::
  "env \<Rightarrow> address list \<Rightarrow> address list \<Rightarrow> (factory_error, unit) res" where
  "verify_multisig e registered signers =
     (let required = quorum_threshold (int (length registered)) in
      reject (registered = []) F_InvalidSignerCount (
      bindR (check_signers registered [] signers) (\<lambda>_.
      reject (int (length signers) < required) F_InsufficientSignatures (
      require (\<forall>s \<in> set signers. e_auth e s) (Inr ())))))"

section \<open>Initialisation and pair creation\<close>

definition factory_initialize ::
  "address list \<Rightarrow> bytes \<Rightarrow> bytes \<Rightarrow> bytes \<Rightarrow> address \<Rightarrow> 'tok system \<Rightarrow>
     (factory_error, 'tok system) res" where
  "factory_initialize signers pair_hash concentrated_hash lp_hash fee_to_setter sy =
     reject (fc_storage (sy_factory sy) \<noteq> None) F_AlreadyInitialized (
     reject (\<not> (1 \<le> length signers \<and> length signers \<le> 10)) F_InvalidSignerCount (
     Inr (set_factory_storage \<lparr>fs_signers = signers, fs_pair_wasm_hash = pair_hash,
       fs_concentrated_pair_wasm_hash = concentrated_hash, fs_lp_token_wasm_hash = lp_hash,
       fs_pair_count = 0, fs_protocol_version = PROTOCOL_VERSION, fs_paused = False,
       fs_fee_to = None, fs_fee_to_setter = fee_to_setter, fs_fee_bps = 0\<rparr> sy)))"

definition pair_salt :: "host \<Rightarrow> address \<Rightarrow> address \<Rightarrow> bytes" where
  "pair_salt h token_0 token_1 = c_sha256 h (c_to_xdr h token_0 @ c_to_xdr h token_1)"

definition lp_salt :: "host \<Rightarrow> address \<Rightarrow> bytes" where
  "lp_salt h pair_address = c_sha256 h (c_to_xdr h pair_address)"

text \<open>\<open>deploy_v2\<close> traps when the derived address already holds a contract.\<close>

definition address_free :: "env \<Rightarrow> address \<Rightarrow> 'tok system \<Rightarrow> bool" where
  "address_free e a sy \<longleftrightarrow> a \<noteq> e_self e \<and> sy_pairs sy a = None \<and> sy_lps sy a = None"

definition register_pair ::
  "address \<Rightarrow> address \<Rightarrow> address \<Rightarrow> address \<Rightarrow> factory_storage \<Rightarrow> factory_state \<Rightarrow> factory_state" where
  "register_pair token_0 token_1 pair_address lp_token_address fs c =
     (let list = fc_pair_list c @ [pair_address] in
      c\<lparr>fc_pair := (fc_pair c)((token_0, token_1) \<mapsto> pair_address, (token_1, token_0) \<mapsto> pair_address),
        fc_is_pair := set_flag pair_address True (fc_is_pair c),
        fc_is_lp_token := set_flag lp_token_address True (fc_is_lp_token c),
        fc_storage := Some (fs\<lparr>fs_pair_count := fs_pair_count fs + 1\<rparr>),
        fc_pair_list := list,
        fc_total_pairs := Some (int (length list))\<rparr>)"

definition factory_create_pair ::
  "host \<Rightarrow> env \<Rightarrow> address \<Rightarrow> address \<Rightarrow> 'tok system \<Rightarrow> (factory_error, address \<times> 'tok system) res" where
  "factory_create_pair h e token_a token_b sy =
     reject (token_a = token_b) F_IdenticalTokens (
     let (token_0, token_1) = (if token_a < token_b then (token_a, token_b) else (token_b, token_a)) in
     reject (fc_pair (sy_factory sy) (token_0, token_1) \<noteq> None) F_PairExists (
     bindR (get_factory_storage sy) (\<lambda>fs.
     reject (fs_paused fs) F_ProtocolPaused (
     let pair_address = h_contract_address h (e_self e) (pair_salt h token_0 token_1) in
     require (address_free e pair_address sy) (
     let lp_token_address = h_contract_address h (e_self e) (lp_salt h pair_address) in
     require (address_free e lp_token_address sy \<and> lp_token_address \<noteq> pair_address) (
     let (name, symbol) = derive_lp_metadata (c_to_xdr h) (c_sha256 h) token_0 token_1 in
     case lp_initialize pair_address LP_DECIMALS name symbol lp_empty of
       Inl _ \<Rightarrow> Inl (Err F_NotInitialized)
     | Inr lp \<Rightarrow>
       let view = (if h_reentry h then view_of (sy_factory sy) else refused_view);
           fresh = \<lparr>w_pair = pair_deployed, w_lp = lp, w_tok = sy_tok sy, w_events = []\<rparr> in
       (case pair_initialize view (nested_env e pair_address) (e_self e) token_0 token_1
               lp_token_address fresh of
          Inl _ \<Rightarrow> Inl (Err F_NotInitialized)
        | Inr w \<Rightarrow>
          require (in_u32 (fs_pair_count fs + 1)) (
          Inr (pair_address,
            sy_emit (FE_created token_0 token_1 pair_address (fs_pair_count fs))
              (set_factory (register_pair token_0 token_1 pair_address lp_token_address fs)
                (put_world pair_address w sy)))))))))))"

definition factory_get_pair :: "'tok system \<Rightarrow> address \<Rightarrow> address \<Rightarrow> address option" where
  "factory_get_pair sy token_a token_b = fc_pair (sy_factory sy) (token_a, token_b)"

definition factory_get_pair_address ::
  "host \<Rightarrow> env \<Rightarrow> address \<Rightarrow> address \<Rightarrow> (factory_error, address) res" where
  "factory_get_pair_address h e token_a token_b =
     reject (token_a = token_b) F_IdenticalTokens (
     let (token_0, token_1) = (if token_a < token_b then (token_a, token_b) else (token_b, token_a)) in
     Inr (h_contract_address h (e_self e) (pair_salt h token_0 token_1)))"

section \<open>Views\<close>

definition factory_protocol_version :: "'tok system \<Rightarrow> (factory_error, int) res" where
  "factory_protocol_version sy = bindR (get_factory_storage sy) (\<lambda>fs. Inr (fs_protocol_version fs))"

definition factory_get_all_pairs ::
  "int \<Rightarrow> int \<Rightarrow> 'tok system \<Rightarrow> (factory_error, address list) res" where
  "factory_get_all_pairs offset limit sy =
     reject (limit > 50) F_LimitTooHigh (
     let pair_list = fc_pair_list (sy_factory sy); total = int (length pair_list); start = offset in
     require (in_u32 (offset + limit)) (
     let end' = min (offset + limit) total in
     Inr (if start < total then map (\<lambda>i. pair_list ! i) [nat start..<nat end'] else [])))"

definition factory_get_pair_count :: "'tok system \<Rightarrow> int" where
  "factory_get_pair_count sy =
     (case fc_storage (sy_factory sy) of None \<Rightarrow> 0 | Some fs \<Rightarrow> fs_pair_count fs)"

definition factory_total_pairs :: "'tok system \<Rightarrow> int" where
  "factory_total_pairs sy = get_total_pairs (sy_factory sy)"

definition factory_is_paused :: "'tok system \<Rightarrow> bool" where
  "factory_is_paused sy =
     (case fc_storage (sy_factory sy) of None \<Rightarrow> False | Some fs \<Rightarrow> fs_paused fs)"

definition factory_get_pair_fee_override :: "'tok system \<Rightarrow> address \<Rightarrow> int option" where
  "factory_get_pair_fee_override sy pair = fc_fee_override (sy_factory sy) pair"

definition factory_fee_bps :: "'tok system \<Rightarrow> int" where
  "factory_fee_bps sy = fee_bps_of (sy_factory sy)"

definition factory_fee_to :: "'tok system \<Rightarrow> address option" where
  "factory_fee_to sy = fee_to_of (sy_factory sy)"

definition factory_fee_to_setter :: "'tok system \<Rightarrow> address option" where
  "factory_fee_to_setter sy = map_option fs_fee_to_setter (fc_storage (sy_factory sy))"

definition factory_get_pair_wasm_hash :: "'tok system \<Rightarrow> (factory_error, bytes) res" where
  "factory_get_pair_wasm_hash sy = bindR (get_factory_storage sy) (\<lambda>fs. Inr (fs_pair_wasm_hash fs))"

definition factory_get_concentrated_pair_wasm_hash :: "'tok system \<Rightarrow> (factory_error, bytes) res" where
  "factory_get_concentrated_pair_wasm_hash sy =
     bindR (get_factory_storage sy) (\<lambda>fs. Inr (fs_concentrated_pair_wasm_hash fs))"

definition factory_get_lp_token_wasm_hash :: "'tok system \<Rightarrow> (factory_error, bytes) res" where
  "factory_get_lp_token_wasm_hash sy =
     bindR (get_factory_storage sy) (\<lambda>fs. Inr (fs_lp_token_wasm_hash fs))"

section \<open>Pausing and freezing\<close>

definition factory_pause :: "env \<Rightarrow> address list \<Rightarrow> 'tok system \<Rightarrow> (factory_error, 'tok system) res" where
  "factory_pause e signers sy =
     bindR (get_factory_storage sy) (\<lambda>fs.
     bindR (verify_multisig e (fs_signers fs) signers) (\<lambda>_.
     Inr (sy_emit FE_paused (set_factory_storage (fs\<lparr>fs_paused := True\<rparr>) sy))))"

definition factory_unpause :: "env \<Rightarrow> address list \<Rightarrow> 'tok system \<Rightarrow> (factory_error, 'tok system) res" where
  "factory_unpause e signers sy =
     bindR (get_factory_storage sy) (\<lambda>fs.
     bindR (verify_multisig e (fs_signers fs) signers) (\<lambda>_.
     Inr (sy_emit FE_resumed (sy_emit FE_unpaused
       (set_factory_storage (fs\<lparr>fs_paused := False\<rparr>) sy)))))"

definition factory_resume :: "env \<Rightarrow> address list \<Rightarrow> 'tok system \<Rightarrow> (factory_error, 'tok system) res" where
  "factory_resume = factory_unpause"

definition factory_sync :: "'tok system \<Rightarrow> (factory_error, 'tok system) res" where
  "factory_sync sy =
     bindR (get_factory_storage sy) (\<lambda>fs.
     Inr (sy_emit (FE_sync (fs_paused fs) (get_total_pairs (sy_factory sy))) sy))"

definition set_pair_frozen_state ::
  "env \<Rightarrow> address \<Rightarrow> bool \<Rightarrow> 'tok system \<Rightarrow> (factory_error, 'tok system) res" where
  "set_pair_frozen_state e pair frozen sy =
     reject (\<not> factory_is_pair (sy_factory sy) pair) F_PairNotFound (
     case on_pair pair (pair_set_frozen (nested_env e pair) frozen) sy of
       Inl _ \<Rightarrow> Inl (Err F_PairFreezeFailed)
     | Inr (_, sy') \<Rightarrow>
         Inr (set_factory (\<lambda>c. c\<lparr>fc_pair_frozen := set_flag pair frozen (fc_pair_frozen c)\<rparr>) sy'))"

definition first_signer :: "address list \<Rightarrow> (factory_error, address) res" where
  "first_signer signers = ok_or (case signers of [] \<Rightarrow> None | s # _ \<Rightarrow> Some s) F_Unauthorized"

definition factory_freeze_pair ::
  "env \<Rightarrow> address list \<Rightarrow> address \<Rightarrow> 'tok system \<Rightarrow> (factory_error, 'tok system) res" where
  "factory_freeze_pair e signers pair sy =
     bindR (get_factory_storage sy) (\<lambda>fs.
     bindR (if signers = [fs_fee_to_setter fs]
            then require (e_auth e (fs_fee_to_setter fs)) (Inr (fs_fee_to_setter fs))
            else bindR (verify_multisig e (fs_signers fs) signers) (\<lambda>_. first_signer signers)) (\<lambda>by.
     bindR (set_pair_frozen_state e pair True sy) (\<lambda>sy'.
     Inr (sy_emit (FE_pair_frozen pair by (e_sequence e)) sy'))))"

definition factory_unfreeze_pair ::
  "env \<Rightarrow> address list \<Rightarrow> address \<Rightarrow> 'tok system \<Rightarrow> (factory_error, 'tok system) res" where
  "factory_unfreeze_pair e signers pair sy =
     bindR (get_factory_storage sy) (\<lambda>fs.
     bindR (verify_multisig e (fs_signers fs) signers) (\<lambda>_.
     bindR (first_signer signers) (\<lambda>by.
     bindR (set_pair_frozen_state e pair False sy) (\<lambda>sy'.
     Inr (sy_emit (FE_pair_unfrozen pair by (e_sequence e)) sy')))))"

section \<open>Fees\<close>

definition MAX_PROTOCOL_FEE_BPS :: int where "MAX_PROTOCOL_FEE_BPS = 30"

definition MAX_PAIR_FEE_BPS :: int where "MAX_PAIR_FEE_BPS = 100"

definition factory_set_fee_config ::
  "env \<Rightarrow> address \<Rightarrow> address option \<Rightarrow> int \<Rightarrow> 'tok system \<Rightarrow> (factory_error, 'tok system) res" where
  "factory_set_fee_config e setter fee_to fee_bps sy =
     bindR (get_factory_storage sy) (\<lambda>fs.
     require (e_auth e setter) (
     reject (setter \<noteq> fs_fee_to_setter fs) F_Unauthorized (
     reject (fee_bps > MAX_PROTOCOL_FEE_BPS) F_FeeTooHigh (
     reject (fee_to = None \<and> fee_bps > 0) F_InvalidFeeRecipient (
     reject (fee_to \<noteq> None \<and> fee_bps = 0) F_FeeDisabled (
     Inr (sy_emit (FE_fee_upd (fs_fee_bps fs) fee_bps fee_to) (sy_emit (FE_fee_to fee_to)
       (set_factory_storage (fs\<lparr>fs_fee_to := fee_to, fs_fee_bps := fee_bps\<rparr>) sy)))))))))"

definition factory_set_fee_to ::
  "env \<Rightarrow> address \<Rightarrow> address option \<Rightarrow> int \<Rightarrow> 'tok system \<Rightarrow> (factory_error, 'tok system) res" where
  "factory_set_fee_to = factory_set_fee_config"

definition factory_set_fee_to_setter ::
  "env \<Rightarrow> address \<Rightarrow> address \<Rightarrow> 'tok system \<Rightarrow> (factory_error, 'tok system) res" where
  "factory_set_fee_to_setter e setter new_setter sy =
     bindR (get_factory_storage sy) (\<lambda>fs.
     require (e_auth e setter) (
     reject (setter \<noteq> fs_fee_to_setter fs) F_Unauthorized (
     Inr (sy_emit (FE_setter new_setter)
       (set_factory_storage (fs\<lparr>fs_fee_to_setter := new_setter\<rparr>) sy)))))"

definition factory_set_pair_fee ::
  "env \<Rightarrow> address \<Rightarrow> address \<Rightarrow> int \<Rightarrow> 'tok system \<Rightarrow> (factory_error, 'tok system) res" where
  "factory_set_pair_fee e setter pair fee_bps sy =
     bindR (get_factory_storage sy) (\<lambda>fs.
     require (e_auth e setter) (
     reject (setter \<noteq> fs_fee_to_setter fs) F_Unauthorized (
     reject (fee_bps > MAX_PAIR_FEE_BPS) F_FeeTooHigh (
     let old_fee_bps = (case fc_fee_override (sy_factory sy) pair of None \<Rightarrow> 0 | Some x \<Rightarrow> x) in
     Inr (sy_emit (FE_pair_fee pair old_fee_bps fee_bps (e_sequence e))
       (set_factory (\<lambda>c. c\<lparr>fc_fee_override :=
          (fc_fee_override c)(pair := if fee_bps = 0 then None else Some fee_bps)\<rparr>) sy))))))"

text \<open>The relays: a call of a pair that must succeed, to an address the setter chooses.\<close>

definition relay ::
  "host \<Rightarrow> address \<Rightarrow> ('tok world \<Rightarrow> (pair_error, unit \<times> 'tok world) res) \<Rightarrow> 'tok system \<Rightarrow>
     (factory_error, 'tok system) res" where
  "relay h pair f sy =
     (if sy_pairs sy pair = None then require (h_foreign h pair) (Inr sy)
      else bindR (call (on_pair pair f sy)) (\<lambda>(_, sy'). Inr sy'))"

definition factory_set_pair_lp_token_paused ::
  "host \<Rightarrow> env \<Rightarrow> address \<Rightarrow> address \<Rightarrow> bool \<Rightarrow> 'tok system \<Rightarrow> (factory_error, 'tok system) res" where
  "factory_set_pair_lp_token_paused h e setter pair paused sy =
     bindR (get_factory_storage sy) (\<lambda>fs.
     require (e_auth e setter) (
     reject (setter \<noteq> fs_fee_to_setter fs) F_Unauthorized (
     relay h pair (pair_set_lp_token_paused (nested_env e pair) paused) sy)))"

definition factory_set_pair_stale_threshold ::
  "host \<Rightarrow> env \<Rightarrow> address \<Rightarrow> address \<Rightarrow> int \<Rightarrow> 'tok system \<Rightarrow> (factory_error, 'tok system) res" where
  "factory_set_pair_stale_threshold h e setter pair threshold sy =
     bindR (get_factory_storage sy) (\<lambda>fs.
     require (e_auth e setter) (
     reject (setter \<noteq> fs_fee_to_setter fs) F_Unauthorized (
     relay h pair (pair_set_stale_threshold (nested_env e pair) threshold) sy)))"

definition fee_balance_key :: "host \<Rightarrow> address \<Rightarrow> bytes" where
  "fee_balance_key h token = h_symbol_xdr h ''protocol_fee_balance'' @ c_to_xdr h token"

definition factory_get_protocol_fee_balance :: "host \<Rightarrow> 'tok system \<Rightarrow> address \<Rightarrow> int" where
  "factory_get_protocol_fee_balance h sy token =
     (case fc_fee_balance (sy_factory sy) (fee_balance_key h token) of None \<Rightarrow> 0 | Some x \<Rightarrow> x)"

definition factory_deposit_protocol_fee ::
  "host \<Rightarrow> env \<Rightarrow> address \<Rightarrow> address \<Rightarrow> int \<Rightarrow> 'tok system \<Rightarrow> (factory_error, 'tok system) res" where
  "factory_deposit_protocol_fee h e pair token amount sy =
     require (e_auth e pair) (
     bindR (get_factory_storage sy) (\<lambda>fs.
     reject (fs_fee_to fs = None \<or> fs_fee_bps fs = 0) F_InvalidFeeRecipient (
     reject (\<not> factory_is_pair (sy_factory sy) pair) F_Unauthorized (
     reject (amount \<le> 0) F_Unauthorized (
     bindR (arith (factory_get_protocol_fee_balance h sy token + amount)) (\<lambda>balance.
     Inr (sy_emit (FE_protocol_fee_collected token amount)
       (set_factory (\<lambda>c. c\<lparr>fc_fee_balance :=
          (fc_fee_balance c)(fee_balance_key h token \<mapsto> balance)\<rparr>) sy))))))))"

section \<open>Upgrades\<close>

definition UPGRADE_DELAY_LEDGERS :: int where "UPGRADE_DELAY_LEDGERS = 51840"

definition upgrade_propose :: "env \<Rightarrow> bytes \<Rightarrow> 'tok system \<Rightarrow> (factory_error, 'tok system) res" where
  "upgrade_propose e new_wasm_hash sy =
     reject (fc_pending_upgrade (sy_factory sy) \<noteq> None) F_UpgradeAlreadyPending (
     Inr (sy_emit (FE_prop_upg new_wasm_hash)
       (set_factory (\<lambda>c. c\<lparr>fc_pending_upgrade := Some
          \<lparr>pu_new_wasm_hash = new_wasm_hash, pu_proposed_at_ledger = e_sequence e\<rparr>\<rparr>) sy)))"

definition upgrade_execute :: "env \<Rightarrow> 'tok system \<Rightarrow> (factory_error, 'tok system) res" where
  "upgrade_execute e sy =
     bindR (ok_or (fc_pending_upgrade (sy_factory sy)) F_NoPendingUpgrade) (\<lambda>proposal.
     let elapsed = u32_saturating_sub (e_sequence e) (pu_proposed_at_ledger proposal) in
     reject (elapsed < UPGRADE_DELAY_LEDGERS) F_UpgradeTimelockNotExpired (
     let sy1 = set_factory (\<lambda>c. c\<lparr>fc_pending_upgrade := None\<rparr>)
                 (sy\<lparr>sy_code := pu_new_wasm_hash proposal\<rparr>) in
     case fc_storage (sy_factory sy1) of
       None \<Rightarrow> Inr sy1
     | Some fs \<Rightarrow>
         require (in_u32 (fs_protocol_version fs + 1)) (
         Inr (sy_emit (FE_upgraded (fs_protocol_version fs + 1))
           (set_factory_storage (fs\<lparr>fs_protocol_version := fs_protocol_version fs + 1\<rparr>) sy1)))))"

definition upgrade_cancel :: "'tok system \<Rightarrow> (factory_error, 'tok system) res" where
  "upgrade_cancel sy =
     reject (fc_pending_upgrade (sy_factory sy) = None) F_NoPendingUpgrade (
     Inr (set_factory (\<lambda>c. c\<lparr>fc_pending_upgrade := None\<rparr>) sy))"

definition factory_propose_upgrade ::
  "env \<Rightarrow> address list \<Rightarrow> bytes \<Rightarrow> 'tok system \<Rightarrow> (factory_error, 'tok system) res" where
  "factory_propose_upgrade e signers new_wasm_hash sy =
     bindR (get_factory_storage sy) (\<lambda>fs.
     bindR (verify_multisig e (fs_signers fs) signers) (\<lambda>_.
     upgrade_propose e new_wasm_hash sy))"

definition factory_execute_upgrade :: "env \<Rightarrow> 'tok system \<Rightarrow> (factory_error, 'tok system) res" where
  "factory_execute_upgrade e sy = upgrade_execute e sy"

definition factory_cancel_upgrade ::
  "env \<Rightarrow> address list \<Rightarrow> 'tok system \<Rightarrow> (factory_error, 'tok system) res" where
  "factory_cancel_upgrade e signers sy =
     bindR (get_factory_storage sy) (\<lambda>fs.
     bindR (verify_multisig e (fs_signers fs) signers) (\<lambda>_.
     upgrade_cancel sy))"

end
