(* ===== verification/Factory_Inv.thy ===== *)
theory Factory_Inv
  imports Factory Pair_Frame
begin

text \<open>
  The deployment as a state machine: calls of the factory, calls of its pairs by anybody but
  the factory, calls of the LP tokens by anybody but their pairs, and whatever the pool tokens
  do. Two invariants hold in every reachable state: the registry agrees with the deployed
  contracts (\<open>registry_ok\<close>), and the configuration is one that governance can express
  (\<open>config_ok\<close>).
\<close>

section \<open>The state machine\<close>

datatype factory_call =
  FC_initialize "address list" bytes bytes bytes address
| FC_create_pair address address
| FC_pause "address list"
| FC_unpause "address list"
| FC_sync
| FC_freeze_pair "address list" address
| FC_unfreeze_pair "address list" address
| FC_set_fee_config address "address option" int
| FC_set_fee_to_setter address address
| FC_set_pair_fee address address int
| FC_set_pair_lp_token_paused address address bool
| FC_set_pair_stale_threshold address address int
| FC_deposit_protocol_fee address address int
| FC_propose_upgrade "address list" bytes
| FC_execute_upgrade
| FC_cancel_upgrade "address list"

fun factory_step ::
  "host \<Rightarrow> env \<Rightarrow> factory_call \<Rightarrow> 'tok system \<Rightarrow> (factory_error, 'tok system) res" where
  "factory_step h e (FC_initialize s a b c f) sy = factory_initialize s a b c f sy"
| "factory_step h e (FC_create_pair a b) sy =
     bindR (factory_create_pair h e a b sy) (\<lambda>(_, sy'). Inr sy')"
| "factory_step h e (FC_pause s) sy = factory_pause e s sy"
| "factory_step h e (FC_unpause s) sy = factory_unpause e s sy"
| "factory_step h e FC_sync sy = factory_sync sy"
| "factory_step h e (FC_freeze_pair s p) sy = factory_freeze_pair e s p sy"
| "factory_step h e (FC_unfreeze_pair s p) sy = factory_unfreeze_pair e s p sy"
| "factory_step h e (FC_set_fee_config s t x) sy = factory_set_fee_config e s t x sy"
| "factory_step h e (FC_set_fee_to_setter s n) sy = factory_set_fee_to_setter e s n sy"
| "factory_step h e (FC_set_pair_fee s p x) sy = factory_set_pair_fee e s p x sy"
| "factory_step h e (FC_set_pair_lp_token_paused s p b) sy =
     factory_set_pair_lp_token_paused h e s p b sy"
| "factory_step h e (FC_set_pair_stale_threshold s p n) sy =
     factory_set_pair_stale_threshold h e s p n sy"
| "factory_step h e (FC_deposit_protocol_fee p t x) sy = factory_deposit_protocol_fee h e p t x sy"
| "factory_step h e (FC_propose_upgrade s w) sy = factory_propose_upgrade e s w sy"
| "factory_step h e FC_execute_upgrade sy = factory_execute_upgrade e sy"
| "factory_step h e (FC_cancel_upgrade s) sy = factory_cancel_upgrade e s sy"

text \<open>The types of the fee arguments, \<open>u32\<close>.\<close>

fun factory_call_typed :: "factory_call \<Rightarrow> bool" where
  "factory_call_typed (FC_set_fee_config s t x) = in_u32 x"
| "factory_call_typed (FC_set_pair_fee s p x) = in_u32 x"
| "factory_call_typed _ = True"

text \<open>A pair's call, with the answers its factory gives.\<close>

definition pool_call ::
  "'tok token_ops \<Rightarrow> 'tok receiver \<Rightarrow> env \<Rightarrow> pair_call \<Rightarrow> 'tok system \<Rightarrow>
     (pair_error, unit \<times> 'tok system) res" where
  "pool_call T recv e op sy =
     on_pair (e_self e) (\<lambda>w. bindR (pair_step T (view_of (sy_factory sy)) recv e op w)
       (\<lambda>w'. Inr ((), w'))) sy"

inductive system_reachable :: "host \<Rightarrow> 'tok token_ops \<Rightarrow> address \<Rightarrow> 'tok system \<Rightarrow> bool"
  for h T self where
  sys_start: "sy_factory sy = factory_empty \<Longrightarrow> sy_pairs sy = Map.empty \<Longrightarrow> sy_lps sy = Map.empty \<Longrightarrow>
     system_reachable h T self sy"
| sys_factory: "system_reachable h T self sy \<Longrightarrow> e_self e = self \<Longrightarrow> factory_call_typed op \<Longrightarrow>
     factory_step h e op sy = Inr sy' \<Longrightarrow> system_reachable h T self sy'"
| sys_pool: "system_reachable h T self sy \<Longrightarrow> \<not> e_auth e self \<Longrightarrow> receiver_keeps recv \<Longrightarrow>
     pool_call T recv e op sy = Inr (u, sy') \<Longrightarrow> system_reachable h T self sy'"
| sys_lp: "system_reachable h T self sy \<Longrightarrow> sy_lps sy t = Some l \<Longrightarrow>
     (\<forall>a. lp_admin l = Some a \<longrightarrow> \<not> e_auth e a) \<Longrightarrow> lp_step c e lop l = Inr l' \<Longrightarrow>
     system_reachable h T self (sy\<lparr>sy_lps := (sy_lps sy)(t \<mapsto> l')\<rparr>)"
| sys_tok: "system_reachable h T self sy \<Longrightarrow> system_reachable h T self (sy\<lparr>sy_tok := tok\<rparr>)"

section \<open>The invariants\<close>

definition config_ok :: "factory_state \<Rightarrow> bool" where
  "config_ok c \<longleftrightarrow>
     (\<forall>fs. fc_storage c = Some fs \<longrightarrow>
        1 \<le> length (fs_signers fs) \<and> length (fs_signers fs) \<le> 10 \<and>
        0 \<le> fs_fee_bps fs \<and> fs_fee_bps fs \<le> 30 \<and> (fs_fee_to fs = None \<longleftrightarrow> fs_fee_bps fs = 0)) \<and>
     (\<forall>p x. fc_fee_override c p = Some x \<longrightarrow> 1 \<le> x \<and> x \<le> 100)"

text \<open>What the deployment holds for a registered pair.\<close>

definition pair_entry :: "address \<Rightarrow> 'tok system \<Rightarrow> address \<Rightarrow> bool" where
  "pair_entry self sy p \<longleftrightarrow>
     (\<exists>pc a b lp l. sy_pairs sy p = Some pc \<and> pair_identity pc = Some (self, a, b, lp) \<and> a < b \<and>
        fc_pair (sy_factory sy) (a, b) = Some p \<and>
        sy_lps sy lp = Some l \<and> lp_admin l = Some p \<and>
        pc_frozen pc = factory_is_pair_frozen (sy_factory sy) p \<and> pc_oracle pc = empty_oracle)"

definition registry_ok :: "address \<Rightarrow> 'tok system \<Rightarrow> bool" where
  "registry_ok self sy \<longleftrightarrow>
     (let c = sy_factory sy; ps = fc_pair_list c in
      distinct ps \<and> get_total_pairs c = int (length ps) \<and>
      (fc_storage c = None \<longrightarrow> ps = []) \<and>
      (\<forall>fs. fc_storage c = Some fs \<longrightarrow> fs_pair_count fs = int (length ps)) \<and>
      (\<forall>p. fc_is_pair c p = (if p \<in> set ps then Some True else None)) \<and>
      (\<forall>p. p \<notin> set ps \<longrightarrow> fc_pair_frozen c p = None \<and> sy_pairs sy p = None) \<and>
      (\<forall>a b. fc_pair c (a, b) = fc_pair c (b, a)) \<and>
      (\<forall>a b p. fc_pair c (a, b) = Some p \<longrightarrow> p \<in> set ps \<and>
         (\<exists>pc lp. sy_pairs sy p = Some pc \<and> pair_identity pc = Some (self, min a b, max a b, lp))) \<and>
      (\<forall>p \<in> set ps. pair_entry self sy p))"

lemma registry_start:
  assumes "sy_factory sy = factory_empty" "sy_pairs sy = Map.empty"
  shows "registry_ok self sy"
  using assms by (simp add: registry_ok_def factory_empty_def get_total_pairs_def Let_def)

lemma config_start: "config_ok factory_empty"
  by (simp add: config_ok_def factory_empty_def)

text \<open>Changes of the factory's storage that leave the registry alone.\<close>

definition same_registry :: "factory_state \<Rightarrow> factory_state \<Rightarrow> bool" where
  "same_registry c c' \<longleftrightarrow>
     fc_pair c' = fc_pair c \<and> fc_pair_list c' = fc_pair_list c \<and>
     fc_total_pairs c' = fc_total_pairs c \<and> fc_pair_frozen c' = fc_pair_frozen c \<and>
     fc_is_pair c' = fc_is_pair c \<and>
     map_option fs_pair_count (fc_storage c') = map_option fs_pair_count (fc_storage c)"

lemma registry_frame:
  assumes "registry_ok self sy" "same_registry (sy_factory sy) (sy_factory sy')"
    "sy_pairs sy' = sy_pairs sy" "sy_lps sy' = sy_lps sy"
  shows "registry_ok self sy'"
proof -
  have "pair_entry self sy' = pair_entry self sy"
    using assms by (simp add: fun_eq_iff pair_entry_def same_registry_def factory_is_pair_frozen_def)
  moreover have "fc_storage (sy_factory sy') = None \<longleftrightarrow> fc_storage (sy_factory sy) = None"
    using assms(2) by (auto simp: same_registry_def)
  moreover have "fs_pair_count fs = int (length (fc_pair_list (sy_factory sy)))"
    if "fc_storage (sy_factory sy') = Some fs" for fs
    using that assms(1,2)
    by (cases "fc_storage (sy_factory sy)") (auto simp: same_registry_def registry_ok_def Let_def)
  ultimately show ?thesis
    using assms by (simp add: registry_ok_def same_registry_def get_total_pairs_def Let_def)
qed

lemma registry_deployed:
  assumes "registry_ok self sy" "sy_pairs sy p = Some c"
  shows "p \<in> set (fc_pair_list (sy_factory sy))" "pair_entry self sy p"
  using assms by (auto simp: registry_ok_def Let_def)

text \<open>
  A pair that keeps its identity, its oracle and the administrator of its LP token keeps the
  registry, when its frozen flag is the one the factory records.
\<close>

lemma registry_update:
  assumes "registry_ok self sy" "sy_pairs sy p = Some c"
    "pair_identity (w_pair w) = pair_identity c" "pc_oracle (w_pair w) = pc_oracle c"
    "lp_admin (w_lp w) = lp_admin (lp_of_pair sy c)" "pc_frozen (w_pair w) \<longleftrightarrow> m = Some True"
  shows "registry_ok self
    (set_factory (\<lambda>c. c\<lparr>fc_pair_frozen := (fc_pair_frozen c)(p := m)\<rparr>) (put_world p w sy))"
    (is "registry_ok self ?sy")
proof -
  note p = registry_deployed [OF assms(1,2)]
  obtain a b lp l where e: "pair_identity c = Some (self, a, b, lp)" "sy_lps sy lp = Some l"
    "lp_admin l = Some p" "pc_oracle c = empty_oracle" "a < b"
    "fc_pair (sy_factory sy) (a, b) = Some p"
    using p assms(2) by (auto simp: pair_entry_def)
  then have w: "pair_identity (w_pair w) = Some (self, a, b, lp)" "lp_admin (w_lp w) = Some p"
    "pc_oracle (w_pair w) = empty_oracle"
    using assms(3-5) by (auto simp: pair_identity_def lp_of_pair_def)
  then have lps: "sy_lps ?sy = (sy_lps sy)(lp \<mapsto> w_lp w)"
    by (auto simp: put_world_def pair_identity_def)
  have frozen: "factory_is_pair_frozen (sy_factory ?sy) q =
      (if q = p then m = Some True else factory_is_pair_frozen (sy_factory sy) q)" for q
    by (cases m) (auto simp: factory_is_pair_frozen_def)
  have "pair_entry self ?sy q" if q: "pair_entry self sy q" for q
  proof (cases "q = p")
    case True
    then show ?thesis
      using e w lps frozen assms(6) by (auto simp: pair_entry_def)
  next
    case False
    obtain qc qa qb qlp ql where qe: "sy_pairs sy q = Some qc" "pair_identity qc = Some (self, qa, qb, qlp)"
      "qa < qb" "fc_pair (sy_factory sy) (qa, qb) = Some q" "sy_lps sy qlp = Some ql"
      "lp_admin ql = Some q" "pc_frozen qc = factory_is_pair_frozen (sy_factory sy) q"
      "pc_oracle qc = empty_oracle"
      using q by (auto simp: pair_entry_def)
    then have "qlp \<noteq> lp"
      using e(2,3) False by auto
    then show ?thesis
      using qe lps False frozen by (auto simp: pair_entry_def)
  qed
  moreover have "\<exists>pc lp'. sy_pairs ?sy q = Some pc \<and> pair_identity pc = Some (self, min x y, max x y, lp')"
    if "\<exists>pc lp'. sy_pairs sy q = Some pc \<and> pair_identity pc = Some (self, min x y, max x y, lp')" for q x y
    using that e(1) w(1) assms(2) by (cases "q = p") auto
  ultimately show ?thesis
    using assms(1) p by (auto simp: registry_ok_def get_total_pairs_def Let_def)
qed

lemma registry_put_world:
  assumes "registry_ok self sy" "sy_pairs sy p = Some c" "pair_fixed w = pair_fixed (world_of sy c)"
  shows "registry_ok self (put_world p w sy)"
proof -
  let ?m = "fc_pair_frozen (sy_factory sy) p"
  have "pc_frozen c = factory_is_pair_frozen (sy_factory sy) p"
    using registry_deployed [OF assms(1,2)] assms(2) by (auto simp: pair_entry_def)
  then have "pc_frozen (w_pair w) \<longleftrightarrow> ?m = Some True"
    using assms(3) by (auto simp: pair_fixed_def factory_is_pair_frozen_def split: option.splits)
  then have "registry_ok self
    (set_factory (\<lambda>c. c\<lparr>fc_pair_frozen := (fc_pair_frozen c)(p := ?m)\<rparr>) (put_world p w sy))"
    using assms by (intro registry_update [of _ _ _ c]) (auto simp: pair_fixed_def)
  then show ?thesis
    by (cases sy) (simp add: set_factory_def put_world_def)
qed

section \<open>Multisig\<close>

lemma check_signers_Inr:
  "check_signers registered earlier s = Inr u \<longleftrightarrow>
    set s \<subseteq> set registered \<and> set s \<inter> set earlier = {} \<and> distinct s"
  by (induction s arbitrary: earlier) (auto simp: res_inv)

lemma verify_multisig_Inr [res_inv]:
  "verify_multisig e registered s = Inr u \<longleftrightarrow>
    registered \<noteq> [] \<and> set s \<subseteq> set registered \<and> distinct s \<and>
    length registered div 2 < length s \<and> (\<forall>a \<in> set s. e_auth e a)"
  by (auto simp: verify_multisig_def quorum_threshold_def Let_def res_inv check_signers_Inr)

section \<open>Creating a pair\<close>

lemma create_pair_Inr:
  assumes "factory_create_pair h e a b sy = Inr (p, sy')"
  obtains fs lp name symbol l w where
    "a \<noteq> b" "fc_pair (sy_factory sy) (min a b, max a b) = None"
    "fc_storage (sy_factory sy) = Some fs" "\<not> fs_paused fs"
    "p = h_contract_address h (e_self e) (pair_salt h (min a b) (max a b))"
    "address_free e p sy" "address_free e lp sy" "lp \<noteq> p"
    "lp_initialize p LP_DECIMALS name symbol lp_empty = Inr l"
    "pair_initialize (if h_reentry h then view_of (sy_factory sy) else refused_view)
       (nested_env e p) (e_self e) (min a b) (max a b) lp
       \<lparr>w_pair = pair_deployed, w_lp = l, w_tok = sy_tok sy, w_events = []\<rparr> = Inr w"
    "sy' = sy_emit (FE_created (min a b) (max a b) p (fs_pair_count fs))
       (set_factory (register_pair (min a b) (max a b) p lp fs) (put_world p w sy))"
    "lp = h_contract_address h (e_self e) (lp_salt h p)"
proof -
  have mm: "(if a < b then (a, b) else (b, a)) = (min a b, max a b)"
    by (auto simp: min_def max_def)
  define name where "name = fst (derive_lp_metadata (c_to_xdr h) (c_sha256 h) (min a b) (max a b))"
  define symbol where "symbol = snd (derive_lp_metadata (c_to_xdr h) (c_sha256 h) (min a b) (max a b))"
  have md: "derive_lp_metadata (c_to_xdr h) (c_sha256 h) (min a b) (max a b) = (name, symbol)"
    by (simp add: name_def symbol_def)
  show ?thesis
    using assms unfolding factory_create_pair_def Let_def mm md prod.case
      bindR_Inr reject_Inr require_Inr try_case_Inr get_factory_storage_Inr
    apply (elim exE conjE)
    apply (simp only: sum.inject prod.inject)
    apply (elim conjE)
    subgoal premises prems for fs l w
      by (rule that [of fs "h_contract_address h (e_self e) (lp_salt h p)" name symbol l w])
        (use prems in simp_all)
    done
qed

text \<open>What a freshly initialised pair and LP token look like.\<close>

lemma pair_initialize_fresh:
  assumes "pair_initialize fv e f a b lp w = Inr w'" "w_pair w = pair_deployed"
  shows "pair_identity (w_pair w') = Some (f, a, b, lp)" "w_lp w' = w_lp w"
    "pc_frozen (w_pair w') = False" "pc_oracle (w_pair w') = empty_oracle" "w_tok w' = w_tok w"
    "w_events w' = w_events w" "a \<noteq> f" "b \<noteq> f" "a \<noteq> lp" "b \<noteq> lp" "a \<noteq> e_self e" "b \<noteq> e_self e"
  using assms
  by (auto simp: pair_initialize_def Let_def res_inv pair_identity_def pair_deployed_def)

lemma register_pair_lookup:
  "fc_pair (register_pair t0 t1 p lp fs c) (u, v) =
    (if u = t1 \<and> v = t0 \<or> u = t0 \<and> v = t1 then Some p else fc_pair c (u, v))"
proof -
  have "fc_pair (register_pair t0 t1 p lp fs c) = (fc_pair c)((t0, t1) \<mapsto> p, (t1, t0) \<mapsto> p)"
    unfolding register_pair_def Let_def by simp
  then show ?thesis
    unfolding fun_upd_def by (metis prod.inject)
qed

text \<open>
  A fresh pair and its LP token enter the deployment, and the factory registers them.
\<close>

definition fresh_registration ::
  "address \<Rightarrow> address \<Rightarrow> address \<Rightarrow> address \<Rightarrow> address \<Rightarrow> factory_storage \<Rightarrow> pair_contract \<Rightarrow> lp_state \<Rightarrow>
     'tok system \<Rightarrow> 'tok system \<Rightarrow> bool" where
  "fresh_registration self a b p lp fs pc l sy sy' \<longleftrightarrow>
     a < b \<and> sy_pairs sy p = None \<and> sy_lps sy lp = None \<and> fc_pair (sy_factory sy) (a, b) = None \<and>
     fc_storage (sy_factory sy) = Some fs \<and>
     pair_identity pc = Some (self, a, b, lp) \<and> \<not> pc_frozen pc \<and> pc_oracle pc = empty_oracle \<and>
     lp_admin l = Some p \<and>
     sy_factory sy' = register_pair a b p lp fs (sy_factory sy) \<and>
     sy_pairs sy' = (sy_pairs sy)(p \<mapsto> pc) \<and> sy_lps sy' = (sy_lps sy)(lp \<mapsto> l)"

lemma register_pair_fields:
  "fc_pair_list (register_pair a b p lp fs c) = fc_pair_list c @ [p]"
  "get_total_pairs (register_pair a b p lp fs c) = int (length (fc_pair_list c @ [p]))"
  "fc_storage (register_pair a b p lp fs c) = Some (fs\<lparr>fs_pair_count := fs_pair_count fs + 1\<rparr>)"
  "fc_is_pair (register_pair a b p lp fs c) = set_flag p True (fc_is_pair c)"
  "fc_pair_frozen (register_pair a b p lp fs c) = fc_pair_frozen c"
  "factory_is_pair_frozen (register_pair a b p lp fs c) q = factory_is_pair_frozen c q"
  by (simp_all add: register_pair_def get_total_pairs_def factory_is_pair_frozen_def Let_def)

lemma registration_new:
  assumes "fresh_registration self a b p lp fs pc l sy sy'" "registry_ok self sy"
  shows "p \<notin> set (fc_pair_list (sy_factory sy))" "fc_pair (sy_factory sy) (b, a) = None"
    "pair_entry self sy' p"
proof -
  show p: "p \<notin> set (fc_pair_list (sy_factory sy))"
    using assms by (auto simp: fresh_registration_def registry_ok_def pair_entry_def Let_def)
  have "fc_pair (sy_factory sy) (a, b) = fc_pair (sy_factory sy) (b, a)"
    using assms(2) unfolding registry_ok_def Let_def by blast
  then show "fc_pair (sy_factory sy) (b, a) = None"
    using assms(1) by (simp add: fresh_registration_def)
  have "factory_is_pair_frozen (sy_factory sy) p = False"
    using assms(2) p by (simp add: registry_ok_def factory_is_pair_frozen_def Let_def)
  then show "pair_entry self sy' p"
    using assms(1) by (simp add: pair_entry_def fresh_registration_def register_pair_lookup register_pair_fields)
qed

lemma registration_keeps_entries:
  assumes "fresh_registration self a b p lp fs pc l sy sy'" "registry_ok self sy" "pair_entry self sy q"
  shows "pair_entry self sy' q"
proof -
  obtain qc qa qb qlp ql where qe: "sy_pairs sy q = Some qc" "pair_identity qc = Some (self, qa, qb, qlp)"
    "qa < qb" "fc_pair (sy_factory sy) (qa, qb) = Some q" "sy_lps sy qlp = Some ql"
    "lp_admin ql = Some q" "pc_frozen qc = factory_is_pair_frozen (sy_factory sy) q"
    "pc_oracle qc = empty_oracle"
    using assms(3) by (auto simp: pair_entry_def)
  have new: "sy_pairs sy p = None" "sy_lps sy lp = None" "fc_pair (sy_factory sy) (a, b) = None"
    "fc_pair (sy_factory sy) (b, a) = None" and sy': "sy_factory sy' = register_pair a b p lp fs (sy_factory sy)"
    "sy_pairs sy' = (sy_pairs sy)(p \<mapsto> pc)" "sy_lps sy' = (sy_lps sy)(lp \<mapsto> l)"
    using assms(1) registration_new(2) [OF assms(1,2)] by (simp_all add: fresh_registration_def)
  have "q \<noteq> p" "qlp \<noteq> lp" "\<not> (qa = a \<and> qb = b)" "\<not> (qa = b \<and> qb = a)"
    using qe(1,4,5) new by auto
  then have "fc_pair (sy_factory sy') (qa, qb) = Some q" "sy_pairs sy' q = Some qc" "sy_lps sy' qlp = Some ql"
    "factory_is_pair_frozen (sy_factory sy') q = factory_is_pair_frozen (sy_factory sy) q"
    using qe sy' by (auto simp: register_pair_lookup register_pair_fields)
  then show ?thesis
    unfolding pair_entry_def using qe by auto
qed

lemma registration_lookups:
  assumes "fresh_registration self a b p lp fs pc l sy sy'" "registry_ok self sy"
  shows "fc_pair (sy_factory sy') (x, y) = fc_pair (sy_factory sy') (y, x)"
    and "fc_pair (sy_factory sy') (x, y) = Some q \<Longrightarrow> q \<in> set (fc_pair_list (sy_factory sy')) \<and>
      (\<exists>c lp'. sy_pairs sy' q = Some c \<and> pair_identity c = Some (self, min x y, max x y, lp'))"
proof -
  have look: "fc_pair (sy_factory sy') (u, v) =
      (if u = b \<and> v = a \<or> u = a \<and> v = b then Some p else fc_pair (sy_factory sy) (u, v))" for u v
    using assms(1) register_pair_lookup [of a b p lp fs "sy_factory sy" u v] by (simp add: fresh_registration_def)
  have "fc_pair (sy_factory sy) (x, y) = fc_pair (sy_factory sy) (y, x)"
    using assms(2) unfolding registry_ok_def Let_def by blast
  then show "fc_pair (sy_factory sy') (x, y) = fc_pair (sy_factory sy') (y, x)"
    by (auto simp: look)
  assume q: "fc_pair (sy_factory sy') (x, y) = Some q"
  have sy': "a < b" "pair_identity pc = Some (self, a, b, lp)" "sy_pairs sy' = (sy_pairs sy)(p \<mapsto> pc)"
    "fc_pair_list (sy_factory sy') = fc_pair_list (sy_factory sy) @ [p]"
    using assms(1) by (simp_all add: fresh_registration_def register_pair_fields)
  show "q \<in> set (fc_pair_list (sy_factory sy')) \<and>
      (\<exists>c lp'. sy_pairs sy' q = Some c \<and> pair_identity c = Some (self, min x y, max x y, lp'))"
  proof (cases "x = b \<and> y = a \<or> x = a \<and> y = b")
    case True
    then show ?thesis
      using q sy' by (auto simp: look min_def max_def)
  next
    case False
    then have old: "fc_pair (sy_factory sy) (x, y) = Some q"
      using q by (simp only: look if_False)
    then have "q \<in> set (fc_pair_list (sy_factory sy))"
      "\<exists>c lp'. sy_pairs sy q = Some c \<and> pair_identity c = Some (self, min x y, max x y, lp')"
      using assms(2) by (simp_all add: registry_ok_def Let_def)
    then show ?thesis
      using registration_new(1) [OF assms] sy'(3,4) by auto
  qed
qed

lemma registration_registry:
  assumes "fresh_registration self a b p lp fs pc l sy sy'" "registry_ok self sy"
  shows "registry_ok self sy'"
proof -
  have sy': "sy_factory sy' = register_pair a b p lp fs (sy_factory sy)" "sy_pairs sy' = (sy_pairs sy)(p \<mapsto> pc)"
    using assms(1) by (simp_all add: fresh_registration_def)
  note new = registration_new [OF assms] and fields = register_pair_fields [of a b p lp fs "sy_factory sy", folded sy'(1)]
  have old: "distinct (fc_pair_list (sy_factory sy))"
    "\<And>q. fc_is_pair (sy_factory sy) q = (if q \<in> set (fc_pair_list (sy_factory sy)) then Some True else None)"
    "\<And>q. q \<notin> set (fc_pair_list (sy_factory sy)) \<Longrightarrow> fc_pair_frozen (sy_factory sy) q = None \<and> sy_pairs sy q = None"
    "fs_pair_count fs = int (length (fc_pair_list (sy_factory sy)))"
    "\<And>q. q \<in> set (fc_pair_list (sy_factory sy)) \<Longrightarrow> pair_entry self sy q"
    using assms by (simp_all add: registry_ok_def fresh_registration_def Let_def)
  have "\<forall>x y q. fc_pair (sy_factory sy') (x, y) = Some q \<longrightarrow> q \<in> set (fc_pair_list (sy_factory sy')) \<and>
      (\<exists>c lp'. sy_pairs sy' q = Some c \<and> pair_identity c = Some (self, min x y, max x y, lp'))"
    "\<forall>x y. fc_pair (sy_factory sy') (x, y) = fc_pair (sy_factory sy') (y, x)"
    using registration_lookups [OF assms] by blast+
  moreover have "\<forall>q \<in> set (fc_pair_list (sy_factory sy')). pair_entry self sy' q"
    using new(3) registration_keeps_entries [OF assms] old(5) by (simp add: fields)
  ultimately show ?thesis
    unfolding registry_ok_def Let_def using new(1) old(1-4) by (simp add: fields sy'(2))
qed

lemma create_pair_registry:
  assumes "factory_create_pair h e a b sy = Inr (p, sy')" "registry_ok (e_self e) sy"
  shows "registry_ok (e_self e) sy'"
  using assms(1)
proof (cases rule: create_pair_Inr)
  case (1 fs lp name symbol l w)
  note fresh = pair_initialize_fresh [OF 1(10)]
  have "min a b < max a b"
    using 1(1) by (cases "a < b") (auto simp: min_def max_def not_less le_less)
  moreover have "sy_lps sy' = (sy_lps sy)(lp \<mapsto> l)" "sy_pairs sy' = (sy_pairs sy)(p \<mapsto> w_pair w)"
    using fresh(1,2) by (auto simp: 1(11) put_world_def pair_identity_def)
  ultimately have "fresh_registration (e_self e) (min a b) (max a b) p lp fs (w_pair w) l sy sy'"
    using 1(2,3,6,7,9,11) fresh(1,3,4) by (simp add: fresh_registration_def address_free_def lp_initialize_Inr)
  then show ?thesis
    using assms(2) by (rule registration_registry)
qed

section \<open>Every call keeps the registry\<close>

lemma set_pair_frozen_state_Inr:
  assumes "set_pair_frozen_state e p f sy = Inr sy'"
  obtains c where "factory_is_pair (sy_factory sy) p" "sy_pairs sy p = Some c"
    "sy' = set_factory (\<lambda>c. c\<lparr>fc_pair_frozen := (fc_pair_frozen c)(p := if f then Some True else None)\<rparr>)
       (put_world p ((world_of sy c)\<lparr>w_pair := c\<lparr>pc_frozen := f\<rparr>\<rparr>) sy)"
  using assms
  by (auto simp: set_pair_frozen_state_def res_inv on_pair_Inr pair_set_frozen_Inr set_flag_def
      set_pair_def split: sum.splits)

lemma set_pair_frozen_state_registry:
  assumes "set_pair_frozen_state e p f sy = Inr sy'" "registry_ok self sy"
  shows "registry_ok self sy'"
  using assms(1)
proof (cases rule: set_pair_frozen_state_Inr)
  case (1 c)
  then show ?thesis
    using assms(2) by (auto intro!: registry_update simp: pair_identity_def)
qed

lemma relay_registry:
  assumes "relay h p f sy = Inr sy'" "registry_ok self sy"
    "\<And>w u w'. f w = Inr (u, w') \<Longrightarrow> pair_fixed w' = pair_fixed w"
  shows "registry_ok self sy'"
  using assms
  by (auto simp: relay_def res_inv on_pair_Inr intro!: registry_put_world split: if_splits)

lemmas factory_simple_defs = factory_pause_def factory_unpause_def factory_sync_def
  factory_set_fee_config_def factory_set_fee_to_setter_def factory_set_pair_fee_def
  factory_deposit_protocol_fee_def factory_propose_upgrade_def factory_cancel_upgrade_def
  upgrade_propose_def upgrade_cancel_def

text \<open>The calls that touch neither the registry nor any pair.\<close>

fun registry_neutral :: "factory_call \<Rightarrow> bool" where
  "registry_neutral (FC_initialize s a b c f) = False"
| "registry_neutral (FC_create_pair a b) = False"
| "registry_neutral (FC_freeze_pair s p) = False"
| "registry_neutral (FC_unfreeze_pair s p) = False"
| "registry_neutral (FC_set_pair_lp_token_paused s p b) = False"
| "registry_neutral (FC_set_pair_stale_threshold s p n) = False"
| "registry_neutral _ = True"

lemma execute_upgrade_Inr:
  assumes "factory_execute_upgrade e sy = Inr sy'"
  obtains pr where "fc_pending_upgrade (sy_factory sy) = Some pr"
    "51840 \<le> max 0 (e_sequence e - pu_proposed_at_ledger pr)" "sy_code sy' = pu_new_wasm_hash pr"
    "sy_pairs sy' = sy_pairs sy" "sy_lps sy' = sy_lps sy" "sy_tok sy' = sy_tok sy"
    "sy_factory sy' = (sy_factory sy)\<lparr>fc_pending_upgrade := None,
       fc_storage := map_option (\<lambda>fs. fs\<lparr>fs_protocol_version := fs_protocol_version fs + 1\<rparr>)
         (fc_storage (sy_factory sy))\<rparr>"
proof -
  obtain pr where pr: "fc_pending_upgrade (sy_factory sy) = Some pr"
    using assms by (auto simp: factory_execute_upgrade_def upgrade_execute_def res_inv)
  show ?thesis
    using assms pr
    by (cases "fc_storage (sy_factory sy)")
      (auto simp: factory_execute_upgrade_def upgrade_execute_def res_inv Let_def UPGRADE_DELAY_LEDGERS_def
        u32_saturating_sub_def intro!: that)
qed

lemma neutral_registry:
  assumes "factory_step h e op sy = Inr sy'" "registry_neutral op"
  shows "same_registry (sy_factory sy) (sy_factory sy') \<and> sy_pairs sy' = sy_pairs sy \<and> sy_lps sy' = sy_lps sy \<and>
    sy_tok sy' = sy_tok sy"
proof (cases op)
  case FC_execute_upgrade
  with assms(1) have "factory_execute_upgrade e sy = Inr sy'" by simp
  then show ?thesis
    by (cases rule: execute_upgrade_Inr)
      (cases "fc_storage (sy_factory sy)"; simp add: same_registry_def)
qed (use assms in \<open>auto simp: factory_simple_defs res_inv same_registry_def\<close>)

lemma initialize_registry:
  assumes "factory_initialize s a b c f sy = Inr sy'" "registry_ok self sy"
  shows "registry_ok self sy'"
proof -
  have "fc_storage (sy_factory sy) = None"
    using assms(1) by (auto simp: factory_initialize_def res_inv)
  then have "fc_pair_list (sy_factory sy) = []"
    using assms(2) by (simp add: registry_ok_def Let_def)
  then show ?thesis
    using assms by (auto simp: factory_initialize_def res_inv registry_ok_def get_total_pairs_def Let_def)
qed

lemma registry_emit [simp]: "registry_ok self (sy_emit ev sy) = registry_ok self sy"
  by (simp add: registry_ok_def pair_entry_def)

lemma factory_step_registry:
  assumes "factory_step h e op sy = Inr sy'" "registry_ok (e_self e) sy"
  shows "registry_ok (e_self e) sy'"
proof (cases "registry_neutral op")
  case True
  then show ?thesis
    using neutral_registry [OF assms(1)] registry_frame [OF assms(2)] by blast
next
  case False
  then show ?thesis
  proof (cases op)
    case (FC_create_pair a b)
    then show ?thesis using assms create_pair_registry by (auto simp: res_inv)
  next
    case (FC_freeze_pair s p)
    then show ?thesis
      using assms set_pair_frozen_state_registry by (auto simp: factory_freeze_pair_def res_inv)
  next
    case (FC_unfreeze_pair s p)
    then show ?thesis
      using assms set_pair_frozen_state_registry by (auto simp: factory_unfreeze_pair_def res_inv)
  next
    case (FC_set_pair_lp_token_paused s p b)
    then show ?thesis
      using assms relay_registry [OF _ assms(2) pair_set_lp_token_paused_fixed]
      by (auto simp: factory_set_pair_lp_token_paused_def res_inv)
  next
    case (FC_set_pair_stale_threshold s p n)
    then show ?thesis
      using assms relay_registry [OF _ assms(2) pair_set_stale_threshold_fixed]
      by (auto simp: factory_set_pair_stale_threshold_def res_inv)
  qed (use assms initialize_registry in auto)
qed

section \<open>Every reachable state\<close>

text \<open>The administrator of an LP token, a pair, never signs; so it stays.\<close>

lemma lp_step_admin:
  assumes "lp_step c e op l = Inr l'" "lp_admin l = Some a" "\<not> e_auth e a"
  shows "lp_admin l' = Some a"
proof -
  have spend: "lp_admin l2 = lp_admin l1" if "lp_spend_allowance e f sp x l1 = Inr l2" for f sp x l1 l2
    using lp_spend_allowance_Inr [OF that] by auto
  show ?thesis
    using assms
    by (cases op)
      (auto simp: lp_initialize_Inr lp_admin_transfer_def lp_set_admin_def lp_pause_def lp_unpause_def
        lp_approve_def lp_permit_def lp_transfer_from_def lp_burn_from_def lp_transfer_Inr lp_burn_Inr
        res_inv Let_def dest!: spend dest: lp_mint_Inr lp_burn_balance_Inr lp_transfer_internal_Inr
        split: if_splits)
qed

lemma registry_lp:
  assumes "registry_ok self sy" "sy_lps sy t = Some l"
    "\<And>a. lp_admin l = Some a \<Longrightarrow> lp_admin l' = Some a"
  shows "registry_ok self (sy\<lparr>sy_lps := (sy_lps sy)(t \<mapsto> l')\<rparr>)"
proof -
  have "pair_entry self (sy\<lparr>sy_lps := (sy_lps sy)(t \<mapsto> l')\<rparr>) q" if q: "pair_entry self sy q" for q
  proof -
    obtain qc qa qb qlp ql where qe: "sy_pairs sy q = Some qc" "pair_identity qc = Some (self, qa, qb, qlp)"
      "qa < qb" "fc_pair (sy_factory sy) (qa, qb) = Some q" "sy_lps sy qlp = Some ql"
      "lp_admin ql = Some q" "pc_frozen qc = factory_is_pair_frozen (sy_factory sy) q"
      "pc_oracle qc = empty_oracle"
      using q by (auto simp: pair_entry_def)
    then show ?thesis
      using assms(2,3) by (cases "qlp = t") (auto simp: pair_entry_def)
  qed
  then show ?thesis
    using assms(1) unfolding registry_ok_def Let_def by simp
qed

lemma pool_call_registry:
  assumes "pool_call T recv e op sy = Inr (u, sy')" "registry_ok self sy" "\<not> e_auth e self"
    "receiver_keeps recv"
  shows "registry_ok self sy'"
proof -
  obtain c w where *: "sy_pairs sy (e_self e) = Some c"
    "pair_step T (view_of (sy_factory sy)) recv e op (world_of sy c) = Inr w"
    "sy' = put_world (e_self e) w sy"
    using assms(1) by (auto simp: pool_call_def on_pair_Inr res_inv)
  have "pair_entry self sy (e_self e)"
    using registry_deployed [OF assms(2) *(1)] by simp
  then have "\<forall>ps. pc_state (w_pair (world_of sy c)) = Some ps \<longrightarrow> \<not> e_auth e (ps_factory ps)"
    using assms(3) *(1) by (auto simp: pair_entry_def pair_identity_def)
  then show ?thesis
    using pair_step_fixed [OF *(2) assms(4)] registry_put_world [OF assms(2) *(1)] *(3) by simp
qed

theorem system_registry:
  assumes "system_reachable h T self sy"
  shows "registry_ok self sy"
  using assms
proof induction
  case (sys_start sy)
  then show ?case by (simp add: registry_start)
next
  case (sys_factory sy e op sy')
  then show ?case using factory_step_registry by metis
next
  case (sys_pool sy e recv op u sy')
  then show ?case using pool_call_registry by metis
next
  case (sys_lp sy t l e c lop l')
  then show ?case using registry_lp lp_step_admin by metis
next
  case (sys_tok sy tok)
  then show ?case by (simp add: registry_ok_def pair_entry_def)
qed

section \<open>The configuration\<close>

lemma factory_step_config:
  assumes "factory_step h e op sy = Inr sy'" "factory_call_typed op" "config_ok (sy_factory sy)"
  shows "config_ok (sy_factory sy')"
proof (cases op)
  case FC_execute_upgrade
  with assms(1) have "factory_execute_upgrade e sy = Inr sy'" by simp
  then show ?thesis
    by (cases rule: execute_upgrade_Inr) (use assms(3) in \<open>auto simp: config_ok_def\<close>)
next
  case (FC_create_pair a b)
  then obtain p where "factory_create_pair h e a b sy = Inr (p, sy')"
    using assms(1) by (auto simp: res_inv)
  then show ?thesis
  proof (cases rule: create_pair_Inr)
    case (1 fs lp name symbol l w)
    then show ?thesis
      using assms(3) by (auto simp: config_ok_def register_pair_def Let_def)
  qed
next
  case (FC_freeze_pair s p)
  then obtain sy1 where "set_pair_frozen_state e p True sy = Inr sy1" "sy_factory sy' = sy_factory sy1"
    using assms(1) by (auto simp: factory_freeze_pair_def res_inv)
  then show ?thesis
    using assms(3) by (auto simp: config_ok_def elim: set_pair_frozen_state_Inr)
next
  case (FC_unfreeze_pair s p)
  then obtain sy1 where "set_pair_frozen_state e p False sy = Inr sy1" "sy_factory sy' = sy_factory sy1"
    using assms(1) by (auto simp: factory_unfreeze_pair_def res_inv)
  then show ?thesis
    using assms(3) by (auto simp: config_ok_def elim: set_pair_frozen_state_Inr)
next
  case (FC_set_pair_lp_token_paused s p b)
  then have "sy_factory sy' = sy_factory sy"
    using assms(1)
    by (auto simp: factory_set_pair_lp_token_paused_def relay_def on_pair_Inr res_inv split: if_splits)
  then show ?thesis using assms(3) by simp
next
  case (FC_set_pair_stale_threshold s p n)
  then have "sy_factory sy' = sy_factory sy"
    using assms(1)
    by (auto simp: factory_set_pair_stale_threshold_def relay_def on_pair_Inr res_inv split: if_splits)
  then show ?thesis using assms(3) by simp
qed (use assms in \<open>auto simp: factory_simple_defs factory_initialize_def MAX_PROTOCOL_FEE_BPS_def
    MAX_PAIR_FEE_BPS_def in_u32_def config_ok_def res_inv split: if_splits\<close>)

text \<open>The answers that pairs get are within the bounds their arithmetic relies on.\<close>

lemma config_view:
  assumes "config_ok c"
  shows "factory_view_typed (view_of c)" "fc_fee_override c p = Some x \<Longrightarrow> 1 \<le> x \<and> x \<le> 100"
    "0 \<le> fee_bps_of c \<and> fee_bps_of c \<le> 30" "fee_to_of c = None \<longleftrightarrow> fee_bps_of c = 0"
proof -
  show bps: "0 \<le> fee_bps_of c \<and> fee_bps_of c \<le> 30" and "fee_to_of c = None \<longleftrightarrow> fee_bps_of c = 0"
    using assms by (cases "fc_storage c"; auto simp: config_ok_def fee_bps_of_def fee_to_of_def)+
  show over: "fc_fee_override c p = Some x \<Longrightarrow> 1 \<le> x \<and> x \<le> 100" for p x
    using assms unfolding config_ok_def by blast
  show "factory_view_typed (view_of c)"
    using bps over by (fastforce simp: factory_view_typed_def view_of_def in_u32_def u32_max_def)
qed

theorem system_config:
  assumes "system_reachable h T self sy"
  shows "config_ok (sy_factory sy)"
  using assms
proof induction
  case (sys_start sy)
  then show ?case by (simp add: config_start)
next
  case (sys_factory sy e op sy')
  then show ?case using factory_step_config by metis
next
  case (sys_pool sy e recv op u sy')
  then show ?case by (auto simp: pool_call_def on_pair_Inr)
qed simp_all

end
