(* ===== verification/Factory_Props.thy ===== *)
theory Factory_Props
  imports Factory_Inv
begin

text \<open>
  The properties of the factory, each with a witness on a small deployment: three governance
  signers, a setter, and one pair of two tokens.
\<close>

section \<open>A concrete deployment\<close>

definition ex_host :: host where
  "ex_host = \<lparr>c_to_xdr = (\<lambda>a. [word_of_nat (addr_id a)]), c_sha256 = (\<lambda>bs. bs @ replicate 32 0),
     c_ed25519_verify = (\<lambda>_ _ _. False), h_symbol_xdr = (\<lambda>s. []),
     h_contract_address = (\<lambda>d salt. Address (100 + 16 * unat (salt ! 0) + unat (salt ! 1))),
     h_reentry = False, h_foreign = (\<lambda>_. False)\<rparr>"

definition fac_env :: env where
  "fac_env = \<lparr>e_timestamp = 1000, e_sequence = 60000, e_self = Address 50,
     e_auth = (\<lambda>a. a = Address 10 \<or> a = Address 11 \<or> a = Address 20)\<rparr>"

definition ex_fs :: factory_storage where
  "ex_fs = \<lparr>fs_signers = [Address 10, Address 11, Address 12], fs_pair_wasm_hash = [1],
     fs_concentrated_pair_wasm_hash = [2], fs_lp_token_wasm_hash = [3], fs_pair_count = 0,
     fs_protocol_version = 1, fs_paused = False, fs_fee_to = None,
     fs_fee_to_setter = Address 20, fs_fee_bps = 0\<rparr>"

definition ex_sys0 :: "bank system" where
  "ex_sys0 = \<lparr>sy_factory = factory_empty, sy_code = [9], sy_pairs = Map.empty, sy_lps = Map.empty,
     sy_tok = (\<lambda>_. lp_empty), sy_log = []\<rparr>"

definition ex_sys1 :: "bank system" where
  "ex_sys1 = ex_sys0\<lparr>sy_factory := factory_empty\<lparr>fc_storage := Some ex_fs\<rparr>\<rparr>"

lemmas ex_fac_defs = ex_host_def fac_env_def ex_fs_def ex_sys0_def ex_sys1_def factory_empty_def

lemma ex_initialize_ok:
  "factory_initialize [Address 10, Address 11, Address 12] [1] [2] [3] (Address 20) ex_sys0 = Inr ex_sys1"
  by (simp add: factory_initialize_def ex_fac_defs set_factory_storage_def set_factory_def
      PROTOCOL_VERSION_def)

lemma ex_sys1_reachable: "system_reachable ex_host T (Address 50) ex_sys1"
proof (rule sys_factory)
  show "system_reachable ex_host T (Address 50) ex_sys0"
    by (rule sys_start) (simp_all add: ex_fac_defs)
  show "factory_step ex_host fac_env
      (FC_initialize [Address 10, Address 11, Address 12] [1] [2] [3] (Address 20)) ex_sys0 = Inr ex_sys1"
    by (simp add: ex_initialize_ok)
qed (simp_all add: ex_fac_defs)

text \<open>When a new pair is accepted.\<close>

lemma lp_metadata_accepted:
  assumes "derive_lp_metadata x s a b = (name, symbol)"
  shows "\<exists>l. lp_initialize p LP_DECIMALS name symbol lp_empty = Inr l"
proof -
  have "length name = 22" "length symbol = 12"
    using assms length_hex4 [of "\<lambda>i. s (x (min a b) @ x (max a b)) ! i"]
    by (auto simp: derive_lp_metadata_eq LP_NAME_PREFIX_def LP_SYMBOL_PREFIX_def simp del: upt_Suc)
  then show ?thesis
    by (auto simp: lp_initialize_def LP_DECIMALS_def lp_empty_def Let_def)
qed

definition create_args_ok :: "host \<Rightarrow> env \<Rightarrow> address \<Rightarrow> address \<Rightarrow> 'tok system \<Rightarrow> bool" where
  "create_args_ok h e a b sy \<longleftrightarrow>
     (let p = h_contract_address h (e_self e) (pair_salt h (min a b) (max a b));
          lp = h_contract_address h (e_self e) (lp_salt h p) in
      a \<noteq> b \<and> fc_pair (sy_factory sy) (min a b, max a b) = None \<and>
      (\<exists>fs. fc_storage (sy_factory sy) = Some fs \<and> \<not> fs_paused fs \<and> in_u32 (fs_pair_count fs + 1)) \<and>
      address_free e p sy \<and> address_free e lp sy \<and> lp \<noteq> p \<and>
      {a, b} \<inter> {e_self e, p, lp} = {})"

lemma create_pair_ok:
  assumes "create_args_ok h e a b sy"
    and "\<forall>t \<in> {a, b}. \<not> token_is_known_contract (if h_reentry h then view_of (sy_factory sy) else refused_view) t"
  shows "\<exists>p sy'. factory_create_pair h e a b sy = Inr (p, sy')"
proof -
  define p where "p = h_contract_address h (e_self e) (pair_salt h (min a b) (max a b))"
  define lp where "lp = h_contract_address h (e_self e) (lp_salt h p)"
  define view where "view = (if h_reentry h then view_of (sy_factory sy) else refused_view)"
  obtain fs where *: "a \<noteq> b" "fc_pair (sy_factory sy) (min a b, max a b) = None"
    "fc_storage (sy_factory sy) = Some fs" "\<not> fs_paused fs" "in_u32 (fs_pair_count fs + 1)"
    "address_free e p sy" "address_free e lp sy" "lp \<noteq> p"
    "{a, b} \<inter> {e_self e, p, lp} = {}"
    using assms(1) by (auto simp: create_args_ok_def Let_def p_def lp_def)
  have mm: "(if a < b then (a, b) else (b, a)) = (min a b, max a b)"
    by (auto simp: min_def max_def)
  have known: "\<not> token_is_known_contract view (min a b)" "\<not> token_is_known_contract view (max a b)"
    using assms(2) by (auto simp: view_def min_def max_def)
  have fresh: "min a b \<noteq> max a b" "min a b \<noteq> e_self e" "max a b \<noteq> e_self e" "min a b \<noteq> p"
    "max a b \<noteq> p" "min a b \<noteq> lp" "max a b \<noteq> lp"
    using *(1,9) by (auto simp: min_def max_def)
  obtain name symbol where md: "derive_lp_metadata (c_to_xdr h) (c_sha256 h) (min a b) (max a b) = (name, symbol)"
    by fastforce
  obtain l where l: "lp_initialize p LP_DECIMALS name symbol lp_empty = Inr l"
    using lp_metadata_accepted [OF md] by blast
  obtain w where w: "pair_initialize view (nested_env e p) (e_self e) (min a b) (max a b) lp
      \<lparr>w_pair = pair_deployed, w_lp = l, w_tok = sy_tok sy, w_events = []\<rparr> = Inr w"
    using known fresh
    by (auto simp: pair_initialize_def Let_def get_pair_state_def pair_deployed_def)
  show ?thesis
    using * l w
    by (simp add: factory_create_pair_def mm Let_def get_factory_storage_def md
        p_def [symmetric] lp_def [symmetric] view_def [symmetric])
qed


lemma fac_self [simp]: "e_self fac_env = Address 50"
  by (simp add: fac_env_def)

lemma ex_create_args: "create_args_ok ex_host fac_env (Address 1) (Address 2) ex_sys1"
  by (simp add: create_args_ok_def Let_def ex_fac_defs pair_salt_def lp_salt_def address_free_def
      min_def max_def less_address_def less_eq_address_def in_u32_def u32_max_def)

lemma refused_view_knows_nothing: "\<forall>t \<in> A. \<not> token_is_known_contract refused_view t"
  by (simp add: token_is_known_contract_def refused_view_def)

lemma ex_created:
  "\<exists>sy. factory_create_pair ex_host fac_env (Address 1) (Address 2) ex_sys1 = Inr (Address 118, sy) \<and>
     system_reachable ex_host T (Address 50) sy \<and> fc_pair_list (sy_factory sy) = [Address 118] \<and>
     fc_is_lp_token (sy_factory sy) (Address 1988) = Some True \<and>
     fc_storage (sy_factory sy) = Some (ex_fs\<lparr>fs_pair_count := 1\<rparr>)"
proof -
  obtain p sy where *: "factory_create_pair ex_host fac_env (Address 1) (Address 2) ex_sys1 = Inr (p, sy)"
    using create_pair_ok [OF ex_create_args] refused_view_knows_nothing by (auto simp: ex_host_def)
  then have "p = Address 118" "fc_pair_list (sy_factory sy) = [p]"
    "fc_is_lp_token (sy_factory sy) (Address 1988) = Some True"
    "fc_storage (sy_factory sy) = Some (ex_fs\<lparr>fs_pair_count := 1\<rparr>)"
    using * by (auto simp: factory_create_pair_def register_pair_def Let_def ex_fac_defs
      pair_salt_def lp_salt_def less_address_def res_inv split: sum.splits prod.splits if_splits)
  moreover have "system_reachable ex_host T (Address 50) sy"
    by (rule sys_factory [OF ex_sys1_reachable, of fac_env "FC_create_pair (Address 1) (Address 2)"])
      (simp_all add: * fac_self del: One_nat_def)
  ultimately show ?thesis
    using * by blast
qed


section \<open>The registry and the configuration\<close>

text \<open>
  C9. In every reachable state the registry of the factory is the truth about the deployment:
  its list of pairs has no duplicates and is exactly the set of deployed pairs, all counters are
  its length, a lookup is independent of the order of the tokens, and a registered pair is the
  pool of just those two tokens, answers to this factory and administers its own LP token.
\<close>

theorem registry_is_truthful:
  assumes "system_reachable h T self sy"
  shows "distinct (fc_pair_list (sy_factory sy)) \<and>
    set (fc_pair_list (sy_factory sy)) = dom (sy_pairs sy) \<and>
    factory_total_pairs sy = int (length (fc_pair_list (sy_factory sy))) \<and>
    factory_get_pair_count sy = factory_total_pairs sy \<and>
    factory_get_pair sy a b = factory_get_pair sy b a \<and>
    (factory_get_pair sy a b = Some p \<longrightarrow> factory_is_pair (sy_factory sy) p \<and>
       (\<exists>pc lp l. sy_pairs sy p = Some pc \<and> pair_identity pc = Some (self, min a b, max a b, lp) \<and>
          sy_lps sy lp = Some l \<and> lp_admin l = Some p)) \<and>
    (sy_pairs sy p \<noteq> None \<longrightarrow> (\<exists>x y. x < y \<and> factory_get_pair sy x y = Some p))"
proof -
  let ?c = "sy_factory sy"
  have ok: "registry_ok self sy"
    using assms by (rule system_registry)
  have listed: "p \<in> set (fc_pair_list ?c) \<longleftrightarrow> sy_pairs sy p \<noteq> None" for p
    using ok by (fastforce simp: registry_ok_def pair_entry_def Let_def)
  have entry: "pair_entry self sy p" if "sy_pairs sy p \<noteq> None" for p
    using ok that by (auto dest: registry_deployed)
  have count: "factory_get_pair_count sy = int (length (fc_pair_list ?c))"
    using ok by (cases "fc_storage ?c") (auto simp: factory_get_pair_count_def registry_ok_def Let_def)
  have found: "factory_is_pair ?c p \<and>
      (\<exists>pc lp l. sy_pairs sy p = Some pc \<and> pair_identity pc = Some (self, min a b, max a b, lp) \<and>
         sy_lps sy lp = Some l \<and> lp_admin l = Some p)" if "fc_pair ?c (a, b) = Some p"
  proof -
    have "p \<in> set (fc_pair_list ?c) \<and> (\<exists>pc lp. sy_pairs sy p = Some pc \<and>
        pair_identity pc = Some (self, min a b, max a b, lp))" and "factory_is_pair ?c p"
      using ok that by (simp_all add: registry_ok_def factory_is_pair_def Let_def)
    then show ?thesis
      using entry [of p] by (auto simp: pair_entry_def)
  qed
  have "distinct (fc_pair_list ?c)" "get_total_pairs ?c = int (length (fc_pair_list ?c))"
    "fc_pair ?c (a, b) = fc_pair ?c (b, a)"
    using ok unfolding registry_ok_def Let_def by blast+
  moreover have "set (fc_pair_list ?c) = dom (sy_pairs sy)"
    using listed by blast
  moreover have "sy_pairs sy p \<noteq> None \<longrightarrow> (\<exists>x y. x < y \<and> fc_pair ?c (x, y) = Some p)"
    using entry [of p] by (auto simp: pair_entry_def)
  ultimately show ?thesis
    unfolding factory_total_pairs_def factory_get_pair_def using count found by presburger
qed

theorem registry_is_truthful_witness:
  "\<exists>sy :: bank system. factory_total_pairs sy = 1 \<and> factory_get_pair sy (Address 2) (Address 1) =
     factory_get_pair sy (Address 1) (Address 2) \<and> dom (sy_pairs sy) = {Address 118}"
proof -
  obtain sy :: "bank system" where sy: "system_reachable ex_host bank_ops (Address 50) sy"
    "fc_pair_list (sy_factory sy) = [Address 118]"
    using ex_created by blast
  show ?thesis
    using registry_is_truthful [OF sy(1), of "Address 2" "Address 1" "Address 118"] sy(2) by auto
qed

text \<open>
  C29. Governance can only express an unambiguous fee configuration: in every reachable state a
  protocol fee is set exactly when a recipient is, it is at most 30 basis points, and an
  installed pair override lies between 1 and 100; so the answers a pair gets from its factory
  satisfy the bounds its arithmetic relies on. (\<open>ARCHITECTURE.md\<close> allows any rate without a
  recipient; \<open>set_fee_config\<close> refuses every rate but 0 there.)
\<close>

theorem fee_config_is_unambiguous:
  assumes "system_reachable h T self sy"
  shows "factory_view_typed (view_of (sy_factory sy)) \<and>
    0 \<le> factory_fee_bps sy \<and> factory_fee_bps sy \<le> 30 \<and>
    (factory_fee_to sy = None \<longleftrightarrow> factory_fee_bps sy = 0) \<and>
    (factory_get_pair_fee_override sy p = Some x \<longrightarrow> 1 \<le> x \<and> x \<le> 100)"
  using config_view [OF system_config [OF assms]]
  by (simp add: factory_get_pair_fee_override_def factory_fee_bps_def factory_fee_to_def)

theorem fee_config_is_unambiguous_witness:
  "factory_view_typed (view_of (sy_factory ex_sys1)) \<and> factory_fee_to ex_sys1 = None \<and>
   factory_fee_bps ex_sys1 = 0"
  using fee_config_is_unambiguous [OF ex_sys1_reachable, of "Address 118" 0]
  by (simp add: ex_fac_defs factory_fee_bps_def fee_bps_of_def)


section \<open>Governance\<close>

text \<open>The signers a governance call must present.\<close>

definition quorum :: "env \<Rightarrow> 'tok system \<Rightarrow> address list \<Rightarrow> bool" where
  "quorum e sy s \<longleftrightarrow> (\<exists>fs. fc_storage (sy_factory sy) = Some fs \<and> distinct s \<and>
     set s \<subseteq> set (fs_signers fs) \<and> length (fs_signers fs) < 2 * length s \<and> (\<forall>a \<in> set s. e_auth e a))"

lemma verify_multisig_quorum:
  assumes "fc_storage (sy_factory sy) = Some fs" "verify_multisig e (fs_signers fs) s = Inr u"
  shows "quorum e sy s"
  using assms by (auto simp: quorum_def verify_multisig_Inr)

text \<open>A sequence of factory calls; a call that fails changes nothing.\<close>

fun factory_run :: "host \<Rightarrow> (env \<times> factory_call) list \<Rightarrow> 'tok system \<Rightarrow> 'tok system" where
  "factory_run h [] sy = sy"
| "factory_run h ((e, op) # calls) sy =
     factory_run h calls (case factory_step h e op sy of Inl _ \<Rightarrow> sy | Inr sy' \<Rightarrow> sy')"

lemma factory_run_append [simp]:
  "factory_run h (xs @ ys) sy = factory_run h ys (factory_run h xs sy)"
  by (induction xs arbitrary: sy) auto

lemma factory_run_invariant:
  assumes "P sy" "\<And>e op sy sy'. P sy \<Longrightarrow> factory_step h e op sy = Inr sy' \<Longrightarrow> P sy'"
  shows "P (factory_run h calls sy)"
  using assms(1)
proof (induction calls arbitrary: sy)
  case (Cons call calls)
  show ?case
    by (cases call; cases "factory_step h (fst call) (snd call) sy")
      (use Cons assms(2) in auto)
qed simp

text \<open>What a call can do to the pending upgrade, the code and the signers.\<close>

lemma factory_step_signers:
  assumes "factory_step h e op sy = Inr sy'" "fc_storage (sy_factory sy) = Some fs"
  shows "\<exists>fs'. fc_storage (sy_factory sy') = Some fs' \<and> fs_signers fs' = fs_signers fs"
proof (cases op)
  case FC_execute_upgrade
  with assms(1) have "factory_execute_upgrade e sy = Inr sy'" by simp
  then show ?thesis
    by (cases rule: execute_upgrade_Inr) (use assms(2) in simp)
next
  case (FC_create_pair a b)
  then obtain p where "factory_create_pair h e a b sy = Inr (p, sy')"
    using assms(1) by (auto simp: res_inv)
  then show ?thesis
    by (cases rule: create_pair_Inr) (use assms(2) in \<open>simp add: register_pair_def Let_def\<close>)
next
  case (FC_freeze_pair s p)
  then show ?thesis
    using assms by (auto simp: factory_freeze_pair_def res_inv elim: set_pair_frozen_state_Inr)
next
  case (FC_unfreeze_pair s p)
  then show ?thesis
    using assms by (auto simp: factory_unfreeze_pair_def res_inv elim: set_pair_frozen_state_Inr)
qed (use assms in \<open>auto simp: factory_simple_defs factory_initialize_def relay_def on_pair_Inr
    factory_set_pair_lp_token_paused_def factory_set_pair_stale_threshold_def res_inv split: if_splits\<close>)

lemma factory_step_upgrade:
  assumes "factory_step h e op sy = Inr sy'"
  shows "(sy_code sy' = sy_code sy \<and>
      (fc_pending_upgrade (sy_factory sy') = fc_pending_upgrade (sy_factory sy) \<or>
       fc_pending_upgrade (sy_factory sy') = None)) \<or>
    (op = FC_execute_upgrade \<and> fc_pending_upgrade (sy_factory sy') = None \<and>
      (\<exists>pr. fc_pending_upgrade (sy_factory sy) = Some pr \<and> sy_code sy' = pu_new_wasm_hash pr \<and>
        pu_proposed_at_ledger pr + 51840 \<le> e_sequence e)) \<or>
    (\<exists>s w. op = FC_propose_upgrade s w \<and> quorum e sy s \<and> sy_code sy' = sy_code sy \<and>
      fc_pending_upgrade (sy_factory sy') =
        Some \<lparr>pu_new_wasm_hash = w, pu_proposed_at_ledger = e_sequence e\<rparr>)"
proof (cases op)
  case FC_execute_upgrade
  with assms have "factory_execute_upgrade e sy = Inr sy'" by simp
  then show ?thesis
    by (cases rule: execute_upgrade_Inr) (auto simp: FC_execute_upgrade max_def split: if_splits)
next
  case (FC_create_pair a b)
  then obtain p where "factory_create_pair h e a b sy = Inr (p, sy')"
    using assms by (auto simp: res_inv)
  then show ?thesis
    by (cases rule: create_pair_Inr) (simp add: register_pair_def Let_def)
next
  case (FC_freeze_pair s p)
  then show ?thesis
    using assms by (auto simp: factory_freeze_pair_def res_inv elim: set_pair_frozen_state_Inr)
next
  case (FC_unfreeze_pair s p)
  then show ?thesis
    using assms by (auto simp: factory_unfreeze_pair_def res_inv elim: set_pair_frozen_state_Inr)
next
  case (FC_propose_upgrade s w)
  then show ?thesis
    using assms verify_multisig_quorum
    by (auto simp: factory_propose_upgrade_def upgrade_propose_def bindR_Inr reject_Inr
        get_factory_storage_Inr)
qed (use assms in \<open>auto simp: factory_simple_defs factory_initialize_def relay_def on_pair_Inr
    factory_set_pair_lp_token_paused_def factory_set_pair_stale_threshold_def res_inv split: if_splits\<close>)


lemma pending_was_proposed:
  assumes "fc_pending_upgrade (sy_factory sy) = None"
    "fc_pending_upgrade (sy_factory (factory_run h calls sy)) = Some pr"
  shows "\<exists>xs e s ys. calls = xs @ (e, FC_propose_upgrade s (pu_new_wasm_hash pr)) # ys \<and>
    pu_proposed_at_ledger pr = e_sequence e \<and> quorum e (factory_run h xs sy) s"
  using assms(2)
proof (induction calls arbitrary: pr rule: rev_induct)
  case Nil
  then show ?case using assms(1) by simp
next
  case (snoc call calls)
  obtain e op where call: "call = (e, op)" by fastforce
  let ?sy = "factory_run h calls sy"
  show ?case
  proof (cases "fc_pending_upgrade (sy_factory ?sy) = Some pr")
    case True
    then show ?thesis
      using snoc.IH by fastforce
  next
    case False
    then obtain sy' where st: "factory_step h e op ?sy = Inr sy'" "fc_pending_upgrade (sy_factory sy') = Some pr"
      using snoc.prems by (auto simp: call split: sum.splits)
    then obtain s where "op = FC_propose_upgrade s (pu_new_wasm_hash pr)" "quorum e ?sy s"
      "pu_proposed_at_ledger pr = e_sequence e"
      using factory_step_upgrade [OF st(1)] False by auto
    then show ?thesis
      using call by blast
  qed
qed

text \<open>
  C21. The code of the factory is replaced only by an upgrade that a quorum of the signers proposed
  at least 51840 ledgers (about three days) before: whatever calls are made, if the last of them
  changes the code, it is \<open>execute_upgrade\<close>, and some earlier call proposed exactly the new code,
  with the authorisation of more than half of the signers registered then.
\<close>

theorem code_changes_after_timelock:
  assumes "fc_pending_upgrade (sy_factory sy) = None"
    and "sy_code (factory_run h (calls @ [(e, op)]) sy) \<noteq> sy_code (factory_run h calls sy)"
  shows "op = FC_execute_upgrade \<and>
    (\<exists>xs e0 s ys. calls = xs @ (e0, FC_propose_upgrade s (sy_code (factory_run h (calls @ [(e, op)]) sy))) # ys \<and>
       quorum e0 (factory_run h xs sy) s \<and> e_sequence e0 + 51840 \<le> e_sequence e)"
proof -
  let ?sy = "factory_run h calls sy"
  obtain sy' where st: "factory_step h e op ?sy = Inr sy'" and
    run: "factory_run h (calls @ [(e, op)]) sy = sy'" and "sy_code sy' \<noteq> sy_code ?sy"
    using assms(2) by (cases "factory_step h e op ?sy") auto
  then obtain pr where pr: "op = FC_execute_upgrade" "fc_pending_upgrade (sy_factory ?sy) = Some pr"
    "sy_code sy' = pu_new_wasm_hash pr" "pu_proposed_at_ledger pr + 51840 \<le> e_sequence e"
    using factory_step_upgrade [OF st] by auto
  show ?thesis
    using pending_was_proposed [OF assms(1) pr(2)] pr run by metis
qed

definition later_env :: env where
  "later_env = fac_env\<lparr>e_sequence := 111840\<rparr>"

definition ex_upgrade_calls :: "(env \<times> factory_call) list" where
  "ex_upgrade_calls = [(fac_env, FC_propose_upgrade [Address 10, Address 11] [7])]"

lemma ex_upgrade:
  "sy_code (factory_run ex_host (ex_upgrade_calls @ [(later_env, FC_execute_upgrade)]) ex_sys1) = [7]"
  "sy_code (factory_run ex_host ex_upgrade_calls ex_sys1) = [9]"
  by (simp_all add: ex_upgrade_calls_def later_env_def factory_propose_upgrade_def upgrade_propose_def
      factory_execute_upgrade_def upgrade_execute_def verify_multisig_def quorum_threshold_def
      get_factory_storage_def UPGRADE_DELAY_LEDGERS_def u32_saturating_sub_def in_u32_def u32_max_def
      set_factory_def set_factory_storage_def sy_emit_def Let_def ex_fac_defs)

theorem code_changes_after_timelock_witness:
  "\<exists>xs e0 s ys. ex_upgrade_calls = xs @ (e0, FC_propose_upgrade s [7]) # ys \<and>
     quorum e0 (factory_run ex_host xs ex_sys1) s \<and> e_sequence e0 + 51840 \<le> e_sequence later_env"
proof -
  have "fc_pending_upgrade (sy_factory ex_sys1) = None"
    by (simp add: ex_fac_defs)
  then show ?thesis
    using code_changes_after_timelock [of ex_sys1 ex_host ex_upgrade_calls later_env FC_execute_upgrade]
    unfolding ex_upgrade by simp
qed

text \<open>
  Any two quorums share a signer who authorised both calls, whatever list of signers was
  registered; so no two disjoint groups can both govern.
\<close>

lemma quorums_intersect:
  assumes "verify_multisig e1 registered s1 = Inr u1" "verify_multisig e2 registered s2 = Inr u2"
  shows "\<exists>a \<in> set registered. a \<in> set s1 \<and> a \<in> set s2 \<and> e_auth e1 a \<and> e_auth e2 a"
proof -
  have q: "set s1 \<subseteq> set registered" "set s2 \<subseteq> set registered" "card (set s1) = length s1"
    "card (set s2) = length s2" "length registered < length s1 + length s2"
    using assms by (auto simp: verify_multisig_Inr distinct_card)
  have "set s1 \<inter> set s2 \<noteq> {}"
  proof
    assume "set s1 \<inter> set s2 = {}"
    then have "length s1 + length s2 = card (set s1 \<union> set s2)"
      using q(3,4) by (simp add: card_Un_disjoint)
    also have "\<dots> \<le> card (set registered)"
      using q(1,2) by (intro card_mono) auto
    also have "\<dots> \<le> length registered"
      by (rule card_length)
    finally show False
      using q(5) by simp
  qed
  then show ?thesis
    using assms q(1) unfolding verify_multisig_Inr by blast
qed

text \<open>
  C38. The initialiser does not check that the signers are different. With a list in which at most
  half as many signers are distinct as there are entries, a quorum can never be reached: in no
  later state can the protocol be paused or resumed, a pair unfrozen, or an upgrade proposed or
  cancelled, whoever signs. (A list with more distinct signers, such as two out of three, can
  still reach a quorum.)
\<close>

theorem duplicate_signers_brick_governance:
  assumes "factory_initialize signers w1 w2 w3 setter sy0 = Inr sy1"
    and "card (set signers) \<le> length signers div 2"
    and "op \<in> {FC_pause s, FC_unpause s, FC_unfreeze_pair s p, FC_propose_upgrade s w, FC_cancel_upgrade s}"
  shows "\<exists>err. factory_step h e op (factory_run h calls sy1) = Inl err"
proof -
  let ?P = "\<lambda>sy :: 'a system. \<exists>fs. fc_storage (sy_factory sy) = Some fs \<and> fs_signers fs = signers"
  let ?sy = "factory_run h calls sy1"
  have "?P ?sy"
  proof (rule factory_run_invariant)
    show "?P sy1"
      using assms(1) by (auto simp: factory_initialize_def res_inv)
  qed (use factory_step_signers in metis)
  then obtain fs where fs: "fc_storage (sy_factory ?sy) = Some fs" "fs_signers fs = signers" by blast
  have "verify_multisig e signers s \<noteq> Inr u" for u
  proof
    assume "verify_multisig e signers s = Inr u"
    then have "length s \<le> card (set signers)" "length signers div 2 < length s"
      by (auto simp: verify_multisig_Inr simp flip: distinct_card intro!: card_mono)
    then show False
      using assms(2) by simp
  qed
  then have "factory_step h e op ?sy \<noteq> Inr sy'" for sy'
    using assms(3) fs by (auto simp: factory_simple_defs factory_unfreeze_pair_def bindR_Inr
        get_factory_storage_Inr)
  then show ?thesis
    by (cases "factory_step h e op ?sy") auto
qed

theorem duplicate_signers_brick_governance_witness:
  "\<exists>sy err. factory_initialize [Address 10, Address 10] [1] [2] [3] (Address 20) ex_sys0 = Inr sy \<and>
     factory_step ex_host fac_env (FC_pause [Address 10]) sy = Inl err"
proof -
  have "\<exists>sy. factory_initialize [Address 10, Address 10] [1] [2] [3] (Address 20) ex_sys0 = Inr sy"
    by (simp add: factory_initialize_def ex_fac_defs)
  then show ?thesis
    using duplicate_signers_brick_governance [where calls = "[]" and e = fac_env and h = ex_host and
        signers = "[Address 10, Address 10]" and op = "FC_pause [Address 10]" and s = "[Address 10]"]
    by fastforce
qed


section \<open>Freezing\<close>

lemma factory_step_frozen:
  assumes "factory_step h e op sy = Inr sy'"
    "fc_pair_frozen (sy_factory sy') p \<noteq> fc_pair_frozen (sy_factory sy) p"
  shows "(\<exists>s. op = FC_freeze_pair s p \<and> fc_pair_frozen (sy_factory sy') p = Some True \<and>
      (quorum e sy s \<or> (\<exists>setter. factory_fee_to_setter sy = Some setter \<and> s = [setter] \<and> e_auth e setter))) \<or>
    (\<exists>s. op = FC_unfreeze_pair s p \<and> fc_pair_frozen (sy_factory sy') p = None \<and> quorum e sy s)"
proof (cases "registry_neutral op")
  case True
  then show ?thesis
    using neutral_registry [OF assms(1)] assms(2) by (simp add: same_registry_def)
next
  case False
  then show ?thesis
  proof (cases op)
    case (FC_create_pair a b)
    then obtain q where "factory_create_pair h e a b sy = Inr (q, sy')"
      using assms by (auto simp: res_inv)
    then show ?thesis
      by (cases rule: create_pair_Inr) (use assms(2) in \<open>simp add: register_pair_def Let_def\<close>)
  next
    case (FC_freeze_pair s q)
    then obtain fs sy1 where *: "fc_storage (sy_factory sy) = Some fs"
      "set_pair_frozen_state e q True sy = Inr sy1" "sy_factory sy' = sy_factory sy1"
      "(s = [fs_fee_to_setter fs] \<and> e_auth e (fs_fee_to_setter fs)) \<or> verify_multisig e (fs_signers fs) s = Inr ()"
      using assms(1) by (auto simp: factory_freeze_pair_def bindR_Inr require_Inr get_factory_storage_Inr
          split: if_splits)
    then have "q = p \<and> fc_pair_frozen (sy_factory sy') p = Some True"
      using assms(2) by (auto elim!: set_pair_frozen_state_Inr split: if_splits)
    then show ?thesis
      using FC_freeze_pair * verify_multisig_quorum [OF *(1)] by (auto simp: factory_fee_to_setter_def)
  next
    case (FC_unfreeze_pair s q)
    then obtain fs sy1 where *: "fc_storage (sy_factory sy) = Some fs"
      "set_pair_frozen_state e q False sy = Inr sy1" "sy_factory sy' = sy_factory sy1"
      "verify_multisig e (fs_signers fs) s = Inr ()"
      using assms(1) by (auto simp: factory_unfreeze_pair_def bindR_Inr get_factory_storage_Inr)
    then have "q = p \<and> fc_pair_frozen (sy_factory sy') p = None"
      using assms(2) by (auto elim!: set_pair_frozen_state_Inr split: if_splits)
    then show ?thesis
      using FC_unfreeze_pair * verify_multisig_quorum [OF *(1)] by auto
  qed (use assms in \<open>auto simp: factory_initialize_def relay_def on_pair_Inr
      factory_set_pair_lp_token_paused_def factory_set_pair_stale_threshold_def res_inv split: if_splits\<close>)
qed

lemma reachable_frozen:
  assumes "system_reachable h T self sy" "sy_pairs sy p = Some c"
  shows "pc_frozen c = factory_is_pair_frozen (sy_factory sy) p"
  using registry_deployed(2) [OF system_registry [OF assms(1)] assms(2)] assms(2)
  by (auto simp: pair_entry_def)

text \<open>
  C22. A pool's own frozen flag is always the one its factory reports. A pool becomes frozen only by
  \<open>freeze_pair\<close> for it, authorised by the fee setter alone or by a quorum of the signers, and is
  released only by \<open>unfreeze_pair\<close> with a quorum: the setter cannot undo it. No call of a pool by
  anybody but the factory changes any pool's flag.
\<close>

theorem freezing_needs_authority:
  assumes "system_reachable h T self sy" "sy_pairs sy p = Some c"
  shows "pc_frozen c = factory_is_pair_frozen (sy_factory sy) p \<and>
    (\<forall>e op sy' c'. e_self e = self \<longrightarrow> factory_call_typed op \<longrightarrow> factory_step h e op sy = Inr sy' \<longrightarrow>
       sy_pairs sy' p = Some c' \<longrightarrow>
       (pc_frozen c' \<and> \<not> pc_frozen c \<longrightarrow> (\<exists>s. op = FC_freeze_pair s p \<and> (quorum e sy s \<or>
          (\<exists>setter. factory_fee_to_setter sy = Some setter \<and> s = [setter] \<and> e_auth e setter)))) \<and>
       (pc_frozen c \<and> \<not> pc_frozen c' \<longrightarrow> (\<exists>s. op = FC_unfreeze_pair s p \<and> quorum e sy s))) \<and>
    (\<forall>recv e op u sy' c'. \<not> e_auth e self \<longrightarrow> receiver_keeps recv \<longrightarrow>
       pool_call T recv e op sy = Inr (u, sy') \<longrightarrow> sy_pairs sy' p = Some c' \<longrightarrow> pc_frozen c' = pc_frozen c)"
proof -
  have flag: "pc_frozen c = factory_is_pair_frozen (sy_factory sy) p"
    using reachable_frozen [OF assms] .
  have gov: "(pc_frozen c' \<and> \<not> pc_frozen c \<longrightarrow> (\<exists>s. op = FC_freeze_pair s p \<and> (quorum e sy s \<or>
        (\<exists>setter. factory_fee_to_setter sy = Some setter \<and> s = [setter] \<and> e_auth e setter)))) \<and>
      (pc_frozen c \<and> \<not> pc_frozen c' \<longrightarrow> (\<exists>s. op = FC_unfreeze_pair s p \<and> quorum e sy s))"
    if step: "e_self e = self" "factory_call_typed op" "factory_step h e op sy = Inr sy'"
      "sy_pairs sy' p = Some c'" for e op sy' c'
  proof -
    have flag': "pc_frozen c' = factory_is_pair_frozen (sy_factory sy') p"
      using reachable_frozen [OF sys_factory [OF assms(1) step(1-3)] step(4)] .
    show ?thesis
    proof (cases "fc_pair_frozen (sy_factory sy') p = fc_pair_frozen (sy_factory sy) p")
      case True
      then show ?thesis
        using flag flag' by (simp add: factory_is_pair_frozen_def)
    next
      case False
      then show ?thesis
        using factory_step_frozen [OF step(3) False] flag flag' by (auto simp: factory_is_pair_frozen_def)
    qed
  qed
  have "pc_frozen c' = pc_frozen c"
    if step: "\<not> e_auth e self" "receiver_keeps recv" "pool_call T recv e op sy = Inr (u, sy')"
      "sy_pairs sy' p = Some c'" for recv e op u sy' c'
  proof -
    have "pc_frozen c' = factory_is_pair_frozen (sy_factory sy') p"
      using reachable_frozen [OF sys_pool [OF assms(1) step(1-3)] step(4)] .
    then show ?thesis
      using step(3) flag by (auto simp: pool_call_def on_pair_Inr)
  qed
  with flag gov show ?thesis
    by blast
qed

theorem freezing_needs_authority_witness:
  "\<exists>(sy :: bank system) c. sy_pairs sy (Address 118) = Some c \<and>
     pc_frozen c = factory_is_pair_frozen (sy_factory sy) (Address 118)"
proof -
  obtain sy :: "bank system" where sy: "system_reachable ex_host bank_ops (Address 50) sy"
    "fc_pair_list (sy_factory sy) = [Address 118]"
    using ex_created by blast
  obtain c where "sy_pairs sy (Address 118) = Some c"
    using system_registry [OF sy(1)] sy(2) by (auto simp: registry_ok_def pair_entry_def Let_def)
  then show ?thesis
    using freezing_needs_authority [OF sy(1), of "Address 118"] by blast
qed

section \<open>Two promises the deployment does not keep\<close>

text \<open>
  C39. The price oracle is never fed: in no reachable state does any pair answer a question for a
  time-weighted price, whatever the window and the ledger.
\<close>

theorem twap_is_never_served:
  assumes "system_reachable h T self sy" "sy_pairs sy p = Some c"
  shows "\<exists>err. pair_consult_twap e window (world_of sy c) = Inl err"
proof -
  have "pc_oracle c = empty_oracle"
    using registry_deployed(2) [OF system_registry [OF assms(1)] assms(2)] assms(2)
    by (auto simp: pair_entry_def)
  then have "pair_consult_twap e window (world_of sy c) \<noteq> Inr x" for x
    by (auto simp: pair_consult_twap_def consult_twap_def empty_oracle_def res_inv Let_def)
  then show ?thesis
    by (cases "pair_consult_twap e window (world_of sy c)") auto
qed

theorem twap_is_never_served_witness:
  "\<exists>(sy :: bank system) c err. sy_pairs sy (Address 118) = Some c \<and>
     pair_consult_twap fac_env 100 (world_of sy c) = Inl err"
proof -
  obtain sy :: "bank system" where sy: "system_reachable ex_host bank_ops (Address 50) sy"
    "fc_pair_list (sy_factory sy) = [Address 118]"
    using ex_created by blast
  obtain c where "sy_pairs sy (Address 118) = Some c"
    using system_registry [OF sy(1)] sy(2) by (auto simp: registry_ok_def pair_entry_def Let_def)
  then show ?thesis
    using twap_is_never_served [OF sy(1)] by blast
qed

text \<open>
  C40. The guard against pools of pools is inert where the host refuses re-entry: \<open>create_pair\<close> asks
  the new pair to check its tokens with the factory that is still on the call stack; the refusal
  is read as ``not a known contract'', so every pair with fresh addresses is created, LP tokens
  and pairs of the deployment included. On a host that allows the question, the same call with
  a registered pair or LP token fails.
\<close>

theorem circular_token_guard_needs_reentry:
  assumes "create_args_ok h e a b sy"
  shows "(\<not> h_reentry h \<longrightarrow> (\<exists>p sy'. factory_create_pair h e a b sy = Inr (p, sy'))) \<and>
    (h_reentry h \<longrightarrow>
       (\<exists>t \<in> {a, b}. factory_is_pair (sy_factory sy) t \<or> factory_is_lp_token (sy_factory sy) t) \<longrightarrow>
       (\<exists>err. factory_create_pair h e a b sy = Inl err))"
proof (intro conjI impI)
  assume "\<not> h_reentry h"
  then show "\<exists>p sy'. factory_create_pair h e a b sy = Inr (p, sy')"
    using create_pair_ok [OF assms] refused_view_knows_nothing [of "{a, b}"] by simp
next
  assume re: "h_reentry h"
    and t: "\<exists>t \<in> {a, b}. factory_is_pair (sy_factory sy) t \<or> factory_is_lp_token (sy_factory sy) t"
  have "factory_create_pair h e a b sy \<noteq> Inr (p, sy')" for p sy'
  proof
    assume "factory_create_pair h e a b sy = Inr (p, sy')"
    then show False
    proof (cases rule: create_pair_Inr)
      case (1 fs lp name symbol l w)
      have "token_is_known_contract (view_of (sy_factory sy)) (min a b) \<or>
          token_is_known_contract (view_of (sy_factory sy)) (max a b)"
        using t by (auto simp: token_is_known_contract_def view_of_def min_def max_def)
      then show False
        using 1(10) re by (auto simp: pair_initialize_def Let_def res_inv)
    qed
  qed
  then show "\<exists>err. factory_create_pair h e a b sy = Inl err"
    by (cases "factory_create_pair h e a b sy") auto
qed


lemma ex_created_maps:
  assumes "factory_create_pair ex_host fac_env (Address 1) (Address 2) ex_sys1 = Inr (Address 118, sy)"
  shows "dom (sy_pairs sy) = {Address 118}" "dom (sy_lps sy) = {Address 1988}"
    "dom (fc_pair (sy_factory sy)) = {(Address 1, Address 2), (Address 2, Address 1)}"
  using assms
  by (auto simp: factory_create_pair_def register_pair_def Let_def ex_fac_defs put_world_def
      pair_salt_def lp_salt_def less_address_def pair_initialize_def pair_deployed_def
      set_pair_state_def set_pair_def set_fee_state_def
      res_inv split: sum.splits prod.splits if_splits)

lemma ex_pool_of_lp_args:
  assumes "factory_create_pair ex_host fac_env (Address 1) (Address 2) ex_sys1 = Inr (Address 118, sy)"
    "fc_storage (sy_factory sy) = Some (ex_fs\<lparr>fs_pair_count := 1\<rparr>)"
  shows "create_args_ok ex_host fac_env (Address 3) (Address 1988) sy"
proof -
  have none: "x \<noteq> Address 118 \<Longrightarrow> sy_pairs sy x = None" "x \<noteq> Address 1988 \<Longrightarrow> sy_lps sy x = None"
    "fst k \<notin> {Address 1, Address 2} \<Longrightarrow> fc_pair (sy_factory sy) k = None" for x k
    using ex_created_maps [OF assms(1)] by (metis domIff singletonD, metis domIff singletonD,
        metis domIff fst_conv insertCI insertE singletonD)
  show ?thesis
    using assms(2)
    by (simp add: create_args_ok_def Let_def ex_host_def fac_env_def ex_fs_def pair_salt_def lp_salt_def
        address_free_def none min_def max_def less_address_def less_eq_address_def in_u32_def u32_max_def)
qed

theorem circular_token_guard_needs_reentry_witness:
  "\<exists>(sy :: bank system) p sy'. factory_is_lp_token (sy_factory sy) (Address 1988) \<and>
     factory_create_pair ex_host fac_env (Address 3) (Address 1988) sy = Inr (p, sy')"
proof -
  obtain sy where sy: "factory_create_pair ex_host fac_env (Address 1) (Address 2) ex_sys1 = Inr (Address 118, sy)"
    "fc_is_lp_token (sy_factory sy) (Address 1988) = Some True"
    "fc_storage (sy_factory sy) = Some (ex_fs\<lparr>fs_pair_count := 1\<rparr>)"
    using ex_created by blast
  moreover have "\<not> h_reentry ex_host"
    by (simp add: ex_host_def)
  ultimately have "factory_is_lp_token (sy_factory sy) (Address 1988)"
    "\<exists>p sy'. factory_create_pair ex_host fac_env (Address 3) (Address 1988) sy = Inr (p, sy')"
    using circular_token_guard_needs_reentry [OF ex_pool_of_lp_args [OF sy(1,3)]]
    by (simp_all add: factory_is_lp_token_def)
  then show ?thesis by blast
qed

end
