(* ===== verification/Factory_Pages.thy ===== *)
theory Factory_Pages
  imports Factory_Props
begin

text \<open>
  What an indexer relies on (\<open>get_all_pairs\<close>, \<open>get_pair_address\<close> of \<open>factory/src/lib.rs\<close>): pages
  list every pair once, in an order that later deployments never change, and the address of a
  pool can be computed before it exists.
\<close>

section \<open>The deployment moves on\<close>

text \<open>One move of the deployment, by anybody: the steps of \<open>system_reachable\<close>.\<close>

inductive system_move :: "host \<Rightarrow> 'tok token_ops \<Rightarrow> address \<Rightarrow> 'tok system \<Rightarrow> 'tok system \<Rightarrow> bool"
  for h T self where
  move_factory: "e_self e = self \<Longrightarrow> factory_call_typed op \<Longrightarrow> factory_step h e op sy = Inr sy' \<Longrightarrow>
     system_move h T self sy sy'"
| move_pool: "\<not> e_auth e self \<Longrightarrow> receiver_keeps recv \<Longrightarrow> pool_call T recv e op sy = Inr (u, sy') \<Longrightarrow>
     system_move h T self sy sy'"
| move_lp: "sy_lps sy t = Some l \<Longrightarrow> (\<forall>a. lp_admin l = Some a \<longrightarrow> \<not> e_auth e a) \<Longrightarrow>
     lp_step c e lop l = Inr l' \<Longrightarrow> system_move h T self sy (sy\<lparr>sy_lps := (sy_lps sy)(t \<mapsto> l')\<rparr>)"
| move_tok: "system_move h T self sy (sy\<lparr>sy_tok := tok\<rparr>)"

abbreviation system_moves :: "host \<Rightarrow> 'tok token_ops \<Rightarrow> address \<Rightarrow> 'tok system \<Rightarrow> 'tok system \<Rightarrow> bool" where
  "system_moves h T self \<equiv> rtranclp (system_move h T self)"

inductive_cases system_moveE: "system_move h T self sy sy'"

lemma system_move_reachable:
  "system_move h T self sy sy' \<Longrightarrow> system_reachable h T self sy \<Longrightarrow> system_reachable h T self sy'"
  by (erule system_moveE) (blast intro: system_reachable.intros)+

lemma system_moves_reachable:
  "system_moves h T self sy sy' \<Longrightarrow> system_reachable h T self sy \<Longrightarrow> system_reachable h T self sy'"
  by (induction rule: rtranclp_induct) (blast intro: system_move_reachable)+

text \<open>Only \<open>create_pair\<close> touches the lookup table and the list of pairs.\<close>

lemma frozen_state_lookup:
  "set_pair_frozen_state e p f sy = Inr sy' \<Longrightarrow>
    fc_pair (sy_factory sy') = fc_pair (sy_factory sy) \<and> fc_pair_list (sy_factory sy') = fc_pair_list (sy_factory sy)"
  by (erule set_pair_frozen_state_Inr) simp

lemma relay_lookup:
  "relay h p f sy = Inr sy' \<Longrightarrow> sy_factory sy' = sy_factory sy"
  by (auto simp: relay_def res_inv on_pair_Inr split: if_splits)

lemma factory_step_lookup:
  assumes "factory_step h e op sy = Inr sy'"
  obtains "fc_pair (sy_factory sy') = fc_pair (sy_factory sy)" "fc_pair_list (sy_factory sy') = fc_pair_list (sy_factory sy)"
  | a b p where "op = FC_create_pair a b" "factory_create_pair h e a b sy = Inr (p, sy')"
proof (cases "registry_neutral op")
  case True
  then show thesis
    using neutral_registry [OF assms] that(1) by (simp add: same_registry_def)
next
  case False
  from False show thesis
    using assms that
    by (cases op) (auto simp: factory_initialize_def factory_freeze_pair_def factory_unfreeze_pair_def
        factory_set_pair_lp_token_paused_def factory_set_pair_stale_threshold_def res_inv
        dest!: frozen_state_lookup relay_lookup)
qed

lemma pool_call_factory: "pool_call T recv e op sy = Inr (u, sy') \<Longrightarrow> sy_factory sy' = sy_factory sy"
  by (auto simp: pool_call_def on_pair_Inr)

text \<open>The pair a creation adds, at the address the salt determines.\<close>

abbreviation predicted_address :: "host \<Rightarrow> address \<Rightarrow> address \<Rightarrow> address \<Rightarrow> address" where
  "predicted_address h self a b \<equiv> h_contract_address h self (pair_salt h (min a b) (max a b))"

lemma create_pair_lookup:
  assumes "factory_create_pair h e a b sy = Inr (p, sy')" "registry_ok (e_self e) sy"
  shows "a \<noteq> b" "p = predicted_address h (e_self e) a b"
    "fc_pair_list (sy_factory sy') = fc_pair_list (sy_factory sy) @ [p]"
    "fc_pair (sy_factory sy') (u, v) = (if {u, v} = {a, b} then Some p else fc_pair (sy_factory sy) (u, v))"
    "{u, v} = {a, b} \<Longrightarrow> fc_pair (sy_factory sy) (u, v) = None"
proof -
  have sym: "fc_pair (sy_factory sy) (x, y) = fc_pair (sy_factory sy) (y, x)" for x y
    using assms(2) unfolding registry_ok_def Let_def by blast
  from assms(1) show "a \<noteq> b" "p = predicted_address h (e_self e) a b"
    "fc_pair_list (sy_factory sy') = fc_pair_list (sy_factory sy) @ [p]"
    "fc_pair (sy_factory sy') (u, v) = (if {u, v} = {a, b} then Some p else fc_pair (sy_factory sy) (u, v))"
    by (cases rule: create_pair_Inr;
        auto simp: register_pair_fields register_pair_lookup doubleton_eq_iff min_def max_def split: if_splits)+
  have "fc_pair (sy_factory sy) (min a b, max a b) = None"
    using assms(1) by (cases rule: create_pair_Inr)
  then show "{u, v} = {a, b} \<Longrightarrow> fc_pair (sy_factory sy) (u, v) = None"
    using sym [of a b] by (auto simp: doubleton_eq_iff min_def max_def split: if_splits)
qed

text \<open>The registry only grows, at the end.\<close>

definition registry_grows :: "factory_state \<Rightarrow> factory_state \<Rightarrow> bool" where
  "registry_grows c c' \<longleftrightarrow> (\<exists>ps. fc_pair_list c' = fc_pair_list c @ ps) \<and>
     (\<forall>a b p. fc_pair c (a, b) = Some p \<longrightarrow> fc_pair c' (a, b) = Some p)"

lemma registry_grows_refl [simp]: "registry_grows c c"
  by (simp add: registry_grows_def)

lemma registry_grows_trans: "registry_grows c c' \<Longrightarrow> registry_grows c' c'' \<Longrightarrow> registry_grows c c''"
  unfolding registry_grows_def by (metis append_assoc)

lemma system_move_grows:
  assumes "system_move h T self sy sy'" "system_reachable h T self sy"
  shows "registry_grows (sy_factory sy) (sy_factory sy')"
  using assms(1)
proof (cases rule: system_move.cases)
  case (move_factory e op)
  from move_factory(3) show ?thesis
  proof (cases rule: factory_step_lookup)
    case (2 a b p)
    note created = create_pair_lookup [OF 2(2), unfolded move_factory(1), OF system_registry [OF assms(2)]]
    have "fc_pair (sy_factory sy') (u, v) = Some q" if "fc_pair (sy_factory sy) (u, v) = Some q" for u v q
      using created(4,5) [of u v] that by auto
    then show ?thesis
      using created(3) by (simp add: registry_grows_def)
  qed (simp add: registry_grows_def)
qed (auto dest: pool_call_factory)

lemma system_moves_grow:
  assumes "system_moves h T self sy sy'" "system_reachable h T self sy"
  shows "registry_grows (sy_factory sy) (sy_factory sy')"
  using assms
proof (induction rule: rtranclp_induct)
  case (step y z)
  then show ?case
    using system_move_grows system_moves_reachable registry_grows_trans by metis
qed simp

text \<open>Every registered pair is where its tokens say.\<close>

lemma registered_address:
  assumes "system_reachable h T self sy" "fc_pair (sy_factory sy) (a, b) = Some p"
  shows "a \<noteq> b \<and> p = predicted_address h self a b"
  using assms
proof (induction arbitrary: a b p)
  case (sys_factory sy e op sy')
  from sys_factory.hyps(4) show ?case
  proof (cases rule: factory_step_lookup)
    case (2 x y q)
    note created = create_pair_lookup [OF 2(2), unfolded sys_factory.hyps(2), OF system_registry [OF sys_factory.hyps(1)]]
    show ?thesis
    proof (cases "{a, b} = {x, y}")
      case True
      then have "p = q" "min a b = min x y" "max a b = max x y" "a \<noteq> b"
        using created(1) created(4) [of a b] sys_factory.prems by (auto simp: doubleton_eq_iff min.commute max.commute)
      then show ?thesis
        using created(2) by simp
    next
      case False
      then show ?thesis
        using created(4) [of a b] sys_factory.prems by (intro sys_factory.IH) simp
    qed
  qed (use sys_factory in simp)
next
  case (sys_pool sy e recv op u sy')
  then show ?case using pool_call_factory [OF sys_pool.hyps(4)] by simp
qed (simp_all add: factory_empty_def)

section \<open>Pages\<close>

lemma get_all_pairs_page:
  assumes "0 \<le> offset" "0 \<le> limit" "limit \<le> 50" "offset + limit \<le> u32_max"
  shows "factory_get_all_pairs offset limit sy = Inr (take (nat limit) (drop (nat offset) (fc_pair_list (sy_factory sy))))"
proof -
  let ?l = "fc_pair_list (sy_factory sy)"
  obtain o' k where ok: "offset = int o'" "limit = int k"
    using assms(1,2) nonneg_int_cases by metis
  have "nat (min (int o' + int k) (int (length ?l))) = min (o' + k) (length ?l)"
    by simp
  then have "map ((!) ?l) [nat offset..<nat (min (offset + limit) (int (length ?l)))] = take (nat limit) (drop (nat offset) ?l)"
    if "nat offset < length ?l"
    using that unfolding ok by (intro nth_equalityI) (auto simp: less_diff_conv add.commute)
  then show ?thesis
    using assms by (simp add: factory_get_all_pairs_def reject_def require_def in_u32_def Let_def)
qed

text \<open>A page whose end is out of the range of \<open>u32\<close> is not empty but a panic.\<close>

lemma get_all_pairs_overflow:
  "limit \<le> 50 \<Longrightarrow> u32_max < offset + limit \<Longrightarrow> factory_get_all_pairs offset limit sy = Inl Panic"
  by (simp add: factory_get_all_pairs_def reject_def require_def in_u32_def Let_def)

lemma concat_pages:
  "length xs \<le> n * k \<Longrightarrow> concat (map (\<lambda>i. take k (drop (i * k) xs)) [0..<n]) = xs"
proof (induction n arbitrary: xs)
  case (Suc n)
  have "map (\<lambda>i. take k (drop (i * k) xs)) [0..<Suc n] =
      take k xs # map (\<lambda>i. take k (drop (i * k) (drop k xs))) [0..<n]"
    by (simp only: upt_conv_Cons [OF zero_less_Suc] map_Suc_upt [symmetric] list.map map_map)
      (simp add: o_def drop_drop add.commute)
  then show ?case
    using Suc.IH [of "drop k xs"] Suc.prems by simp
qed simp

section \<open>Properties\<close>

text \<open>
  C12. Pages are stable and complete. For a page size of 1 to 50, reading as many pages as the
  registry needs yields every deployed pair exactly once; and however the deployment moves on, a
  page that was full is answered the same again.
\<close>

theorem pages_list_every_pair_once:
  assumes "system_reachable h T self sy" "0 < limit" "limit \<le> 50"
    and "factory_total_pairs sy \<le> int n * limit" "int n * limit \<le> u32_max"
    and "system_moves h T self sy sy'"
  shows "\<exists>pages. (\<forall>i < n. factory_get_all_pairs (int i * limit) limit sy = Inr (pages i)) \<and>
    distinct (concat (map pages [0..<n])) \<and> set (concat (map pages [0..<n])) = dom (sy_pairs sy) \<and>
    (\<forall>i < n. int (length (pages i)) = limit \<longrightarrow> factory_get_all_pairs (int i * limit) limit sy' = Inr (pages i))"
proof -
  define pages where "pages v i = take (nat limit) (drop (nat (int i * limit)) (fc_pair_list (sy_factory v)))"
    for v :: "'a system" and i
  have ok: "registry_ok self sy"
    using assms(1) by (rule system_registry)
  have "int i * limit + limit \<le> u32_max" if "i < n" for i
  proof -
    have "(int i + 1) * limit \<le> int n * limit"
      using that assms(2) by (intro mult_right_mono) auto
    then show ?thesis
      using assms(5) by (simp add: algebra_simps)
  qed
  then have page: "factory_get_all_pairs (int i * limit) limit v = Inr (pages v i)" if "i < n" for i and v :: "'a system"
    using get_all_pairs_page [of "int i * limit" limit v] that assms(2,3) by (simp add: pages_def)
  have "int (length (fc_pair_list (sy_factory sy))) \<le> int (n * nat limit)"
    using assms(2,4) ok by (simp add: factory_total_pairs_def registry_ok_def Let_def)
  moreover have "pages sy = (\<lambda>i. take (nat limit) (drop (i * nat limit) (fc_pair_list (sy_factory sy))))"
    by (simp add: pages_def nat_mult_distrib fun_eq_iff)
  ultimately have "concat (map (pages sy) [0..<n]) = fc_pair_list (sy_factory sy)"
    using concat_pages [of "fc_pair_list (sy_factory sy)" n "nat limit"] by (simp only: of_nat_le_iff)
  moreover have "distinct (fc_pair_list (sy_factory sy))" "set (fc_pair_list (sy_factory sy)) = dom (sy_pairs sy)"
    using ok by (fastforce simp: registry_ok_def pair_entry_def Let_def)+
  moreover have "pages sy' i = pages sy i" if "int (length (pages sy i)) = limit" for i
    using system_moves_grow [OF assms(6,1)] that assms(2) by (auto simp: pages_def registry_grows_def)
  ultimately show ?thesis
    using page by (intro exI [of _ "pages sy"]) simp
qed

theorem pages_list_every_pair_once_witness:
  "\<exists>(sy :: bank system) pages. factory_get_all_pairs 0 1 sy = Inr (pages (0 :: nat)) \<and>
     factory_get_all_pairs 1 1 sy = Inr (pages 1) \<and>
     set (pages 0 @ pages 1) = dom (sy_pairs sy) \<and> fc_pair_list (sy_factory sy) = [Address 118]"
proof -
  note One_nat_def [simp del]
  obtain sy :: "bank system" where sy: "system_reachable ex_host bank_ops (Address 50) sy"
    "fc_pair_list (sy_factory sy) = [Address 118]"
    using ex_created by blast
  have "factory_total_pairs sy \<le> int 2 * 1"
    using system_registry [OF sy(1)] sy(2) by (simp add: factory_total_pairs_def registry_ok_def Let_def)
  from pages_list_every_pair_once [OF sy(1) _ _ this _ rtranclp.rtrancl_refl]
  obtain pages where pages: "\<forall>i < 2. factory_get_all_pairs (int i * 1) 1 sy = Inr (pages i)"
      "set (concat (map pages [0..<2])) = dom (sy_pairs sy)"
    by (auto simp: u32_max_def)
  have "factory_get_all_pairs 0 1 sy = Inr (pages 0)" "factory_get_all_pairs 1 1 sy = Inr (pages 1)"
    using pages(1) [rule_format, of 0] pages(1) [rule_format, of 1] by simp_all
  moreover have "set (pages 0 @ pages 1) = dom (sy_pairs sy)"
    using pages(2) by (simp add: upt_rec One_nat_def)
  ultimately show ?thesis
    using sy(2) by blast
qed

text \<open>
  C11. Pools are where they are predicted. The address that \<open>get_pair_address\<close> computes without
  looking at the registry is the address of every pair that any state of the deployment has
  registered for the two tokens, in either order, and it is where a creation puts a new one; a
  registered pair is never replaced.
\<close>

theorem predicted_address_is_final:
  assumes "system_reachable h T self sy" "e_self e = self" "system_moves h T self sy sy'"
  shows "(factory_get_pair sy a b = Some p \<longrightarrow>
      factory_get_pair_address h e a b = Inr p \<and> factory_get_pair_address h e b a = Inr p \<and> factory_get_pair sy' a b = Some p) \<and>
    (factory_create_pair h e a b sy = Inr (p, sy2) \<longrightarrow> factory_get_pair_address h e a b = Inr p \<and> factory_get_pair sy a b = None)"
proof -
  have predicted: "factory_get_pair_address h e x y = Inr (predicted_address h self x y)" if "x \<noteq> y" for x y
    using that assms(2) by (auto simp: factory_get_pair_address_def reject_def min_def max_def not_less le_less)
  have "factory_get_pair_address h e a b = Inr p \<and> factory_get_pair_address h e b a = Inr p" "factory_get_pair sy' a b = Some p"
    if "factory_get_pair sy a b = Some p"
    using registered_address [OF assms(1)] system_moves_grow [OF assms(3,1)] that predicted [of a b] predicted [of b a]
    by (auto simp: factory_get_pair_def registry_grows_def min.commute max.commute)
  moreover have "factory_get_pair_address h e a b = Inr p \<and> factory_get_pair sy a b = None"
    if "factory_create_pair h e a b sy = Inr (p, sy2)"
    using create_pair_lookup [OF that, unfolded assms(2), OF system_registry [OF assms(1)]] predicted
    by (auto simp: factory_get_pair_def)
  ultimately show ?thesis
    by blast
qed

theorem predicted_address_is_final_witness:
  "\<exists>(sy :: bank system). factory_get_pair_address ex_host fac_env (Address 2) (Address 1) = Inr (Address 118) \<and>
     factory_create_pair ex_host fac_env (Address 1) (Address 2) ex_sys1 = Inr (Address 118, sy) \<and>
     factory_get_pair sy (Address 1) (Address 2) = Some (Address 118)"
proof -
  note One_nat_def [simp del]
  obtain sy :: "bank system" where sy: "factory_create_pair ex_host fac_env (Address 1) (Address 2) ex_sys1 = Inr (Address 118, sy)"
    "system_reachable ex_host bank_ops (Address 50) sy"
    using ex_created by blast
  have found: "factory_get_pair sy (Address 1) (Address 2) = Some (Address 118)"
    using create_pair_lookup(4) [OF sy(1), of "Address 1" "Address 2"] system_registry [OF ex_sys1_reachable]
    by (simp add: factory_get_pair_def)
  show ?thesis
    using predicted_address_is_final [OF sy(2) fac_self rtranclp.rtrancl_refl] found sy(1) by blast
qed

end
