(* ===== verification/Factory_Events.thy ===== *)
theory Factory_Events
  imports Factory_State
begin

text \<open>
  \<open>factory/src/events.rs\<close>: the topics under which the factory publishes its events, and the
  naming convention that the source checks at compile time.
\<close>

text \<open>The first topic of each event; the events of a pair are the pair's own.\<close>

fun event_topic :: "system_event \<Rightarrow> string option" where
  "event_topic (FE_created a b p n) = Some ''created''"
| "event_topic FE_paused = Some ''paused''"
| "event_topic FE_unpaused = Some ''unpaused''"
| "event_topic FE_resumed = Some ''resumed''"
| "event_topic (FE_sync b n) = Some ''sync''"
| "event_topic (FE_pair_frozen p by n) = Some ''pair_frozen_event''"
| "event_topic (FE_pair_unfrozen p by n) = Some ''pair_unfrozen_event''"
| "event_topic (FE_prop_upg h) = Some ''prop_upg''"
| "event_topic (FE_upgraded v) = Some ''upgraded''"
| "event_topic (FE_fee_to r) = Some ''fee_to''"
| "event_topic (FE_setter a) = Some ''setter''"
| "event_topic (FE_fee_upd x y r) = Some ''fee_upd''"
| "event_topic (FE_pair_fee p x y n) = Some ''pair_fee''"
| "event_topic (FE_protocol_fee_collected t x) = Some ''protocol_fee_collected''"
| "event_topic (SE_pair p ev) = None"

section \<open>The naming convention\<close>

text \<open>\<open>is_ascii_lowercase\<close>, \<open>is_ascii_digit\<close> or an underscore, on the byte of the character.\<close>

definition convention_char :: "char \<Rightarrow> bool" where
  "convention_char c \<longleftrightarrow>
     (let b = (of_char c :: nat) in 97 \<le> b \<and> b \<le> 122 \<or> 48 \<le> b \<and> b \<le> 57 \<or> b = 95)"

text \<open>The loop over the bytes of the name.\<close>

function convention_loop :: "string \<Rightarrow> nat \<Rightarrow> bool" where
  "convention_loop bytes i =
     (if i < length bytes then
        if \<not> convention_char (bytes ! i) then False else convention_loop bytes (i + 1)
      else True)"
  by pat_completeness auto

termination by (relation "measure (\<lambda>(bytes, i). length bytes - i)") auto

declare convention_loop.simps [simp del]

definition is_convention_symbol :: "string \<Rightarrow> bool" where
  "is_convention_symbol name = (if name = [] then False else convention_loop name 0)"

definition checked_symbols :: "string list" where
  "checked_symbols = [''created'', ''paused'', ''unpaused'', ''prop_upg'', ''upgraded'', ''fee_to'',
     ''setter'', ''fee_upd'', ''pair_fee'', ''protocol_fee_collected'', ''pair_frozen_event'',
     ''pair_unfrozen_event'']"

lemma convention_loop_drop: "convention_loop bytes i \<longleftrightarrow> (\<forall>c \<in> set (drop i bytes). convention_char c)"
proof (induction bytes i rule: convention_loop.induct)
  case (1 bytes i)
  show ?case
  proof (cases "i < length bytes")
    case True
    then have "set (drop i bytes) = insert (bytes ! i) (set (drop (i + 1) bytes))"
      by (simp add: Cons_nth_drop_Suc [symmetric])
    then show ?thesis
      using 1 True by (subst convention_loop.simps) auto
  qed (subst convention_loop.simps, simp)
qed

text \<open>The check accepts exactly the non-empty names of lower-case letters, digits and underscores.\<close>

lemma is_convention_symbol_iff:
  "is_convention_symbol name \<longleftrightarrow> name \<noteq> [] \<and> (\<forall>c \<in> set name. convention_char c)"
  by (simp add: is_convention_symbol_def convention_loop_drop)

text \<open>The assertions of the source hold, and every topic of the factory follows the convention.\<close>

lemma checked_symbols_ok: "\<forall>s \<in> set checked_symbols. is_convention_symbol s"
  by (simp add: checked_symbols_def is_convention_symbol_iff convention_char_def)

lemma event_topics_ok: "event_topic ev = Some s \<Longrightarrow> is_convention_symbol s"
  by (cases ev) (auto simp: is_convention_symbol_iff convention_char_def)

text \<open>
  The list is meant to mirror every topic that is emitted; two events are missing from it.
\<close>

lemma unchecked_topics:
  "(\<exists>s. event_topic ev = Some s \<and> s \<notin> set checked_symbols) \<longleftrightarrow> ev = FE_resumed \<or> (\<exists>b n. ev = FE_sync b n)"
  by (cases ev) (auto simp: checked_symbols_def)

end
