(* ===== verification/Router_Quotes.thy ===== *)
theory Router_Quotes
  imports Router
begin

text \<open>
  What the router's quotes promise, for any factory and pairs it may be connected to: the forward
  and the backward walk over a path are adjoint, the minimum of every hop is implied by the
  minimum of the path, the path found is the best candidate, and a deposit keeps the ratio of
  the pool.
\<close>

section \<open>One hop\<close>

lemma get_amount_out_Inr:
  "get_amount_out x r_in r_out fee = Inr y \<longleftrightarrow> quote_output_amount x r_in r_out fee = Inr y"
  by (simp add: get_amount_out_def map_errR_Inr)

lemma get_amount_in_Inr:
  "get_amount_in t r_in r_out fee = Inr x \<longleftrightarrow> quote_input_amount t r_in r_out fee = Inr x"
  by (simp add: get_amount_in_def map_errR_Inr)

lemma hop_adjoint:
  assumes "get_amount_in t r_in r_out fee = Inr x" "get_amount_out y r_in r_out fee = Inr z"
  shows "t \<le> z \<longleftrightarrow> x \<le> y"
  using quote_input_adjoint [of t r_in r_out fee x y] quote_output_spec [of y r_in r_out fee z] assms
  by (simp add: get_amount_in_Inr get_amount_out_Inr)

text \<open>
  What was quoted forwards can be quoted backwards: nothing overflows, because the product of the
  reserves fits in an \<open>i128\<close>.
\<close>

lemma backward_quote_exists:
  assumes "quote_output_amount y r_in r_out fee = Inr z" "0 < t" "t \<le> z" "in_i128 (r_in * r_out)" "0 \<le> fee"
  shows "\<exists>x. quote_input_amount t r_in r_out fee = Inr x \<and> x \<le> y"
proof -
  note out = quote_output_spec [OF assms(1)]
  define N D where "N = r_in * t * 10000" and "D = (r_out - t) * (10000 - fee)"
  have t: "t < r_out"
    using cp_output_less_reserve [of y r_in r_out fee] out assms(3) by simp
  have D: "0 < D"
    using t out(4) by (simp add: D_def)
  have "r_in * t \<le> r_in * r_out" "r_out \<le> r_in * r_out"
    using out(2,3) t by (simp_all add: mult_le_cancel_right1)
  then have bounds: "r_in * t \<le> i128_max" "r_out \<le> i128_max"
    using assms(4) by (auto simp: in_i128_def)
  have "D \<le> r_out * 10000"
    unfolding D_def using assms(2,5) t out(4) by (intro mult_mono) auto
  then have fits: "r_in * t \<le> u256_max" "N \<le> u256_max" "D \<le> u256_max"
    using bounds by (simp_all add: N_def u256_max_def i128_max_def)
  have "t \<le> cp_output y r_in r_out fee"
    using out(6) assms(3) by simp
  then have y: "N \<le> y * D"
    using cp_output_ge_iff [of y r_in fee t r_out] out by (simp add: N_def D_def mult.commute mult.left_commute)
  define x where "x = N div D + (if N mod D \<noteq> 0 then 1 else 0)"
  have "x \<le> y"
  proof (cases "N mod D = 0")
    case True
    then have "x * D = N"
      by (auto simp: x_def)
    then show ?thesis
      using y D mult_le_cancel_right_pos [of D x y] by simp
  next
    case False
    then have "N \<noteq> y * D"
      by auto
    then show ?thesis
      using floor_less_iff [OF D, of N y] y False by (simp add: x_def)
  qed
  moreover have "y \<le> y * ((10000 - fee) * r_out)"
    using out(1,3,4) by (simp add: mult_le_cancel_left1) (smt (verit) mult_pos_pos)
  then have "y \<le> i128_max"
    using out(7) by (simp add: in_i128_def mult.assoc)
  ultimately have "quote_input_amount t r_in r_out fee = Inr x"
    using assms(2) out(2,3,4) t fits
    by (simp add: quote_input_amount_def fee_factor_def BPS_DENOMINATOR_def u256_checked_mul_def Let_def
        reject_def ok_or_def x_def N_def D_def)
  with \<open>x \<le> y\<close> show ?thesis by blast
qed

text \<open>What the lookups of a hop establish.\<close>

lemma hop_pool_spec:
  assumes "hop_pool cl f w a b = Inr (r_in, r_out, fee)"
  shows "0 < r_in" "0 < r_out" "in_i128 (r_in * r_out)" "fee \<le> 100" "a \<noteq> b"
    "\<exists>p over. cl_effective_fee cl p w = Some (fee, over)"
  using assms
  by (auto simp: hop_pool_def get_pair_reserves_and_fee_def sort_tokens_def res_inv i128_checked_mul_def
      mult.commute split: if_splits)

section \<open>Paths\<close>

text \<open>The type of a fee is \<open>u32\<close>.\<close>

definition fees_typed :: "'w clients \<Rightarrow> 'w \<Rightarrow> bool" where
  "fees_typed cl w \<longleftrightarrow> (\<forall>p fee over. cl_effective_fee cl p w = Some (fee, over) \<longrightarrow> 0 \<le> fee)"

lemma hops_out_Cons:
  "hops_out cl f w (a # b # path) x = Inr amounts \<longleftrightarrow>
    (\<exists>r_in r_out fee y ys. hop_pool cl f w a b = Inr (r_in, r_out, fee) \<and>
       get_amount_out x r_in r_out fee = Inr y \<and> hops_out cl f w (b # path) y = Inr ys \<and>
       amounts = y # ys)"
  by (auto simp: res_inv)

lemma path_adjoint:
  assumes "hops_required cl f w path t = Inr (req, x)" "hops_out cl f w path y = Inr amounts" "path \<noteq> []"
  shows "t \<le> last (y # amounts) \<longleftrightarrow> x \<le> y"
  using assms
proof (induction path arbitrary: req x y amounts rule: induct_list012)
  case (3 a b path)
  obtain req' cur r_in r_out fee where bwd: "hops_required cl f w (b # path) t = Inr (req', cur)"
    "hop_pool cl f w a b = Inr (r_in, r_out, fee)" "get_amount_in cur r_in r_out fee = Inr x"
    using "3.prems"(1) by (auto simp: res_inv)
  obtain z zs where fwd: "get_amount_out y r_in r_out fee = Inr z"
    "hops_out cl f w (b # path) z = Inr zs" "amounts = z # zs"
    using "3.prems"(2) bwd(2) unfolding hops_out_Cons by auto
  have "t \<le> last (z # zs) \<longleftrightarrow> cur \<le> z"
    using "3.IH"(2) [OF bwd(1) fwd(2)] by simp
  then show ?case
    using hop_adjoint [OF bwd(3) fwd(1)] fwd(3) by simp
qed auto

lemma path_minimums_met:
  assumes "hops_out cl f w path x = Inr amounts" "path \<noteq> []" "m \<le> last (x # amounts)" "fees_typed cl w"
  shows "\<exists>mins cur. hops_minimum cl f w path m = Inr (mins, cur) \<and> cur \<le> x \<and> list_all2 (\<le>) mins amounts"
  using assms(1-3)
proof (induction path arbitrary: x amounts rule: induct_list012)
  case (3 a b path)
  obtain r_in r_out fee z zs where fwd: "hop_pool cl f w a b = Inr (r_in, r_out, fee)"
    "get_amount_out x r_in r_out fee = Inr z" "hops_out cl f w (b # path) z = Inr zs" "amounts = z # zs"
    using "3.prems"(1) unfolding hops_out_Cons by auto
  obtain mins cur where bwd: "hops_minimum cl f w (b # path) m = Inr (mins, cur)" "cur \<le> z"
    "list_all2 (\<le>) mins zs"
    using "3.IH"(2) [OF fwd(3)] "3.prems"(3) fwd(4) by auto
  have z: "quote_output_amount x r_in r_out fee = Inr z"
    using fwd(2) by (simp add: get_amount_out_Inr)
  have fee: "0 \<le> fee" and fit: "in_i128 (r_in * r_out)"
    using hop_pool_spec [OF fwd(1)] assms(4) by (auto simp: fees_typed_def)
  show ?case
  proof (cases "cur \<le> 0")
    case True
    then show ?thesis
      using bwd fwd quote_output_spec(1) [OF z] by simp
  next
    case False
    then obtain x' where "quote_input_amount cur r_in r_out fee = Inr x'" "x' \<le> x"
      using backward_quote_exists [OF z _ bwd(2) fit fee] by auto
    then show ?thesis
      using bwd fwd False by (simp add: get_amount_in_Inr [symmetric])
  qed
qed auto


lemma length_hops_out:
  "hops_out cl f w path x = Inr amounts \<Longrightarrow> length amounts = length path - 1"
  by (induction path arbitrary: x amounts rule: induct_list012) (auto simp: res_inv)

section \<open>The best path\<close>

lemma collect_results_Inr:
  "collect_results ms = Inr xs \<longleftrightarrow> list_all2 (\<lambda>m x. m = Inr x) ms xs"
  by (induction ms arbitrary: xs) (auto simp: res_inv list_all2_Cons1)

lemma chain_out_positive:
  assumes "chain_out pools x = Inr (Some out)" "0 < x"
  shows "0 < out"
  using assms
proof (induction pools arbitrary: x)
  case (Cons pool pools)
  obtain r_in r_out fee where "pool = (r_in, r_out, fee)"
    by (cases pool)
  then obtain y where "quote_output_amount x r_in r_out fee = Inr y" "chain_out pools y = Inr (Some out)"
    using Cons.prems(1) by (auto simp: res_inv get_amount_out_Inr split: option.splits)
  then show ?case
    using Cons.IH quote_output_spec(5) by blast
qed simp

lemma route_out_Some:
  assumes "route_out cl f w x path = Inr (Some out)"
  obtains pools where "list_all2 (\<lambda>(a, b) pool. hop_pool cl f w a b = Inr pool) (zip path (tl path)) pools"
    "chain_out pools x = Inr (Some out)"
proof -
  let ?hops = "zip path (tl path)"
  obtain pairs pools where *: "list_all2 (\<lambda>m q. m = Inr q)
      (map (\<lambda>(a, b). attempt (get_pair_address cl f w a b)) ?hops) pairs" "None \<notin> set pairs"
    "list_all2 (\<lambda>m q. m = Inr q) (map (\<lambda>(p, a, b). attempt (get_pair_reserves_and_fee cl w p a b))
      (zip (map the pairs) ?hops)) pools" "None \<notin> set pools" "chain_out (map the pools) x = Inr (Some out)"
    using assms unfolding route_out_def Let_def bindR_Inr collect_results_Inr
    by (auto simp: bindR_Inr collect_results_Inr split: if_splits)
  have len: "length pairs = length ?hops" "length pools = length ?hops"
    using *(1,3) by (auto dest!: list_all2_lengthD)
  have "(\<lambda>(a, b) pool. hop_pool cl f w a b = Inr pool) (?hops ! i) (map the pools ! i)"
    if i: "i < length ?hops" for i
  proof -
    obtain a b where ab: "?hops ! i = (a, b)" by fastforce
    have "attempt (get_pair_address cl f w a b) = Inr (pairs ! i)"
      using *(1) i len ab unfolding list_all2_conv_all_nth by (metis (mono_tags) length_map nth_map case_prod_conv)
    moreover have "pairs ! i \<noteq> None" "pools ! i \<noteq> None"
      using *(2,4) i len by (metis nth_mem)+
    moreover have "attempt (get_pair_reserves_and_fee cl w (the (pairs ! i)) a b) = Inr (pools ! i)"
      using *(3) i len ab unfolding list_all2_conv_all_nth by (auto dest!: spec [of _ i])
    ultimately show ?thesis
      using i len ab by (auto simp: attempt_Inr hop_pool_def)
  qed
  then have "list_all2 (\<lambda>(a, b) pool. hop_pool cl f w a b = Inr pool) ?hops (map the pools)"
    using len by (simp add: list_all2_conv_all_nth)
  then show ?thesis
    using *(5) that by blast
qed

lemma chain_hops_out:
  assumes "list_all2 (\<lambda>(a, b) pool. hop_pool cl f w a b = Inr pool) (zip path (tl path)) pools"
    "chain_out pools x = Inr (Some out)"
  shows "\<exists>amounts. hops_out cl f w path x = Inr amounts \<and> last (x # amounts) = out"
  using assms
proof (induction path arbitrary: x pools rule: induct_list012)
  case (3 a b path)
  obtain r_in r_out fee pools' where pools: "pools = (r_in, r_out, fee) # pools'"
    "hop_pool cl f w a b = Inr (r_in, r_out, fee)"
    "list_all2 (\<lambda>(a, b) pool. hop_pool cl f w a b = Inr pool) (zip (b # path) path) pools'"
    using "3.prems"(1) by (auto simp: list_all2_Cons1)
  then obtain y where y: "get_amount_out x r_in r_out fee = Inr y" "chain_out pools' y = Inr (Some out)"
    using "3.prems"(2) by (auto simp: res_inv split: option.splits)
  obtain ys where "hops_out cl f w (b # path) y = Inr ys" "last (y # ys) = out"
    using "3.IH"(2) [of pools' y] pools(3) y(2) by auto
  then show ?case
    using hops_out_Cons [of cl f w a b path x "y # ys"] pools(2) y(1) by auto
qed auto

text \<open>The expected output of a candidate is what quoting it along the path gives.\<close>

lemma route_quote:
  assumes "route_out cl f w x path = Inr (Some out)" "2 \<le> length path"
  shows "\<exists>amounts. get_path_amounts_out cl f w path x = Inr amounts \<and> last amounts = out"
  using assms(1)
proof (rule route_out_Some)
  fix pools
  assume "list_all2 (\<lambda>(a, b) pool. hop_pool cl f w a b = Inr pool) (zip path (tl path)) pools"
    "chain_out pools x = Inr (Some out)"
  then obtain amounts where amounts: "hops_out cl f w path x = Inr amounts" "last (x # amounts) = out"
    using chain_hops_out by metis
  moreover have "amounts \<noteq> []"
    using length_hops_out [OF amounts(1)] assms(2) by auto
  ultimately show ?thesis
    using assms(2) by (auto simp: get_path_amounts_out_def reject_def)
qed

text \<open>The search keeps the best result seen.\<close>

lemma improve_route_Inr:
  assumes "improve_route expected paths best = Inr best'"
  shows "(best' = best \<or> (fst best' \<in> set paths \<and> expected (fst best') = Inr (Some (snd best')))) \<and>
    snd best \<le> snd best' \<and>
    (\<forall>p \<in> set paths. \<exists>r. expected p = Inr r \<and> (\<forall>out. r = Some out \<longrightarrow> out \<le> snd best'))"
  using assms
proof (induction paths arbitrary: best)
  case (Cons p paths)
  obtain bp bo where best: "best = (bp, bo)" by fastforce
  obtain r where r: "expected p = Inr r"
    "improve_route expected paths
       (case r of Some out \<Rightarrow> if out > bo then (p, out) else (bp, bo) | None \<Rightarrow> (bp, bo)) = Inr best'"
    using Cons.prems unfolding best improve_route.simps bindR_Inr by auto
  show ?case
    using Cons.IH [OF r(2)] r(1) best by (auto split: option.splits if_splits)
qed simp

definition candidate_paths :: "router_state \<Rightarrow> address \<Rightarrow> address \<Rightarrow> address list list" where
  "candidate_paths rs token_in token_out = [token_in, token_out]
     # two_hop_paths (get_hubs rs) token_in token_out @ three_hop_paths (get_hubs rs) token_in token_out"


section \<open>Properties\<close>

text \<open>
  C20. Quoting a path backwards and forwards is adjoint: when the exact-out walk requires the input
  \<open>x\<close> for the output \<open>t\<close>, any input \<open>y\<close> that can be quoted forwards over the same pools yields at
  least \<open>t\<close> exactly when it is at least \<open>x\<close>. So the required input suffices, and it is the least.
\<close>

theorem path_quotes_are_adjoint:
  assumes "hops_required cl f w path t = Inr (required, x)"
    and "get_path_amounts_out cl f w path y = Inr amounts"
  shows "t \<le> last amounts \<longleftrightarrow> x \<le> y"
proof -
  have "2 \<le> length path" and out: "hops_out cl f w path y = Inr amounts"
    using assms(2) by (auto simp: get_path_amounts_out_def res_inv)
  then have "path \<noteq> []" "amounts \<noteq> []"
    using length_hops_out [OF out] by auto
  then show ?thesis
    using path_adjoint [OF assms(1) out] by simp
qed

text \<open>Three tokens and two pools; the third token's pool is smaller and dearer.\<close>

definition ex_clients :: "unit clients" where
  "ex_clients = \<lparr>
     cl_get_pair = (\<lambda>f a b w. Some (
       if {a, b} = {Address 1, Address 2} then Some (Address 12)
       else if {a, b} = {Address 2, Address 3} then Some (Address 23)
       else if {a, b} = {Address 1, Address 3} then Some (Address 13) else None)),
     cl_is_pair = (\<lambda>f p w. Some True), cl_fee_to_setter = (\<lambda>f w. Some (Some (Address 20))),
     cl_get_reserves = (\<lambda>p w. if p = Address 13 then Some (1000000, 500000, 0) else Some (1000000, 1000000, 0)),
     cl_effective_fee = (\<lambda>p w. Some (30, False)),
     cl_swap = (\<lambda>e p x y to w. Some w), cl_mint = (\<lambda>e p to w. Some (0, w)),
     cl_deposit_lp = (\<lambda>e p who x w. Some w), cl_burn = (\<lambda>e p to w. Some ((0, 0), w)),
     cl_transfer = (\<lambda>e tk f t x w. Some w), cl_balance = (\<lambda>tk a w. 0)\<rparr>"

lemma ex_pools:
  "hop_pool ex_clients f w (Address 1) (Address 2) = Inr (1000000, 1000000, 30)"
  "hop_pool ex_clients f w (Address 2) (Address 3) = Inr (1000000, 1000000, 30)"
  "get_pair_address ex_clients f w (Address 1) (Address 2) = Inr (Address 12)"
  "get_pair_address ex_clients f w (Address 2) (Address 3) = Inr (Address 23)"
  "get_pair_address ex_clients f w (Address 1) (Address 3) = Inr (Address 13)"
  by (simp_all add: hop_pool_def get_pair_address_def get_pair_reserves_and_fee_def sort_tokens_def
      ex_clients_def doubleton_eq_iff or_panic_def ok_or_def reject_def
      i128_checked_mul_def int_ops_defs)

lemma ex_out:
  "get_amount_out 100000 1000000 1000000 30 = Inr 90661"
  "get_amount_out 90661 1000000 1000000 30 = Inr 82896"
  by (simp_all add: get_amount_out_def map_errR_def quote_output_amount_def fee_factor_def policy_defs
      int_ops_defs)

lemma ex_in:
  "get_amount_in 82896 1000000 1000000 30 = Inr 90661"
  "get_amount_in 90661 1000000 1000000 30 = Inr 100000"
  by (simp_all add: get_amount_in_def map_errR_def quote_input_amount_def fee_factor_def policy_defs
      int_ops_defs u256_defs)

abbreviation ex_path :: "address list" where
  "ex_path \<equiv> [Address 1, Address 2, Address 3]"

lemma ex_path_amounts:
  "get_path_amounts_out ex_clients f w ex_path 100000 = Inr [90661, 82896]"
  by (simp add: get_path_amounts_out_def ex_pools ex_out del: One_nat_def)

lemma ex_path_required:
  "hops_required ex_clients f w ex_path 82896 = Inr ([100000, 90661], 100000)"
  by (simp add: ex_pools ex_in del: One_nat_def)

theorem path_quotes_are_adjoint_witness:
  "(82896::int) \<le> last [90661, 82896] \<longleftrightarrow> (100000::int) \<le> 100000"
  by (rule path_quotes_are_adjoint [OF ex_path_required [of "Address 50" "()"] ex_path_amounts])

text \<open>The exact-in swap without the backward walk.\<close>

definition multi_hop_global_minimum ::
  "'w clients \<Rightarrow> env \<Rightarrow> address list \<Rightarrow> int \<Rightarrow> int \<Rightarrow> address \<Rightarrow> int \<Rightarrow> int option \<Rightarrow> router_state \<Rightarrow> 'w \<Rightarrow>
     (router_error, int \<times> 'w) res" where
  "multi_hop_global_minimum cl e path amount_in amount_out_min to deadline deadline_ledger rs w =
     bindR (check_deadline e deadline deadline_ledger) (\<lambda>_.
     reject (amount_in \<le> 0) R_ZeroAmount (
     bindR (hop_count path) (\<lambda>hops.
     bindR (get_router_factory rs) (\<lambda>factory.
     bindR (get_path_amounts_out cl factory w path amount_in) (\<lambda>amounts.
     let final_out = amounts ! (length amounts - 1) in
     reject (final_out < amount_out_min) R_InsufficientOutputAmount (
     require (e_auth e to) (
     bindR (pay_first_pool cl e factory to path amount_in w) (\<lambda>w1.
     bindR (run_hops cl e factory to path amounts w1) (\<lambda>w2.
     let token_in = path ! 0; dust = cl_balance cl token_in (e_self e) w2 in
     bindR (if dust > 0 then or_panic (cl_transfer cl e token_in (e_self e) to dust w2)
            else Inr w2) (\<lambda>w3.
     Inr (final_out, w3)))))))))))"

lemma minimum_check_passes:
  assumes "get_path_amounts_out cl f w path x = Inr amounts" "m \<le> last amounts" "fees_typed cl w"
  shows "\<exists>mins. get_path_minimums cl f w path m = Inr mins \<and>
    (\<forall>i < length path - 1. mins ! i \<le> amounts ! i)"
proof -
  have len: "2 \<le> length path" and out: "hops_out cl f w path x = Inr amounts"
    using assms(1) by (auto simp: get_path_amounts_out_def res_inv)
  note n = length_hops_out [OF out]
  have "path \<noteq> []" "amounts \<noteq> []"
    using len n by auto
  then obtain mins cur where "hops_minimum cl f w path m = Inr (mins, cur)" "list_all2 (\<le>) mins amounts"
    using path_minimums_met [OF out, of m] assms(2,3) by auto
  then show ?thesis
    using len n by (auto simp: get_path_minimums_def reject_def list_all2_conv_all_nth)
qed

text \<open>
  The per-hop minimums of the exact-in swap never bind: whenever the path can be quoted and its
  last amount meets the minimum, the backward walk succeeds and every hop meets what it derives.
  The swap is therefore the same function with that walk and its loop left out; only the global
  minimum protects the caller.
\<close>

lemma hop_minimums_never_bind:
  assumes "fees_typed cl w"
  shows "swap_exact_tokens_multi_hop cl e path amount_in amount_out_min to deadline deadline_ledger rs w =
    multi_hop_global_minimum cl e path amount_in amount_out_min to deadline deadline_ledger rs w"
proof (cases "\<exists>factory amounts hops. check_deadline e deadline deadline_ledger = Inr () \<and> 0 < amount_in \<and>
    hop_count path = Inr hops \<and> get_router_factory rs = Inr factory \<and>
    get_path_amounts_out cl factory w path amount_in = Inr amounts \<and> amount_out_min \<le> last amounts")
  case True
  then obtain factory amounts hops where ok: "check_deadline e deadline deadline_ledger = Inr ()"
    "0 < amount_in" "hop_count path = Inr hops" "get_router_factory rs = Inr factory"
    "get_path_amounts_out cl factory w path amount_in = Inr amounts" "amount_out_min \<le> last amounts"
    by blast
  then obtain mins where mins: "get_path_minimums cl factory w path amount_out_min = Inr mins"
    "\<forall>i < length path - 1. mins ! i \<le> amounts ! i"
    using minimum_check_passes [OF ok(5,6) assms] by blast
  have "path \<noteq> []" and hops: "hops = length path - 1"
    using ok(3) by (auto simp: hop_count_def res_inv Let_def)
  moreover have "amounts \<noteq> []"
    using ok(5) length_hops_out [of cl factory w path amount_in amounts]
    by (auto simp: get_path_amounts_out_def res_inv)
  moreover have "\<not> (\<exists>i \<in> set [0..<hops]. amounts ! i < mins ! i)"
    using mins(2) hops by (auto simp: not_less)
  ultimately show ?thesis
    using ok mins(1)
    by (simp add: swap_exact_tokens_multi_hop_def multi_hop_global_minimum_def reject_def Let_def last_conv_nth)
next
  case False
  have "last amounts = amounts ! (length amounts - 1)"
    if "get_path_amounts_out cl factory w path amount_in = Inr amounts" for factory amounts
    using that length_hops_out [of cl factory w path amount_in amounts]
    by (intro last_conv_nth) (auto simp: get_path_amounts_out_def res_inv)
  then show ?thesis
    using False
    by (fastforce simp: swap_exact_tokens_multi_hop_def multi_hop_global_minimum_def reject_def
        bindR_def Let_def not_le not_less split: sum.splits)
qed

text \<open>The three stages of the search, together.\<close>

lemma search_stages:
  assumes "expected direct_path = Inr direct"
    "improve_route expected two (case direct of Some out \<Rightarrow> (direct_path, out) | None \<Rightarrow> ([], - 1)) = Inr b1"
    "improve_route expected three b1 = Inr (path, out)"
    "p \<in> set (direct_path # two @ three)"
  shows "(out = - 1 \<or> (path \<in> set (direct_path # two @ three) \<and> expected path = Inr (Some out))) \<and>
    (\<exists>r. expected p = Inr r \<and> (\<forall>o'. r = Some o' \<longrightarrow> o' \<le> out))"
proof -
  note i1 = improve_route_Inr [OF assms(2)] and i2 = improve_route_Inr [OF assms(3)]
  have "(snd b1 = - 1 \<or> (fst b1 \<in> set (direct_path # two) \<and> expected (fst b1) = Inr (Some (snd b1))))
      \<and> (\<forall>o'. direct = Some o' \<longrightarrow> o' \<le> snd b1)"
    using i1 assms(1) by (cases direct) auto
  moreover have "snd b1 \<le> out" "(path, out) = b1 \<or> (path \<in> set three \<and> expected path = Inr (Some out))"
    using i2 by auto
  moreover have "\<exists>r. expected p = Inr r \<and> (\<forall>o'. r = Some o' \<longrightarrow> o' \<le> out)"
  proof -
    consider "p = direct_path" | "p \<in> set two" | "p \<in> set three"
      using assms(4) by auto
    then show ?thesis
    proof cases
      case 1
      then show ?thesis using calculation(1,2) assms(1) by force
    next
      case 2
      then obtain r where "expected p = Inr r" "\<forall>o'. r = Some o' \<longrightarrow> o' \<le> snd b1"
        using i1 by blast
      then show ?thesis using calculation(2) by force
    next
      case 3
      then show ?thesis using i2 by simp
    qed
  qed
  ultimately show ?thesis by auto
qed

text \<open>The search returns no error of its own: failing candidates are skipped.\<close>

lemma bindR_Err:
  "bindR m k = Inl (Err er) \<longleftrightarrow> m = Inl (Err er) \<or> (\<exists>x. m = Inr x \<and> k x = Inl (Err er))"
  by (cases m) auto

lemma collect_results_Err:
  "collect_results ms = Inl (Err er) \<Longrightarrow> Inl (Err er) \<in> set ms"
  by (induction ms) (auto simp: bindR_Err)

lemma attempt_no_error [simp]: "attempt m \<noteq> Inl (Err er)" "Inl (Err er) \<noteq> attempt m"
  by (auto simp: attempt_def split: sum.splits fault.splits)

lemma chain_out_no_error [simp]: "chain_out pools x \<noteq> Inl (Err er)"
proof (induction pools arbitrary: x)
  case (Cons pool pools)
  then show ?case
    by (cases pool) (auto simp: bindR_Err split: option.splits)
qed simp

lemma route_out_no_error [simp]: "route_out cl f w x path \<noteq> Inl (Err er)"
proof -
  have *: "collect_results (map (\<lambda>h. attempt (g h)) hs) \<noteq> Inl (Err er)" for g :: "'b \<Rightarrow> (router_error, 'c) res" and hs
    using collect_results_Err [of "map (\<lambda>h. attempt (g h)) hs" er] by auto
  show ?thesis
    unfolding route_out_def Let_def case_prod_beta bindR_Err by (simp add: * bindR_Err)
qed

lemma improve_route_no_error:
  "(\<And>p. expected p \<noteq> Inl (Err er)) \<Longrightarrow> improve_route expected paths best \<noteq> Inl (Err er)"
proof (induction paths arbitrary: best)
  case (Cons p paths)
  then show ?case
    by (cases best) (auto simp: bindR_Err)
qed simp

text \<open>The search, as its three stages.\<close>

definition first_best :: "address list \<Rightarrow> int option \<Rightarrow> address list \<times> int" where
  "first_best path direct = (case direct of Some out \<Rightarrow> (path, out) | None \<Rightarrow> ([], - 1))"

lemma get_best_path_stages:
  assumes "rs_factory rs = Some f" "token_in \<noteq> token_out" "0 < x"
  shows "get_best_path cl rs w token_in token_out x =
    bindR (route_out cl f w x [token_in, token_out]) (\<lambda>direct.
    bindR (improve_route (route_out cl f w x) (two_hop_paths (get_hubs rs) token_in token_out)
      (first_best [token_in, token_out] direct)) (\<lambda>best.
    bindR (improve_route (route_out cl f w x) (three_hop_paths (get_hubs rs) token_in token_out) best) (\<lambda>(path, out).
    reject (out < 0) R_PairNotFound (Inr (path, out)))))"
  using assms by (simp add: get_best_path_def get_router_factory_def first_best_def reject_def ok_or_def Let_def)

lemma candidate_shape:
  assumes "p \<in> set (candidate_paths rs token_in token_out)"
  shows "2 \<le> length p" "p \<in> set ([token_in, token_out] #
    two_hop_paths (get_hubs rs) token_in token_out @ three_hop_paths (get_hubs rs) token_in token_out)"
  using assms by (auto simp: candidate_paths_def two_hop_paths_def three_hop_paths_def)

lemma get_best_path_Inr:
  assumes "get_best_path cl rs w token_in token_out x = Inr (path, out)" "rs_factory rs = Some f"
  shows "0 < x" "path \<in> set (candidate_paths rs token_in token_out)" "0 < out"
    "\<exists>amounts. get_path_amounts_out cl f w path x = Inr amounts \<and> last amounts = out"
    "\<forall>p \<in> set (candidate_paths rs token_in token_out). \<forall>o'. route_out cl f w x p = Inr (Some o') \<longrightarrow> o' \<le> out"
proof -
  let ?route = "route_out cl f w x" and ?cands = "set (candidate_paths rs token_in token_out)"
  have ok: "token_in \<noteq> token_out" and x: "0 < x"
    using assms(1) by (simp_all add: get_best_path_def res_inv)
  obtain direct b1 where st: "?route [token_in, token_out] = Inr direct"
    "improve_route ?route (two_hop_paths (get_hubs rs) token_in token_out) (first_best [token_in, token_out] direct) = Inr b1"
    "improve_route ?route (three_hop_paths (get_hubs rs) token_in token_out) b1 = Inr (path, out)" "0 \<le> out"
    using assms(1) unfolding get_best_path_stages [OF assms(2) ok x] by (auto simp: res_inv)
  note stages = search_stages [OF st(1) st(2) [unfolded first_best_def] st(3)]
  show cand: "path \<in> ?cands"
    using stages [of "[token_in, token_out]"] st(4) by (auto simp: candidate_paths_def)
  have route: "?route path = Inr (Some out)"
    using stages [of "[token_in, token_out]"] st(4) by auto
  show "\<forall>p \<in> ?cands. \<forall>o'. ?route p = Inr (Some o') \<longrightarrow> o' \<le> out"
    using stages [OF candidate_shape(2)] by fastforce
  show "\<exists>amounts. get_path_amounts_out cl f w path x = Inr amounts \<and> last amounts = out"
    by (rule route_quote [OF route candidate_shape(1) [OF cand]])
  show "0 < out" "0 < x"
    using route x by (auto elim!: route_out_Some dest: chain_out_positive)
qed

lemma get_best_path_Err:
  assumes "get_best_path cl rs w token_in token_out x = Inl (Err er)" "rs_factory rs = Some f"
    "token_in \<noteq> token_out" "0 < x" "p \<in> set (candidate_paths rs token_in token_out)"
  shows "er = R_PairNotFound" "route_out cl f w x p = Inr None"
proof -
  let ?route = "route_out cl f w x"
  obtain direct b1 path out where st: "?route [token_in, token_out] = Inr direct"
    "improve_route ?route (two_hop_paths (get_hubs rs) token_in token_out) (first_best [token_in, token_out] direct) = Inr b1"
    "improve_route ?route (three_hop_paths (get_hubs rs) token_in token_out) b1 = Inr (path, out)"
    "out < 0" "er = R_PairNotFound"
    using assms(1) unfolding get_best_path_stages [OF assms(2-4)] bindR_Err
    using improve_route_no_error [of ?route er] by (auto simp: reject_def split: if_splits)
  show "er = R_PairNotFound" by fact
  obtain r where r: "?route p = Inr r" "\<forall>o'. r = Some o' \<longrightarrow> o' \<le> out"
    using search_stages [OF st(1) st(2) [unfolded first_best_def] st(3) candidate_shape(2) [OF assms(5)]] by blast
  show "?route p = Inr None"
  proof (cases r)
    case (Some o')
    then have "0 < o'"
      using r(1) assms(4) by (auto elim!: route_out_Some dest: chain_out_positive)
    with Some r(2) st(4) show ?thesis by simp
  qed (use r(1) in simp)
qed

text \<open>
  The path search is exhaustive: the result is a candidate (the direct pair, or one over one or
  two hubs), its amount is what quoting the path gives, and no other candidate that can be quoted
  promises more. When the search fails with \<open>PairNotFound\<close>, no candidate can be quoted at all.
\<close>

lemma best_path_is_best:
  assumes "rs_factory rs = Some f" "token_in \<noteq> token_out" "0 < x"
  shows "case get_best_path cl rs w token_in token_out x of
      Inr (path, out) \<Rightarrow> path \<in> set (candidate_paths rs token_in token_out) \<and> 0 < out \<and>
        (\<exists>amounts. get_path_amounts_out cl f w path x = Inr amounts \<and> last amounts = out) \<and>
        (\<forall>p \<in> set (candidate_paths rs token_in token_out). \<forall>o'.
           route_out cl f w x p = Inr (Some o') \<longrightarrow> o' \<le> out)
    | Inl (Err er) \<Rightarrow> er = R_PairNotFound \<and>
        (\<forall>p \<in> set (candidate_paths rs token_in token_out). route_out cl f w x p = Inr None)
    | Inl Panic \<Rightarrow> True"
proof (cases "get_best_path cl rs w token_in token_out x")
  case (Inl failure)
  show ?thesis
  proof (cases failure)
    case (Err er)
    note none = get_best_path_Err [OF Inl [unfolded Err] assms]
    have "[token_in, token_out] \<in> set (candidate_paths rs token_in token_out)"
      by (simp add: candidate_paths_def)
    then show ?thesis
      using Inl Err none by simp
  qed (use Inl in simp)
next
  case (Inr best)
  then show ?thesis
    using get_best_path_Inr [of cl rs w token_in token_out x "fst best" "snd best" f] assms(1) by (cases best) simp
qed

definition ex_router :: router_state where
  "ex_router = router_empty\<lparr>rs_factory := Some (Address 50), rs_hubs := Some [Address 2, Address 7]\<rparr>"

lemma ex_direct_route:
  "route_out ex_clients f () 100000 [Address 1, Address 3] = Inr (Some 45330)"
proof -
  have "get_pair_reserves_and_fee ex_clients () (Address 13) (Address 1) (Address 3) = Inr (1000000, 500000, 30)"
    by (simp add: get_pair_reserves_and_fee_def sort_tokens_def ex_clients_def ok_or_def reject_def
        i128_checked_mul_def int_ops_defs)
  moreover have "get_amount_out 100000 1000000 500000 30 = Inr 45330"
    by (simp add: get_amount_out_def map_errR_def quote_output_amount_def fee_factor_def policy_defs
        int_ops_defs)
  ultimately show ?thesis
    by (simp add: route_out_def ex_pools del: One_nat_def)
qed

lemma ex_best_path:
  "get_best_path ex_clients ex_router () (Address 1) (Address 3) 100000 = Inr (ex_path, 82896)"
proof -
  have pools: "get_pair_reserves_and_fee ex_clients () (Address 12) (Address 1) (Address 2) = Inr (1000000, 1000000, 30)"
    "get_pair_reserves_and_fee ex_clients () (Address 23) (Address 2) (Address 3) = Inr (1000000, 1000000, 30)"
    by (simp_all add: get_pair_reserves_and_fee_def sort_tokens_def ex_clients_def ok_or_def reject_def
        i128_checked_mul_def int_ops_defs)
  have none: "get_pair_address ex_clients f () (Address 1) (Address 7) = Inl (Err R_PairNotFound)"
    "get_pair_address ex_clients f () (Address 7) (Address 3) = Inl (Err R_PairNotFound)"
    "get_pair_address ex_clients f () (Address 2) (Address 7) = Inl (Err R_PairNotFound)"
    "get_pair_address ex_clients f () (Address 7) (Address 2) = Inl (Err R_PairNotFound)" for f
    by (simp_all add: get_pair_address_def ex_clients_def doubleton_eq_iff or_panic_def ok_or_def)
  have "route_out ex_clients f () 100000 ex_path = Inr (Some 82896)"
    "route_out ex_clients f () 100000 [Address 1, Address 7, Address 3] = Inr None"
    "route_out ex_clients f () 100000 [Address 1, Address 2, Address 7, Address 3] = Inr None"
    "route_out ex_clients f () 100000 [Address 1, Address 7, Address 2, Address 3] = Inr None" for f
    by (simp_all add: route_out_def ex_pools pools none ex_out del: One_nat_def)
  then show ?thesis
    using ex_direct_route
    by (simp add: get_best_path_def ex_router_def get_router_factory_def get_hubs_def two_hop_paths_def
        three_hop_paths_def reject_def ok_or_def Let_def upt_rec del: One_nat_def)
qed

text \<open>
  A deposit into a pool with reserves keeps its ratio: one of the two amounts is the desired
  one, the other is rounded down to the ratio of the reserves and never exceeds what was
  desired (on the second branch the code does not check this; it follows), and only the amount
  that was adjusted is compared with its minimum.
\<close>

lemma optimal_amounts_keep_ratio:
  assumes "compute_optimal_amounts a_des b_des a_min b_min r_a r_b = Inr (a, b)"
    and "0 < a_des" "0 < b_des" "0 < r_a" "0 < r_b"
  shows "0 \<le> a \<and> a \<le> a_des \<and> 0 \<le> b \<and> b \<le> b_des \<and>
    ((a = a_des \<and> b_min \<le> b \<and> b * r_a \<le> a * r_b \<and> a * r_b < (b + 1) * r_a) \<or>
     (b = b_des \<and> a_min \<le> a \<and> a * r_b \<le> b * r_a \<and> b * r_a < (a + 1) * r_b))"
proof -
  have div: "x sdiv r = x div r" if "0 \<le> x" "0 < r" for x r :: int
    using that by (simp add: sdiv_nonneg)
  have prods: "0 < a_des * r_b" "0 < b_des * r_a"
    using assms by simp_all
  consider (adjust_b) "a = a_des" "b = a_des * r_b div r_a" "b \<le> b_des" "b_min \<le> b"
    | (adjust_a) "b_des < a_des * r_b div r_a" "b = b_des" "a = b_des * r_a div r_b" "a_min \<le> a"
    using assms(1) prods assms(4,5)
    by (auto simp: compute_optimal_amounts_def i128_div_def res_inv chk_inv div not_less not_le
        split: if_splits)
  then show ?thesis
  proof cases
    case adjust_b
    have "0 \<le> b"
      using adjust_b(2) prods(1) assms(4) by (simp add: pos_imp_zdiv_nonneg_iff)
    then show ?thesis
      using adjust_b assms(2) floor_mult_le [OF assms(4), of "a_des * r_b"]
        floor_less_mult [OF assms(4), of "a_des * r_b"] by simp
  next
    case adjust_a
    have "(b_des + 1) * r_a \<le> a_des * r_b"
      using adjust_a(1) le_floor_iff [OF assms(4), of "b_des + 1" "a_des * r_b"] by simp
    then have "b_des * r_a < (a_des + 1) * r_b"
      using assms(4,5) by (simp add: algebra_simps)
    then have "a < a_des + 1"
      using adjust_a(3) floor_less_iff [OF assms(5), of "b_des * r_a" "a_des + 1"] by simp
    moreover have "0 \<le> a"
      using adjust_a(3) prods(2) assms(5) by (simp add: pos_imp_zdiv_nonneg_iff)
    ultimately show ?thesis
      using adjust_a assms(3) floor_mult_le [OF assms(5), of "b_des * r_a"]
        floor_less_mult [OF assms(5), of "b_des * r_a"] by simp
  qed
qed

lemma optimal_amounts_bounded:
  assumes "compute_optimal_amounts a_des b_des a_min b_min r_a r_b = Inr (a, b)"
    and "0 < a_des" "0 < b_des" "0 \<le> r_a" "0 \<le> r_b"
  shows "0 \<le> a \<and> a \<le> a_des \<and> 0 \<le> b \<and> b \<le> b_des \<and> (a = a_des \<or> b = b_des)"
proof (cases "0 < r_a \<and> 0 < r_b")
  case True
  then show ?thesis
    using optimal_amounts_keep_ratio [OF assms(1-3)] by blast
next
  case False
  then consider "r_a = 0" | "r_a \<noteq> 0" "r_b = 0"
    using assms(4,5) by linarith
  then show ?thesis
    using assms(1-3)
    by cases (auto simp: compute_optimal_amounts_def i128_div_def res_inv chk_inv sdiv_nonneg split: if_splits)
qed

text \<open>The two amounts stand in the ratio of the reserves, up to rounding one of them down.\<close>

definition in_ratio :: "int \<Rightarrow> int \<Rightarrow> int \<Rightarrow> int \<Rightarrow> bool" where
  "in_ratio a b r_a r_b \<longleftrightarrow>
     (b * r_a \<le> a * r_b \<and> a * r_b < (b + 1) * r_a) \<or> (a * r_b \<le> b * r_a \<and> b * r_a < (a + 1) * r_b)"

end
