(* ===== verification/Router_Net.thy ===== *)
theory Router_Net
  imports Router_Quotes Factory_Inv
begin

text \<open>
  The router on the repository's own factory and pairs. \<open>system_clients\<close> answers the router's
  calls with the model of the deployment. The locale \<open>pool_net\<close> states what the router's money
  flow relies on: transfers move exactly their amount, a swap pays its outputs to the
  recipient and touches no other outsider, and a lookup never names an outsider. Its lemmas say
  where every token of a routed swap ends up; the interpretation discharges the laws for the
  deployment.
\<close>

section \<open>Quoted amounts are positive\<close>

lemma hops_out_positive:
  "hops_out cl f w path x = Inr amounts \<Longrightarrow> \<forall>y \<in> set amounts. 0 < y"
proof (induction path arbitrary: x amounts rule: induct_list012)
  case (3 a b path)
  then show ?case
    using quote_output_spec(5) unfolding hops_out_Cons get_amount_out_Inr by fastforce
qed auto

lemma hops_required_positive:
  "hops_required cl f w path t = Inr (required, x) \<Longrightarrow> 0 < t \<Longrightarrow>
    length required = length path - 1 \<and> 0 < x \<and> (\<forall>y \<in> set required. 0 < y)"
proof (induction path arbitrary: x required rule: induct_list012)
  case (3 a b path)
  then obtain req cur r_in r_out fee where "hops_required cl f w (b # path) t = Inr (req, cur)"
    "quote_input_amount cur r_in r_out fee = Inr x" "required = x # req"
    by (auto simp: res_inv get_amount_in_Inr)
  then show ?case
    using "3.IH"(2) "3.prems"(2) quote_input_spec(5) [of cur r_in r_out fee x] by auto
qed auto

section \<open>The interface\<close>

locale pool_net =
  fixes cl :: "'w clients" and good :: "'w \<Rightarrow> bool" and outsider :: "'w \<Rightarrow> address \<Rightarrow> bool"
  assumes transfer_moves: "cl_transfer cl e tk f t x w = Some w' \<Longrightarrow>
      cl_balance cl tk' a w' =
        (if tk' = tk then moved f t x (\<lambda>b. cl_balance cl tk b w) a else cl_balance cl tk' a w)"
    and transfer_keeps: "cl_transfer cl e tk f t x w = Some w' \<Longrightarrow>
      good w' = good w \<and> outsider w' = outsider w"
    and swap_keeps: "cl_swap cl e p x y to w = Some w' \<Longrightarrow> good w \<Longrightarrow> good w' \<and> outsider w' = outsider w"
    and swap_pays: "cl_swap cl e p x y to w = Some w' \<Longrightarrow> good w \<Longrightarrow> outsider w a \<Longrightarrow>
      cl_get_pair cl fac t0 t1 w = Some (Some p) \<Longrightarrow>
      cl_balance cl tk a w' = cl_balance cl tk a w +
        (if a = to then (if tk = min t0 t1 then max 0 x else 0) + (if tk = max t0 t1 then max 0 y else 0) else 0)"
    and pools_inside: "good w \<Longrightarrow> cl_get_pair cl fac t0 t1 w = Some (Some p) \<Longrightarrow> \<not> outsider w p"
begin

text \<open>One hop: the recipient gets the output, and nothing else moves among outsiders.\<close>

lemma hop_pays:
  assumes "get_pair_address cl fac w a b = Inr p" "sort_tokens a b = Inr (t0, t1)" "0 < x"
    and "(if a = t0 then cl_swap cl e p 0 x dest w else cl_swap cl e p x 0 dest w) = Some w'"
    and "good w" "outsider w who"
  shows "good w' \<and> outsider w' = outsider w \<and>
    cl_balance cl tk who w' = cl_balance cl tk who w + (if who = dest \<and> tk = b then x else 0)"
proof -
  have pair: "cl_get_pair cl fac a b w = Some (Some p)" and ab: "a \<noteq> b"
    using assms(1,2) by (auto simp: get_pair_address_def sort_tokens_def res_inv)
  have t0: "t0 = min a b" "a = t0 \<longleftrightarrow> a < b"
    using assms(2) by (auto simp: sort_tokens_def res_inv min_def split: if_splits)
  show ?thesis
  proof (cases "a < b")
    case True
    then show ?thesis
      using swap_keeps swap_pays [OF _ assms(5,6) pair] assms(3-5) t0
      by (force simp: max_def min_def)
  next
    case False
    then show ?thesis
      using swap_keeps swap_pays [OF _ assms(5,6) pair] assms(3-5) t0 ab
      by (force simp: max_def min_def)
  qed
qed

text \<open>The whole loop: the last output goes to the recipient, the router keeps what it had.\<close>

lemma run_hops_delivers:
  assumes "run_hops cl e fac to path outs w = Inr w'" "length outs = length path - 1" "2 \<le> length path"
    and "\<forall>x \<in> set outs. 0 < x" "good w" "outsider w to" "outsider w (e_self e)" "to \<noteq> e_self e"
  shows "good w' \<and> outsider w' = outsider w \<and>
    (\<forall>tk. cl_balance cl tk to w' = cl_balance cl tk to w + (if tk = last path then last outs else 0)) \<and>
    (\<forall>tk. cl_balance cl tk (e_self e) w' = cl_balance cl tk (e_self e) w)"
  using assms
proof (induction path arbitrary: outs w rule: induct_list012)
  case (3 a b path)
  obtain x xs where outs: "outs = x # xs" "0 < x"
    using "3.prems"(2,4) by (cases outs) auto
  show ?case
  proof (cases path)
    case Nil
    then obtain p t0 t1 w1 where "get_pair_address cl fac w a b = Inr p" "sort_tokens a b = Inr (t0, t1)"
      "(if a = t0 then cl_swap cl e p 0 x to w else cl_swap cl e p x 0 to w) = Some w1" "w' = w1"
      using "3.prems"(1) outs by (auto simp: res_inv)
    then show ?thesis
      using hop_pays [of fac w a b p t0 t1 x e to w1] "3.prems"(2,5-8) outs Nil by auto
  next
    case (Cons c rest)
    then obtain p t0 t1 w1 q w2 where hop: "get_pair_address cl fac w a b = Inr p"
      "sort_tokens a b = Inr (t0, t1)"
      "(if a = t0 then cl_swap cl e p 0 x (e_self e) w else cl_swap cl e p x 0 (e_self e) w) = Some w1"
      "get_pair_address cl fac w1 b c = Inr q" "cl_transfer cl e b (e_self e) q x w1 = Some w2"
      "run_hops cl e fac to (b # path) xs w2 = Inr w'"
      using "3.prems"(1) outs by (auto simp: res_inv Let_def)
    note pay = hop_pays [OF hop(1,2) outs(2) hop(3) "3.prems"(5)]
    have w1: "good w1" "outsider w1 = outsider w"
      using pay [OF "3.prems"(6)] by auto
    have "cl_get_pair cl fac b c w1 = Some (Some q)"
      using hop(4) by (auto simp: get_pair_address_def res_inv)
    then have q: "q \<noteq> to" "q \<noteq> e_self e"
      using pools_inside [OF w1(1)] w1(2) "3.prems"(6,7) by auto
    have w2: "good w2" "outsider w2 = outsider w"
      using transfer_keeps [OF hop(5)] w1 by auto
    have "cl_balance cl tk to w2 = cl_balance cl tk to w" for tk
      using transfer_moves [OF hop(5), of tk to] pay [OF "3.prems"(6), of tk] q "3.prems"(8)
      by (auto simp: moved_apply)
    moreover have "cl_balance cl tk (e_self e) w2 = cl_balance cl tk (e_self e) w" for tk
      using transfer_moves [OF hop(5), of tk "e_self e"] pay [OF "3.prems"(7), of tk] q
      by (auto simp: moved_apply)
    moreover have "xs \<noteq> []" "length xs = length (b # path) - 1"
      using "3.prems"(2) outs Cons by auto
    ultimately show ?thesis
      using "3.IH"(2) [OF hop(6)] w2 "3.prems"(4,6-8) outs Cons by auto
  qed
qed auto

text \<open>The user's payment into the first pool.\<close>

lemma first_payment:
  assumes "pay_first_pool cl e fac to path x w = Inr w'" "good w" "outsider w to" "outsider w who"
  shows "good w' \<and> outsider w' = outsider w \<and> cl_balance cl tk who w' =
    cl_balance cl tk who w - (if tk = path ! 0 \<and> who = to then x else 0)"
proof -
  obtain p where p: "get_pair_address cl fac w (path ! 0) (path ! 1) = Inr p"
    "cl_transfer cl e (path ! 0) to p x w = Some w'"
    using assms(1) by (auto simp: pay_first_pool_def res_inv Let_def)
  have "cl_get_pair cl fac (path ! 0) (path ! 1) w = Some (Some p)"
    using p(1) by (auto simp: get_pair_address_def res_inv)
  then have "p \<noteq> who"
    using pools_inside [OF assms(2)] assms(4) by auto
  then show ?thesis
    using transfer_keeps [OF p(2)] transfer_moves [OF p(2), of tk who] assms(2) by (auto simp: moved_apply)
qed

lemma exact_in_delivers:
  assumes "swap_exact_tokens_multi_hop cl e path amount_in amount_out_min to deadline limit rs w = Inr (out, w')"
    and "good w" "outsider w to" "outsider w (e_self e)" "to \<noteq> e_self e"
  shows "amount_out_min \<le> out \<and> 0 < out \<and> e_auth e to \<and>
    cl_balance cl tk to w' = cl_balance cl tk to w + (if tk = last path then out else 0)
      - (if tk = hd path then amount_in - max 0 (cl_balance cl tk (e_self e) w) else 0) \<and>
    cl_balance cl tk (e_self e) w' = cl_balance cl tk (e_self e) w
      - (if tk = hd path then max 0 (cl_balance cl tk (e_self e) w) else 0)"
proof -
  define dust where "dust w2 = cl_balance cl (path ! 0) (e_self e) w2" for w2
  obtain fac amounts w1 w2 where st: "get_path_amounts_out cl fac w path amount_in = Inr amounts"
    "amount_out_min \<le> amounts ! (length amounts - 1)" "e_auth e to" "path \<noteq> []"
    "pay_first_pool cl e fac to path amount_in w = Inr w1" "run_hops cl e fac to path amounts w1 = Inr w2"
    "(if dust w2 > 0 then cl_transfer cl e (path ! 0) (e_self e) to (dust w2) w2 else Some w2) = Some w'"
    "out = amounts ! (length amounts - 1)"
    using assms(1)
    by (auto simp: swap_exact_tokens_multi_hop_def res_inv Let_def hop_count_def dust_def not_less
        split: if_splits)
  have hops: "hops_out cl fac w path amount_in = Inr amounts" "2 \<le> length path"
    using st(1) by (auto simp: get_path_amounts_out_def res_inv)
  note len = length_hops_out [OF hops(1)] and pos = hops_out_positive [OF hops(1)]
  have ne: "amounts \<noteq> []"
    using len hops(2) by auto
  have out: "out = last amounts" "0 < out"
    using st(8) pos ne by (simp_all add: last_conv_nth)
  note pay = first_payment [OF st(5) assms(2,3)]
  have w1: "good w1" "outsider w1 = outsider w"
    using pay [OF assms(3)] by auto
  note run = run_hops_delivers [OF st(6) len hops(2) _ w1(1) _ _ assms(5)]
  have run': "cl_balance cl tk to w2 = cl_balance cl tk to w1 + (if tk = last path then out else 0)"
    "cl_balance cl tk (e_self e) w2 = cl_balance cl tk (e_self e) w" for tk
    using run pos w1(2) assms(3-5) out(1) pay [OF assms(4), of tk] by auto
  have d: "dust w2 = cl_balance cl (hd path) (e_self e) w"
    using run'(2) st(4) by (simp add: dust_def hd_conv_nth)
  have "cl_balance cl tk to w' = cl_balance cl tk to w2 + (if tk = hd path then max 0 (dust w2) else 0)"
    "cl_balance cl tk (e_self e) w' = cl_balance cl tk (e_self e) w2 - (if tk = hd path then max 0 (dust w2) else 0)"
    using st(4,7) transfer_moves assms(5) by (auto simp: hd_conv_nth moved_apply split: if_splits)
  then show ?thesis
    using st(2,3,4,8) out(2) run' pay [OF assms(3), of tk] d by (auto simp: hd_conv_nth)
qed

lemma exact_out_delivers:
  assumes "swap_tokens_for_exact_tokens cl e amount_out amount_in_max path to deadline limit rs w = Inr (paid, w')"
    and "good w" "outsider w to" "outsider w (e_self e)" "to \<noteq> e_self e"
  shows "\<exists>x. paid = [x] \<and> 0 < x \<and> x \<le> amount_in_max \<and> e_auth e to \<and>
    cl_balance cl tk to w' = cl_balance cl tk to w + (if tk = last path then amount_out else 0)
      - (if tk = hd path then x else 0) \<and>
    cl_balance cl tk (e_self e) w' = cl_balance cl tk (e_self e) w"
proof -
  obtain fac required x w1 where st: "hops_required cl fac w path amount_out = Inr (required, x)"
    "x \<le> amount_in_max" "e_auth e to" "2 \<le> length path" "0 < amount_out" "paid = [x]"
    "pay_first_pool cl e fac to path x w = Inr w1"
    "run_hops cl e fac to path (tl required @ [amount_out]) w1 = Inr w'"
    using assms(1)
    by (auto simp: swap_tokens_for_exact_tokens_def res_inv Let_def hop_count_def not_less not_le)
  note req = hops_required_positive [OF st(1,5)]
  note pay = first_payment [OF st(7) assms(2,3)]
  have w1: "good w1" "outsider w1 = outsider w"
    using pay [OF assms(3)] by auto
  have outs: "length (tl required @ [amount_out]) = length path - 1" "\<forall>y \<in> set (tl required @ [amount_out]). 0 < y"
    using req st(4,5) by (auto dest: list.set_sel(2) [rotated])
  note run = run_hops_delivers [OF st(8) outs(1) st(4) outs(2) w1(1) _ _ assms(5)]
  have "path ! 0 = hd path"
    using st(4) by (cases path) auto
  then show ?thesis
    using run w1(2) assms(3-5) st(2-6) req pay [OF assms(3), of tk] pay [OF assms(4), of tk] by simp
qed

end

section \<open>The deployment as the router sees it\<close>

definition ok_result :: "('e, 'a) res \<Rightarrow> 'a option" where
  "ok_result m = (case m of Inr x \<Rightarrow> Some x | Inl _ \<Rightarrow> None)"

lemma ok_result_Some [simp]: "ok_result m = Some x \<longleftrightarrow> m = Inr x"
  by (auto simp: ok_result_def split: sum.splits)

text \<open>A question to a pair changes nothing; of its environment only the address matters.\<close>

definition ask_pair ::
  "address \<Rightarrow> (env \<Rightarrow> 'tok world \<Rightarrow> (pair_error, 'a) res) \<Rightarrow> 'tok system \<Rightarrow> 'a option" where
  "ask_pair p q sy =
     (case sy_pairs sy p of None \<Rightarrow> None
      | Some c \<Rightarrow> ok_result (q \<lparr>e_timestamp = 0, e_sequence = 0, e_self = p, e_auth = (\<lambda>_. False)\<rparr>
                      (world_of sy c)))"

text \<open>
  The answers to the router's calls. Calls of a factory other than the deployment's, and of a
  pair that it did not create, fail here.
\<close>

definition system_clients :: "'tok token_ops \<Rightarrow> address \<Rightarrow> 'tok system clients" where
  "system_clients T self = \<lparr>
     cl_get_pair = (\<lambda>f a b sy. if f = self then Some (factory_get_pair sy a b) else None),
     cl_is_pair = (\<lambda>f p sy. if f = self then Some (factory_is_pair (sy_factory sy) p) else None),
     cl_fee_to_setter = (\<lambda>f sy. if f = self then Some (factory_fee_to_setter sy) else None),
     cl_get_reserves = (\<lambda>p sy. ask_pair p (\<lambda>_. pair_get_reserves) sy),
     cl_effective_fee = (\<lambda>p sy. ask_pair p (pair_get_effective_fee_bps (view_of (sy_factory sy))) sy),
     cl_swap = (\<lambda>e p x y to sy. map_option snd (ok_result
        (on_pair p (pair_swap T (view_of (sy_factory sy)) (nested_env e p) x y to) sy))),
     cl_mint = (\<lambda>e p to sy. ok_result (on_pair p (pair_mint T (nested_env e p) to) sy)),
     cl_deposit_lp = (\<lambda>e p who x sy. map_option snd (ok_result
        (on_pair p (pair_deposit_lp (nested_env e p) who x) sy))),
     cl_burn = (\<lambda>e p to sy. ok_result (on_pair p (pair_burn T (nested_env e p) to) sy)),
     cl_transfer = (\<lambda>e tk f t x sy. map_option (\<lambda>tok. sy\<lparr>sy_tok := tok\<rparr>) (tok_transfer T e tk f t x (sy_tok sy))),
     cl_balance = (\<lambda>tk a sy. tok_balance T tk a (sy_tok sy))\<rparr>"

lemma system_clients_simps:
  "cl_get_pair (system_clients T self) f a b sy = (if f = self then Some (factory_get_pair sy a b) else None)"
  "cl_is_pair (system_clients T self) f p sy =
     (if f = self then Some (factory_is_pair (sy_factory sy) p) else None)"
  "cl_get_reserves (system_clients T self) p sy = ask_pair p (\<lambda>_. pair_get_reserves) sy"
  "cl_effective_fee (system_clients T self) p sy =
     ask_pair p (pair_get_effective_fee_bps (view_of (sy_factory sy))) sy"
  "cl_swap (system_clients T self) e p x y to sy = map_option snd (ok_result
     (on_pair p (pair_swap T (view_of (sy_factory sy)) (nested_env e p) x y to) sy))"
  "cl_transfer (system_clients T self) e tk f t x sy =
     map_option (\<lambda>tok. sy\<lparr>sy_tok := tok\<rparr>) (tok_transfer T e tk f t x (sy_tok sy))"
  "cl_balance (system_clients T self) tk a sy = tok_balance T tk a (sy_tok sy)"
  by (simp_all add: system_clients_def)

text \<open>An account outside the pools that is not paid the protocol's fees.\<close>

definition pool_outsider :: "'tok system \<Rightarrow> address \<Rightarrow> bool" where
  "pool_outsider sy a \<longleftrightarrow> sy_pairs sy a = None \<and> factory_fee_to sy \<noteq> Some a"

context sep41 begin

lemma pay_out_outsider:
  assumes "pay_out T e tk to x w = Inr w'" "a \<noteq> e_self e"
  shows "tok_balance T tk' a (w_tok w') =
    tok_balance T tk' a (w_tok w) + (if tk' = tk \<and> a = to then max 0 x else 0)"
  using assms
  by (auto simp: pay_out_def tok_call_def res_inv transfer_moves moved_apply split: if_splits)

lemma collect_outsider:
  assumes "collect_protocol_fee T fv e ps in_a in_b fee w = Inr (pf, w')" "a \<noteq> e_self e"
    "fv_fee_to fv \<noteq> Some (Some a)"
  shows "tok_balance T tk a (w_tok w') = tok_balance T tk a (w_tok w)"
  using assms
  by (auto simp: collect_protocol_fee_def Let_def res_inv
      dest!: pay_out_outsider [where a = a and tk' = tk] split: option.splits if_splits)

lemma swap_outsider:
  assumes "pair_swap T fv e x y to w = Inr (u, w')" "get_pair_state w = Some ps" "a \<noteq> e_self e"
    "fv_fee_to fv \<noteq> Some (Some a)"
  shows "tok_balance T tk a (w_tok w') = tok_balance T tk a (w_tok w) +
    (if a = to then (if tk = ps_token_a ps then max 0 x else 0) + (if tk = ps_token_b ps then max 0 y else 0)
     else 0)"
proof -
  obtain v where v: "swap_inner T fv e x y to (locked_world w) = Inr (u, v)" "w' = release_lock v"
    using assms(1) by (auto simp: pair_swap_def with_guard_Inr res_inv)
  have u: "u = ()" by simp
  show ?thesis
    using v(1)
  proof (cases rule: swap_inner_cases)
    case (1 ps0 fs0 fs dyn w1 w2 in_a in_b pf_a pf_b w3 fs')
    have "ps0 = ps"
      using 1(2) assms(2) by simp
    then show ?thesis
      using pay_out_outsider [OF 1(7) assms(3), of tk] pay_out_outsider [OF 1(8) assms(3), of tk]
        collect_outsider [OF 1(13) assms(3,4), of tk] 1(15) v(2) by auto
  qed
qed

end

section \<open>The deployment keeps the laws\<close>

lemma swap_keeps_registry:
  assumes "cl_swap (system_clients T self) e p x y to sy = Some sy'" "registry_ok self sy"
  shows "registry_ok self sy' \<and> pool_outsider sy' = pool_outsider sy"
proof -
  obtain c u w where c: "sy_pairs sy p = Some c"
    "pair_swap T (view_of (sy_factory sy)) (nested_env e p) x y to (world_of sy c) = Inr (u, w)"
    "sy' = put_world p w sy"
    using assms(1) by (auto simp: system_clients_def on_pair_Inr)
  then obtain v where v: "swap_inner T (view_of (sy_factory sy)) (nested_env e p) x y to (locked_world (world_of sy c)) = Inr (u, v)"
    "w = release_lock v"
    by (auto simp: pair_swap_def with_guard_Inr res_inv)
  have "pair_fixed w = pair_fixed (world_of sy c)"
    using swap_inner_fixed [OF v(1)] v(2) by (simp add: pair_fixed_def pair_identity_def)
  then have "registry_ok self sy'"
    using registry_put_world [OF assms(2) c(1)] c(3) by simp
  moreover have "pool_outsider sy' a = pool_outsider sy a" for a
    using c by (auto simp: pool_outsider_def factory_fee_to_def)
  ultimately show ?thesis by blast
qed

lemma registered_pair:
  assumes "registry_ok self sy" "factory_get_pair sy t0 t1 = Some p"
  shows "\<exists>c lp. sy_pairs sy p = Some c \<and> pair_identity c = Some (self, min t0 t1, max t0 t1, lp)"
  using assms unfolding registry_ok_def factory_get_pair_def Let_def by blast

lemma registry_lookup:
  assumes "registry_ok self sy" "factory_get_pair sy t0 t1 = Some p" "sy_pairs sy p = Some c"
  shows "\<exists>ps. get_pair_state (world_of sy c) = Some ps \<and> ps_token_a ps = min t0 t1 \<and> ps_token_b ps = max t0 t1"
  using registered_pair [OF assms(1,2)] assms(3) by (auto simp: pair_identity_def)

lemma pool_net_system:
  assumes "sep41 T"
  shows "pool_net (system_clients T self) (registry_ok self) pool_outsider"
proof
  fix e tk f t x and w w' :: "'a system"
  assume "cl_transfer (system_clients T self) e tk f t x w = Some w'"
  then obtain tok where tok: "tok_transfer T e tk f t x (sy_tok w) = Some tok" "w' = w\<lparr>sy_tok := tok\<rparr>"
    by (auto simp: system_clients_def)
  show "cl_balance (system_clients T self) tk' a w' = (if tk' = tk
      then moved f t x (\<lambda>b. cl_balance (system_clients T self) tk b w) a
      else cl_balance (system_clients T self) tk' a w)" for tk' a
    using sep41.transfer_moves [OF assms tok(1)] tok(2) by (simp add: system_clients_def)
  show "registry_ok self w' = registry_ok self w \<and> pool_outsider w' = pool_outsider w"
    using tok(2) by (simp add: registry_ok_def pair_entry_def pool_outsider_def factory_fee_to_def fun_eq_iff)
next
  fix e p x y to and w w' :: "'a system"
  assume "cl_swap (system_clients T self) e p x y to w = Some w'" "registry_ok self w"
  then show "registry_ok self w' \<and> pool_outsider w' = pool_outsider w"
    by (rule swap_keeps_registry)
next
  fix e p x y to a fac t0 t1 tk and w w' :: "'a system"
  assume swap: "cl_swap (system_clients T self) e p x y to w = Some w'" and ok: "registry_ok self w"
    and out: "pool_outsider w a" and "cl_get_pair (system_clients T self) fac t0 t1 w = Some (Some p)"
  then have pair: "factory_get_pair w t0 t1 = Some p"
    by (simp add: system_clients_def split: if_splits)
  obtain c u v where c: "sy_pairs w p = Some c"
    "pair_swap T (view_of (sy_factory w)) (nested_env e p) x y to (world_of w c) = Inr (u, v)"
    "w' = put_world p v w"
    using swap by (auto simp: system_clients_def on_pair_Inr)
  obtain ps where ps: "get_pair_state (world_of w c) = Some ps" "ps_token_a ps = min t0 t1" "ps_token_b ps = max t0 t1"
    using registry_lookup [OF ok pair c(1)] by blast
  have "a \<noteq> e_self (nested_env e p)" "fv_fee_to (view_of (sy_factory w)) \<noteq> Some (Some a)"
    using out c(1) by (auto simp: pool_outsider_def view_of_def factory_fee_to_def)
  from sep41.swap_outsider [OF assms c(2) ps(1) this, of tk]
  show "cl_balance (system_clients T self) tk a w' = cl_balance (system_clients T self) tk a w +
      (if a = to then (if tk = min t0 t1 then max 0 x else 0) + (if tk = max t0 t1 then max 0 y else 0) else 0)"
    using c(3) ps(2,3) by (simp add: system_clients_def)
next
  fix fac t0 t1 p and w :: "'a system"
  assume "registry_ok self w" "cl_get_pair (system_clients T self) fac t0 t1 w = Some (Some p)"
  then show "\<not> pool_outsider w p"
    using registered_pair [of self w t0 t1 p] by (auto simp: system_clients_def pool_outsider_def split: if_splits)
qed

interpretation bank_net: pool_net "system_clients bank_ops self" "registry_ok self" pool_outsider
  by (rule pool_net_system [OF lp_bank.sep41_axioms])

end
