(* ===== verification/Router_Commit.thy ===== *)
theory Router_Commit
  imports Router_Quotes Factory_Props
begin

text \<open>
  The commit-reveal part of the router as a state machine. Its storage is changed by six entry
  points; the rest of the ledger, which others change between the calls, is arbitrary at every
  step.
\<close>

section \<open>The state machine\<close>

datatype router_call =
  RC_initialize address "address list"
| RC_set_hubs "address list"
| RC_set_commit_config int int
| RC_commit_swap address "8 word list"
| RC_prune_expired_commit address
| RC_reveal_swap swap_commitment

fun router_step ::
  "'w clients \<Rightarrow> host \<Rightarrow> env \<Rightarrow> 'w \<Rightarrow> router_call \<Rightarrow> router_state \<Rightarrow> (router_error, router_state) res" where
  "router_step cl h e w (RC_initialize factory hubs) rs = Inr (router_initialize factory hubs rs)"
| "router_step cl h e w (RC_set_hubs hubs) rs = Inr (router_set_hubs hubs rs)"
| "router_step cl h e w (RC_set_commit_config m n) rs = router_set_commit_config cl e m n w rs"
| "router_step cl h e w (RC_commit_swap sender hash) rs = commit_swap e sender hash rs"
| "router_step cl h e w (RC_prune_expired_commit sender) rs = Inr (snd (prune_expired_commit e sender rs))"
| "router_step cl h e w (RC_reveal_swap s) rs =
     bindR (reveal_swap cl h e s rs w) (\<lambda>(_, rs', _). Inr rs')"

text \<open>The types of the arguments: \<open>u32\<close> bounds and a \<open>u32\<close> ledger sequence.\<close>

fun router_call_typed :: "env \<Rightarrow> router_call \<Rightarrow> bool" where
  "router_call_typed e (RC_set_commit_config m n) \<longleftrightarrow> in_u32 (e_sequence e) \<and> in_u32 m \<and> in_u32 n"
| "router_call_typed e _ \<longleftrightarrow> in_u32 (e_sequence e)"

inductive router_reachable :: "'w clients \<Rightarrow> host \<Rightarrow> router_state \<Rightarrow> bool" for cl h where
  rr_start: "router_reachable cl h router_empty"
| rr_step: "router_reachable cl h rs \<Longrightarrow> router_call_typed e op \<Longrightarrow>
     router_step cl h e w op rs = Inr rs' \<Longrightarrow> router_reachable cl h rs'"

section \<open>Slots\<close>

definition commit_inv :: "router_state \<Rightarrow> bool" where
  "commit_inv rs \<longleftrightarrow>
     finite (dom (rs_commit rs)) \<and> get_commit_count rs = int (card (dom (rs_commit rs))) \<and>
     get_commit_count rs \<le> MAX_COMMITS_HARD_CAP \<and>
     (\<forall>a c. rs_commit rs a = Some c \<longrightarrow> in_u32 (ce_ledger c)) \<and>
     1 \<le> max_commits (get_commit_config rs) \<and> max_commits (get_commit_config rs) \<le> MAX_COMMITS_HARD_CAP \<and>
     1 \<le> expiry_ledgers (get_commit_config rs) \<and>
     expiry_ledgers (get_commit_config rs) \<le> COMMIT_EXPIRY_HARD_CAP"

lemmas commit_bounds = MAX_COMMITS_HARD_CAP_def COMMIT_EXPIRY_HARD_CAP_def DEFAULT_MAX_COMMITS_def
  DEFAULT_COMMIT_EXPIRY_LEDGERS_def

lemma commit_inv_start: "commit_inv router_empty"
  by (simp add: commit_inv_def router_empty_def get_commit_count_def get_commit_config_def
      default_commit_config_def commit_bounds)

lemma router_state_simps [simp]:
  "rs_commit (set_commit_count n rs) = rs_commit rs" "get_commit_count (set_commit_count n rs) = n"
  "rs_commit (set_commit a c rs) = (rs_commit rs)(a \<mapsto> c)"
  "get_commit_count (set_commit a c rs) = get_commit_count rs"
  "rs_commit (clear_commit a rs) = (rs_commit rs)(a := None)"
  "get_commit_count (clear_commit a rs) = get_commit_count rs"
  "rs_commit (set_nonce_used a n rs) = rs_commit rs"
  "get_commit_count (set_nonce_used a n rs) = get_commit_count rs"
  "rs_commit (store_hubs hs rs) = rs_commit rs" "rs_commit (set_router_factory f rs) = rs_commit rs"
  "get_commit_count (store_hubs hs rs) = get_commit_count rs"
  "get_commit_count (set_router_factory f rs) = get_commit_count rs"
  "rs_commit (store_commit_config cfg rs) = rs_commit rs"
  "get_commit_count (store_commit_config cfg rs) = get_commit_count rs"
  "get_commit_config (set_commit_count n rs) = get_commit_config rs"
  "get_commit_config (set_commit a c rs) = get_commit_config rs"
  "get_commit_config (clear_commit a rs) = get_commit_config rs"
  "get_commit_config (set_nonce_used a n rs) = get_commit_config rs"
  "get_commit_config (store_hubs hs rs) = get_commit_config rs"
  "get_commit_config (set_router_factory f rs) = get_commit_config rs"
  "get_commit_config (store_commit_config cfg rs) = cfg"
  "get_commit rs a = rs_commit rs a"
  by (simp_all add: router_storage_defs get_commit_config_def)

lemma free_slot_simps [simp]:
  "rs_commit (free_slot a rs) = (rs_commit rs)(a := None)"
  "get_commit_count (free_slot a rs) = u32_saturating_sub (get_commit_count rs) 1"
  "get_commit_config (free_slot a rs) = get_commit_config rs"
  by (simp_all add: free_slot_def Let_def)

lemma free_slot_inv:
  assumes "commit_inv rs" "rs_commit rs a = Some c"
  shows "commit_inv (free_slot a rs)"
proof -
  have dom: "dom ((rs_commit rs)(a := None)) = dom (rs_commit rs) - {a}" "a \<in> dom (rs_commit rs)"
    using assms(2) by auto
  then have "card (dom (rs_commit rs)) = Suc (card (dom (rs_commit rs) - {a}))"
    using assms(1) card.remove [of "dom (rs_commit rs)" a] by (simp add: commit_inv_def)
  then show ?thesis
    using assms(1) dom by (simp add: commit_inv_def u32_saturating_sub_def)
qed

lemma set_nonce_inv [simp]: "commit_inv (set_nonce_used a n rs) = commit_inv rs"
  by (simp add: commit_inv_def)

lemma commit_swap_Inr:
  assumes "commit_swap e sender hash rs = Inr rs'"
  shows "e_auth e sender"
    "rs_commit rs' = (rs_commit rs)(sender \<mapsto> \<lparr>ce_hash = hash, ce_ledger = e_sequence e\<rparr>)"
    "get_commit_config rs' = get_commit_config rs" "rs_nonce_used rs' = rs_nonce_used rs"
    "get_commit_count rs' = (if rs_commit rs sender = None then u32_saturating_add (get_commit_count rs) 1
       else get_commit_count rs)"
    "rs_commit rs sender = None \<longrightarrow> get_commit_count rs < max_commits (get_commit_config rs)"
  using assms
  by (auto simp: commit_swap_def res_inv Let_def set_commit_def set_commit_count_def get_commit_count_def
      get_commit_config_def split: if_splits)

lemma commit_swap_inv:
  assumes "commit_swap e sender hash rs = Inr rs'" "commit_inv rs" "in_u32 (e_sequence e)"
  shows "commit_inv rs'"
proof -
  note c = commit_swap_Inr [OF assms(1)]
  have "card (dom (rs_commit rs')) = (if rs_commit rs sender = None then Suc (card (dom (rs_commit rs)))
      else card (dom (rs_commit rs)))"
    using assms(2) c(2) by (auto simp: commit_inv_def card_insert_if)
  then show ?thesis
    using assms(2,3) c(2,3,5,6)
    by (auto simp: commit_inv_def u32_saturating_add_def u32_max_def MAX_COMMITS_HARD_CAP_def)
qed

lemma reveal_swap_Inr:
  assumes "reveal_swap cl h e s rs w = Inr (out, rs', w')"
  obtains c path out0 where "rs_commit rs (sc_sender s) = Some c" "ce_ledger c < e_sequence e"
    "e_sequence e \<le> u32_saturating_add (ce_ledger c) (expiry_ledgers (get_commit_config rs))"
    "rs_nonce_used rs (sc_sender s, sc_nonce s) = None" "compute_swap_hash h s = ce_hash c"
    "rs' = set_nonce_used (sc_sender s) (sc_nonce s) (free_slot (sc_sender s) rs)"
    "get_best_path cl rs' w (sc_token_in s) (sc_token_out s) (sc_amount_in s) = Inr (path, out0)"
    "swap_exact_tokens_multi_hop cl e path (sc_amount_in s) (sc_min_out s) (sc_sender s)
       u64_max None rs' w = Inr (out, w')"
  using assms
  by (auto simp: reveal_swap_def res_inv Let_def is_nonce_used_def not_less not_le intro: that)

lemma router_step_inv:
  assumes "router_step cl h e w op rs = Inr rs'" "router_call_typed e op" "commit_inv rs"
  shows "commit_inv rs'"
proof (cases op)
  case (RC_commit_swap sender hash)
  then show ?thesis using assms commit_swap_inv by simp
next
  case (RC_reveal_swap s)
  then show ?thesis
    using assms by (auto simp: res_inv free_slot_inv elim!: reveal_swap_Inr)
next
  case (RC_prune_expired_commit sender)
  then show ?thesis
    using assms by (auto simp: prune_expired_commit_def Let_def free_slot_inv split: option.splits)
qed (use assms in \<open>auto simp: commit_inv_def router_initialize_def router_set_hubs_def
    router_set_commit_config_def res_inv in_u32_def\<close>)

lemma router_reachable_inv: "router_reachable cl h rs \<Longrightarrow> commit_inv rs"
  by (induction rule: router_reachable.induct) (auto simp: commit_inv_start intro: router_step_inv)


section \<open>Sequences of calls\<close>

text \<open>A call that fails changes nothing.\<close>

fun router_run ::
  "'w clients \<Rightarrow> host \<Rightarrow> (env \<times> 'w \<times> router_call) list \<Rightarrow> router_state \<Rightarrow> router_state" where
  "router_run cl h [] rs = rs"
| "router_run cl h ((e, w, op) # calls) rs =
     router_run cl h calls (case router_step cl h e w op rs of Inl _ \<Rightarrow> rs | Inr rs' \<Rightarrow> rs')"

lemma router_run_append [simp]:
  "router_run cl h (xs @ ys) rs = router_run cl h ys (router_run cl h xs rs)"
  by (induction xs arbitrary: rs) auto

text \<open>Where a new commit comes from; a used nonce stays used.\<close>

lemma router_step_commit:
  assumes "router_step cl h e w op rs = Inr rs'" "rs_commit rs' a = Some c"
  shows "rs_commit rs a = Some c \<or>
    (op = RC_commit_swap a (ce_hash c) \<and> e_auth e a \<and> ce_ledger c = e_sequence e)"
proof (cases op)
  case (RC_commit_swap sender hash)
  then show ?thesis
    using assms commit_swap_Inr(1,2) [of e sender hash rs rs'] by (auto split: if_splits)
next
  case (RC_reveal_swap s)
  then show ?thesis
    using assms by (auto simp: res_inv elim!: reveal_swap_Inr split: if_splits)
next
  case (RC_prune_expired_commit sender)
  then show ?thesis
    using assms by (auto simp: prune_expired_commit_def Let_def split: option.splits if_splits)
qed (use assms in \<open>auto simp: router_initialize_def router_set_hubs_def router_set_commit_config_def res_inv\<close>)

lemma nonce_simps [simp]:
  "rs_nonce_used (set_commit_count n rs) = rs_nonce_used rs"
  "rs_nonce_used (clear_commit a rs) = rs_nonce_used rs"
  "rs_nonce_used (free_slot a rs) = rs_nonce_used rs"
  "rs_nonce_used (set_nonce_used a n rs) = (rs_nonce_used rs)((a, n) \<mapsto> True)"
  "rs_nonce_used (store_hubs hs rs) = rs_nonce_used rs"
  "rs_nonce_used (set_router_factory f rs) = rs_nonce_used rs"
  "rs_nonce_used (store_commit_config cfg rs) = rs_nonce_used rs"
  by (simp_all add: router_storage_defs free_slot_def Let_def)

lemma router_step_nonce:
  assumes "router_step cl h e w op rs = Inr rs'" "rs_nonce_used rs k \<noteq> None"
  shows "rs_nonce_used rs' k \<noteq> None"
proof (cases op)
  case (RC_commit_swap sender hash)
  then show ?thesis
    using assms commit_swap_Inr(4) [of e sender hash rs rs'] by simp
next
  case (RC_reveal_swap s)
  then show ?thesis
    using assms by (auto simp: res_inv elim!: reveal_swap_Inr)
next
  case (RC_prune_expired_commit sender)
  then show ?thesis
    using assms by (auto simp: prune_expired_commit_def Let_def split: option.splits if_splits)
qed (use assms in \<open>auto simp: router_initialize_def router_set_hubs_def router_set_commit_config_def res_inv\<close>)

lemma router_run_nonce:
  assumes "rs_nonce_used rs k \<noteq> None"
  shows "rs_nonce_used (router_run cl h calls rs) k \<noteq> None"
  using assms
proof (induction calls arbitrary: rs)
  case (Cons call calls)
  obtain e w op where "call = (e, w, op)" by (metis prod_cases3)
  then show ?case
    using Cons router_step_nonce [of cl h e w op rs] by (auto split: sum.splits)
qed simp

lemma commit_was_made:
  assumes "rs_commit (router_run cl h calls router_empty) a = Some c"
  shows "\<exists>xs e w ys. calls = xs @ (e, w, RC_commit_swap a (ce_hash c)) # ys \<and> e_auth e a \<and>
    ce_ledger c = e_sequence e"
  using assms
proof (induction calls rule: rev_induct)
  case Nil
  then show ?case by (simp add: router_empty_def)
next
  case (snoc call calls)
  obtain e w op where call: "call = (e, w, op)" by (metis prod_cases3)
  let ?rs = "router_run cl h calls router_empty"
  show ?case
  proof (cases "rs_commit ?rs a = Some c")
    case True
    then show ?thesis
      using snoc.IH by fastforce
  next
    case False
    then obtain rs' where "router_step cl h e w op ?rs = Inr rs'" "rs_commit rs' a = Some c"
      using snoc.prems by (auto simp: call split: sum.splits)
    then have "op = RC_commit_swap a (ce_hash c)" "e_auth e a" "ce_ledger c = e_sequence e"
      using router_step_commit [of cl h e w op ?rs rs' a c] False by auto
    then show ?thesis
      using call by blast
  qed
qed

section \<open>Properties\<close>

text \<open>
  C25. The counter of the commit slots is exact: in every reachable state it is the number of
  senders with a stored commit, and at most the hard cap of 1000. The active configuration lies
  within its hard caps. (The counter may exceed a configured maximum that governance lowered
  after the commits were made.)
\<close>

theorem commit_slots_are_counted:
  assumes "router_reachable cl h rs"
  shows "finite {a. get_commit rs a \<noteq> None} \<and>
    get_commit_count rs = int (card {a. get_commit rs a \<noteq> None}) \<and> get_commit_count rs \<le> 1000 \<and>
    1 \<le> max_commits (get_commit_config rs) \<and> max_commits (get_commit_config rs) \<le> 1000 \<and>
    1 \<le> expiry_ledgers (get_commit_config rs) \<and> expiry_ledgers (get_commit_config rs) \<le> 518400"
  using router_reachable_inv [OF assms] by (simp add: commit_inv_def commit_bounds dom_def)

definition commit_env :: env where
  "commit_env = \<lparr>e_timestamp = 5, e_sequence = 100, e_self = Address 60, e_auth = (\<lambda>a. a = Address 1)\<rparr>"

lemma commit_env_simps [simp]:
  "e_sequence commit_env = 100" "e_auth commit_env (Address 1)" "in_u32 100"
  by (simp_all add: commit_env_def in_u32_def u32_max_def)

lemma ex_commit:
  "commit_swap commit_env (Address 1) hash rs = Inr (set_commit (Address 1) \<lparr>ce_hash = hash, ce_ledger = 100\<rparr>
     (set_commit_count 1 rs))"
  if "rs_commit rs = Map.empty" "rs_commit_count rs = None" "rs_commit_config rs = None"
  using that
  by (simp add: commit_swap_def Let_def require_def reject_def get_commit_config_def default_commit_config_def
      get_commit_count_def u32_saturating_add_def u32_max_def commit_bounds commit_env_def)

theorem commit_slots_are_counted_witness:
  "\<exists>rs. get_commit rs (Address 1) \<noteq> None \<and> get_commit_count rs = int (card {a. get_commit rs a \<noteq> None})"
proof -
  let ?rs = "set_commit (Address 1) \<lparr>ce_hash = [], ce_ledger = 100\<rparr> (set_commit_count 1 router_empty)"
  have "router_reachable ex_clients ex_host ?rs"
    by (rule rr_step [OF rr_start, of commit_env "RC_commit_swap (Address 1) []" _ _ "()"])
      (simp_all add: ex_commit router_empty_def del: One_nat_def)
  from commit_slots_are_counted [OF this] show ?thesis
    by (intro exI [of _ ?rs]) simp
qed

text \<open>
  C24. A successful reveal is authentic, timely and final. Whatever calls came before, it opens a
  commitment that the sender itself made with exactly the hash of the revealed parameters, in a
  strictly earlier ledger and within the expiry window; it marks the nonce and frees the slot;
  and no later reveal with the same sender and nonce succeeds, whatever is called in between.
\<close>

theorem reveal_opens_own_earlier_commit:
  assumes "reveal_swap cl h e s (router_run cl h calls router_empty) w = Inr (out, rs', w')"
  shows "(\<exists>xs e0 w0 ys. calls = xs @ (e0, w0, RC_commit_swap (sc_sender s) (compute_swap_hash h s)) # ys \<and>
      e_auth e0 (sc_sender s) \<and> e_sequence e0 < e_sequence e \<and>
      e_sequence e \<le> e_sequence e0 + expiry_ledgers (get_commit_config rs')) \<and>
    get_commit rs' (sc_sender s) = None \<and>
    (\<forall>later e2 s2 w2. sc_sender s2 = sc_sender s \<longrightarrow> sc_nonce s2 = sc_nonce s \<longrightarrow>
       (\<exists>err. reveal_swap cl h e2 s2 (router_run cl h later rs') w2 = Inl err))"
proof -
  let ?rs = "router_run cl h calls router_empty"
  obtain c where c: "rs_commit ?rs (sc_sender s) = Some c" "ce_ledger c < e_sequence e"
    "e_sequence e \<le> u32_saturating_add (ce_ledger c) (expiry_ledgers (get_commit_config ?rs))"
    "compute_swap_hash h s = ce_hash c"
    "rs' = set_nonce_used (sc_sender s) (sc_nonce s) (free_slot (sc_sender s) ?rs)"
    using assms by (elim reveal_swap_Inr) auto
  have "\<exists>err. reveal_swap cl h e2 s2 (router_run cl h later rs') w2 = Inl err"
    if "sc_sender s2 = sc_sender s" "sc_nonce s2 = sc_nonce s" for later e2 s2 w2
  proof -
    have "rs_nonce_used (router_run cl h later rs') (sc_sender s2, sc_nonce s2) \<noteq> None"
      using that c(5) by (intro router_run_nonce) simp
    then have "reveal_swap cl h e2 s2 (router_run cl h later rs') w2 \<noteq> Inr (out2, rs2, w3)" for out2 rs2 w3
      by (auto elim!: reveal_swap_Inr)
    then show ?thesis
      by (cases "reveal_swap cl h e2 s2 (router_run cl h later rs') w2") auto
  qed
  moreover have "e_sequence e \<le> ce_ledger c + expiry_ledgers (get_commit_config rs')"
    using c(3,5) by (simp add: u32_saturating_add_def)
  moreover have "get_commit rs' (sc_sender s) = None"
    using c(5) by simp
  ultimately show ?thesis
    using commit_was_made [OF c(1)] c(2,4) by metis
qed


definition ex_swap :: swap_commitment where
  "ex_swap = \<lparr>sc_sender = Address 1, sc_token_in = Address 1, sc_token_out = Address 3,
     sc_amount_in = 100000, sc_min_out = 80000, sc_nonce = 7, sc_salt = []\<rparr>"

lemma ex_swap_simps [simp]:
  "sc_sender ex_swap = Address 1" "sc_token_in ex_swap = Address 1" "sc_token_out ex_swap = Address 3"
  "sc_amount_in ex_swap = 100000" "sc_min_out ex_swap = 80000" "sc_nonce ex_swap = 7"
  by (simp_all add: ex_swap_def)

definition ex_calls :: "(env \<times> unit \<times> router_call) list" where
  "ex_calls = [(commit_env, (), RC_initialize (Address 50) [Address 2, Address 7]),
     (commit_env, (), RC_commit_swap (Address 1) (compute_swap_hash ex_host ex_swap))]"

definition reveal_env :: env where
  "reveal_env = commit_env\<lparr>e_sequence := 101\<rparr>"

lemma get_best_path_cong:
  "rs_factory rs = rs_factory rs2 \<Longrightarrow> rs_hubs rs = rs_hubs rs2 \<Longrightarrow> get_best_path cl rs = get_best_path cl rs2"
  by (simp add: fun_eq_iff get_best_path_def get_router_factory_def get_hubs_def)

definition ex_committed :: router_state where
  "ex_committed = ex_router\<lparr>rs_commit := [Address 1 \<mapsto>
     \<lparr>ce_hash = compute_swap_hash ex_host ex_swap, ce_ledger = 100\<rparr>], rs_commit_count := Some 1\<rparr>"

lemma ex_run: "router_run ex_clients ex_host ex_calls router_empty = ex_committed"
  by (simp add: ex_calls_def router_initialize_def store_hubs_def set_router_factory_def ex_commit
      router_empty_def ex_committed_def ex_router_def set_commit_def set_commit_count_def del: One_nat_def)

lemma ex_multi_hop:
  assumes "rs_factory rs = Some (Address 50)"
  shows "swap_exact_tokens_multi_hop ex_clients reveal_env ex_path 100000 80000 (Address 1) u64_max None rs ()
    = Inr (82896, ())"
proof -
  have "check_deadline reveal_env u64_max None = Inr ()"
    by (simp add: check_deadline_def reveal_env_def commit_env_def u64_max_def reject_def)
  moreover have "hop_count ex_path = Inr 2"
    by (simp add: hop_count_def require_def reject_def)
  moreover have "pay_first_pool ex_clients reveal_env f (Address 1) ex_path x () = Inr ()" for f x
    by (simp add: pay_first_pool_def ex_pools ex_clients_def [THEN arg_cong [of _ _ cl_transfer]] or_panic_def
        del: One_nat_def)
  moreover have "run_hops ex_clients reveal_env f (Address 1) ex_path [90661, 82896] () = Inr ()" for f
    by (simp add: ex_pools sort_tokens_def reject_def or_panic_def
        ex_clients_def [THEN arg_cong [of _ _ cl_transfer]] ex_clients_def [THEN arg_cong [of _ _ cl_swap]]
        del: One_nat_def)
  moreover have "cl_balance ex_clients a b () = 0" for a b
    by (simp add: ex_clients_def)
  moreover have "e_auth reveal_env (Address 1)"
    by (simp add: reveal_env_def commit_env_def)
  moreover have "fees_typed ex_clients ()"
    by (simp add: fees_typed_def ex_clients_def)
  moreover obtain mins where "get_path_minimums ex_clients (Address 50) () ex_path 80000 = Inr mins"
    "\<not> (\<exists>i \<in> set [0..<2]. [90661, 82896] ! i < mins ! i)"
    using minimum_check_passes [OF ex_path_amounts [of "Address 50" "()"], of 80000] calculation(7)
    by (auto simp: not_less)
  ultimately show ?thesis
    using assms ex_path_amounts [of "Address 50" "()"]
    by (simp add: swap_exact_tokens_multi_hop_def get_router_factory_def ok_or_def reject_def require_def
        Let_def del: One_nat_def run_hops.simps)
qed

lemma ex_reveal:
  "\<exists>rs'. reveal_swap ex_clients ex_host reveal_env ex_swap ex_committed () = Inr (82896, rs', ())"
proof -
  let ?rs = "set_nonce_used (Address 1) 7 (free_slot (Address 1) ex_committed)"
  have rs: "rs_factory ?rs = Some (Address 50)" "rs_factory ?rs = rs_factory ex_router" "rs_hubs ?rs = rs_hubs ex_router"
    by (simp_all add: ex_committed_def free_slot_def Let_def router_storage_defs ex_router_def)
  have "get_best_path ex_clients ?rs () (Address 1) (Address 3) 100000 = Inr (ex_path, 82896)"
    using ex_best_path get_best_path_cong [OF rs(2,3)] by metis
  then show ?thesis
    using ex_multi_hop [OF rs(1)]
    by (simp add: reveal_swap_def ex_committed_def reveal_env_def commit_env_def get_commit_config_def ok_or_def
        ex_router_def router_empty_def is_nonce_used_def default_commit_config_def commit_bounds
        u32_saturating_add_def u32_max_def reject_def Let_def)
qed


theorem reveal_opens_own_earlier_commit_witness:
  "\<exists>rs' w'. reveal_swap ex_clients ex_host reveal_env ex_swap
       (router_run ex_clients ex_host ex_calls router_empty) () = Inr (82896, rs', w') \<and>
     get_commit rs' (Address 1) = None"
proof -
  obtain rs' where rs': "reveal_swap ex_clients ex_host reveal_env ex_swap
      (router_run ex_clients ex_host ex_calls router_empty) () = Inr (82896, rs', ())"
    using ex_reveal unfolding ex_run by blast
  then show ?thesis
    using reveal_opens_own_earlier_commit [OF rs'] by simp
qed

text \<open>
  C32. The slot of an expired commit is freed by \<open>prune_expired_commit\<close> alone. The reveal that finds
  it expired fails, and with the error the host undoes the freeing that the code does there; and
  when all slots are taken the sender cannot even overwrite its own expired commit. After
  pruning, the sender can commit again.
\<close>

theorem expired_commit_needs_pruning:
  assumes "router_reachable cl h rs" "get_commit rs a = Some c"
    and "e_sequence e > u32_saturating_add (ce_ledger c) (expiry_ledgers (get_commit_config rs))"
    and "sc_sender s = a" "e_auth e a"
  shows "reveal_swap cl h e s rs w = Inl (Err R_CommitExpired) \<and>
    (get_commit_count rs \<ge> max_commits (get_commit_config rs) \<longrightarrow>
       commit_swap e a hash rs = Inl (Err R_TooManyCommits)) \<and>
    (\<exists>rs'. prune_expired_commit e a rs = (True, rs') \<and> get_commit rs' a = None \<and>
       get_commit_count rs' = get_commit_count rs - 1 \<and>
       (get_commit_count rs \<le> max_commits (get_commit_config rs) \<longrightarrow>
          (\<exists>rs''. commit_swap e a hash rs' = Inr rs'')))"
proof -
  have inv: "commit_inv rs"
    using assms(1) by (rule router_reachable_inv)
  have c: "rs_commit rs a = Some c"
    using assms(2) by simp
  have "in_u32 (ce_ledger c)" "1 \<le> expiry_ledgers (get_commit_config rs)"
    using inv c by (auto simp: commit_inv_def)
  then have late: "ce_ledger c < e_sequence e"
    using assms(3) by (auto simp: u32_saturating_add_def in_u32_def)
  have "0 < card (dom (rs_commit rs))"
    using inv c by (auto simp: commit_inv_def card_gt_0_iff)
  then have count: "1 \<le> get_commit_count rs"
    using inv by (simp add: commit_inv_def)
  have "reveal_swap cl h e s rs w = Inl (Err R_CommitExpired)"
    using c late assms(3,4) by (simp add: reveal_swap_def ok_or_def reject_def Let_def)
  moreover have "get_commit_count rs \<ge> max_commits (get_commit_config rs) \<longrightarrow>
      commit_swap e a hash rs = Inl (Err R_TooManyCommits)"
    using c assms(3,5) by (simp add: commit_swap_def require_def reject_def Let_def)
  moreover have "prune_expired_commit e a rs = (True, free_slot a rs)"
    using c assms(3) by (simp add: prune_expired_commit_def Let_def)
  moreover have "\<exists>rs''. commit_swap e a hash (free_slot a rs) = Inr rs''"
    if "get_commit_count rs \<le> max_commits (get_commit_config rs)"
    using that count assms(5)
    by (simp add: commit_swap_def require_def reject_def Let_def u32_saturating_sub_def)
  ultimately show ?thesis
    using count by (simp add: u32_saturating_sub_def)
qed

definition late_env :: env where
  "late_env = commit_env\<lparr>e_sequence := 1101\<rparr>"

theorem expired_commit_needs_pruning_witness:
  "\<exists>rs. router_reachable ex_clients ex_host rs \<and>
     reveal_swap ex_clients ex_host late_env ex_swap rs () = Inl (Err R_CommitExpired) \<and>
     (\<exists>rs'. prune_expired_commit late_env (Address 1) rs = (True, rs') \<and> get_commit_count rs' = 0)"
proof -
  let ?rs = "set_commit (Address 1) \<lparr>ce_hash = [], ce_ledger = 100\<rparr> (set_commit_count 1 router_empty)"
  have r: "router_reachable ex_clients ex_host ?rs"
    by (rule rr_step [OF rr_start, of commit_env "RC_commit_swap (Address 1) []" _ _ "()"])
      (simp_all add: ex_commit router_empty_def del: One_nat_def)
  have "get_commit ?rs (Address 1) = Some \<lparr>ce_hash = [], ce_ledger = 100\<rparr>"
    "get_commit_config ?rs = default_commit_config" "get_commit_count ?rs = 1"
    "e_auth late_env (Address 1)" "e_sequence late_env = 1101"
    by (simp_all add: late_env_def commit_env_def) (simp add: router_empty_def get_commit_config_def)
  then show ?thesis
    using expired_commit_needs_pruning [OF r, of "Address 1" _ late_env ex_swap "()" "[]"] r
    by (intro exI [of _ ?rs])
      (auto simp: default_commit_config_def commit_bounds u32_saturating_add_def u32_max_def)
qed

text \<open>
  C33. A commitment binds every parameter: the bytes that are hashed determine the sender, both
  tokens, both amounts, the nonce and the salt, when the XDR form of an address is
  self-delimiting. So two different reveals open the same commit only by a collision of SHA-256.
\<close>

theorem commitment_binds_parameters:
  assumes "\<And>a b u v. c_to_xdr h a @ u = c_to_xdr h b @ v \<Longrightarrow> a = b"
    and "in_i128 (sc_amount_in s)" "in_i128 (sc_amount_in s')" "in_i128 (sc_min_out s)" "in_i128 (sc_min_out s')"
    and "in_u64 (sc_nonce s)" "in_u64 (sc_nonce s')"
    and "compute_swap_hash h s = compute_swap_hash h s'" "s \<noteq> s'"
  shows "swap_preimage h s \<noteq> swap_preimage h s' \<and>
    c_sha256 h (swap_preimage h s) = c_sha256 h (swap_preimage h s')"
proof -
  have i128: "x = y" if "be_bytes 16 x = be_bytes 16 y" "in_i128 x" "in_i128 y" for x y
  proof -
    have m: "x mod 2 ^ 128 = y mod 2 ^ 128"
      using be_bytes_mod [OF that(1)] by simp
    then have "(x + 2 ^ 127) mod 2 ^ 128 = (y + 2 ^ 127) mod 2 ^ 128"
      by (rule mod_add_cong) simp
    then have "i128_wrap x = i128_wrap y"
      by (simp add: i128_wrap_def)
    then show ?thesis
      using that(2,3) by simp
  qed
  have u64: "x = y" if "be_bytes 8 x = be_bytes 8 y" "in_u64 x" "in_u64 y" for x y
    using be_bytes_mod [OF that(1)] that(2,3) by (simp add: in_u64_def u64_max_def)
  have "s = s'" if eq: "swap_preimage h s = swap_preimage h s'"
  proof -
    have 1: "sc_sender s = sc_sender s'"
      using eq assms(1) unfolding swap_preimage_def by blast
    then have eq2: "c_to_xdr h (sc_token_in s) @ c_to_xdr h (sc_token_out s) @ be_bytes 16 (sc_amount_in s)
          @ be_bytes 16 (sc_min_out s) @ be_bytes 8 (sc_nonce s) @ sc_salt s =
        c_to_xdr h (sc_token_in s') @ c_to_xdr h (sc_token_out s') @ be_bytes 16 (sc_amount_in s')
          @ be_bytes 16 (sc_min_out s') @ be_bytes 8 (sc_nonce s') @ sc_salt s'"
      using eq by (simp add: swap_preimage_def)
    then have 2: "sc_token_in s = sc_token_in s'"
      using assms(1) by blast
    then have eq3: "c_to_xdr h (sc_token_out s) @ be_bytes 16 (sc_amount_in s)
          @ be_bytes 16 (sc_min_out s) @ be_bytes 8 (sc_nonce s) @ sc_salt s =
        c_to_xdr h (sc_token_out s') @ be_bytes 16 (sc_amount_in s')
          @ be_bytes 16 (sc_min_out s') @ be_bytes 8 (sc_nonce s') @ sc_salt s'"
      using eq2 by simp
    then have 3: "sc_token_out s = sc_token_out s'"
      using assms(1) by blast
    with eq3 show ?thesis
      using 1 2 i128 u64 assms(2-7) by simp
  qed
  then show ?thesis
    using assms(8,9) by (auto simp: compute_swap_hash_def)
qed


text \<open>A host whose serialisation is unary and whose hash always collides.\<close>

definition collision_host :: host where
  "collision_host = ex_host\<lparr>c_to_xdr := (\<lambda>a. replicate (addr_id a) 1 @ [0]), c_sha256 := (\<lambda>_. [])\<rparr>"

lemma unary_prefix_free: "replicate m (1 :: 8 word) @ 0 # u = replicate n 1 @ 0 # v \<Longrightarrow> m = n"
proof (induction m arbitrary: n)
  case 0
  then show ?case by (cases n) auto
next
  case (Suc m)
  then show ?case by (cases n) auto
qed

theorem commitment_binds_parameters_witness:
  "swap_preimage collision_host ex_swap \<noteq> swap_preimage collision_host (ex_swap\<lparr>sc_nonce := 8\<rparr>)"
proof -
  let ?s = "ex_swap\<lparr>sc_nonce := 8\<rparr>"
  have "a = b" if "c_to_xdr collision_host a @ u = c_to_xdr collision_host b @ v" for a b u v
    using that unary_prefix_free [of "addr_id a" u "addr_id b" v]
    by (cases a; cases b) (simp add: collision_host_def)
  moreover have "compute_swap_hash collision_host ex_swap = compute_swap_hash collision_host ?s"
    by (simp add: compute_swap_hash_def collision_host_def)
  moreover have "ex_swap \<noteq> ?s"
    by (simp add: ex_swap_def)
  ultimately show ?thesis
    using commitment_binds_parameters [of collision_host ex_swap ?s]
    by (simp add: int_ops_defs u64_max_def)
qed

end
