(* ===== verification/Router_Props.thy ===== *)
theory Router_Props
  imports Router_Net Router_Commit Pair_Props
begin

text \<open>
  The router on the deployment: where the tokens of a routed swap go. The witnesses run on a
  deployment with one pool of a million of each token.
\<close>

section \<open>A concrete deployment\<close>

definition ex_net :: "bank system" where
  "ex_net = \<lparr>sy_factory = factory_empty\<lparr>fc_storage := Some (ex_fs\<lparr>fs_pair_count := 1\<rparr>),
       fc_pair := [(Address 10, Address 11) \<mapsto> Address 100, (Address 11, Address 10) \<mapsto> Address 100],
       fc_pair_list := [Address 100], fc_total_pairs := Some 1, fc_is_pair := [Address 100 \<mapsto> True],
       fc_is_lp_token := [Address 50 \<mapsto> True]\<rparr>,
     sy_code = [9], sy_pairs = [Address 100 \<mapsto> ex_pair], sy_lps = [Address 50 \<mapsto> ex_pool_lp],
     sy_tok = ex_tokens 1000000 1000000, sy_log = []\<rparr>"

definition net_env :: env where
  "net_env = \<lparr>e_timestamp = 5000, e_sequence = 40, e_self = Address 61, e_auth = (\<lambda>a. a = Address 1)\<rparr>"

abbreviation net_clients :: "bank system clients" where
  "net_clients \<equiv> system_clients bank_ops (Address 99)"

definition net_router :: router_state where
  "net_router = router_empty\<lparr>rs_factory := Some (Address 99)\<rparr>"

lemma ex_net_registry: "registry_ok (Address 99) ex_net"
proof -
  have pair: "sy_pairs ex_net = [Address 100 \<mapsto> ex_pair]" "sy_lps ex_net = [Address 50 \<mapsto> ex_pool_lp]"
    "pair_identity ex_pair = Some (Address 99, Address 10, Address 11, Address 50)"
    "pc_frozen ex_pair = False" "pc_oracle ex_pair = empty_oracle" "lp_admin ex_pool_lp = Some (Address 100)"
    by (simp_all add: ex_net_def ex_pair_def ex_storage_def pair_identity_def pair_deployed_def ex_pool_lp_def)
  have fac: "fc_pair_list (sy_factory ex_net) = [Address 100]" "fc_total_pairs (sy_factory ex_net) = Some 1"
    "fc_is_pair (sy_factory ex_net) = [Address 100 \<mapsto> True]" "fc_pair_frozen (sy_factory ex_net) = Map.empty"
    "fc_storage (sy_factory ex_net) = Some (ex_fs\<lparr>fs_pair_count := 1\<rparr>)"
    by (simp_all add: ex_net_def factory_empty_def)
  have look: "fc_pair (sy_factory ex_net) (a, b) =
      (if (a, b) = (Address 10, Address 11) \<or> (a, b) = (Address 11, Address 10) then Some (Address 100) else None)"
    for a b
    by (auto simp: ex_net_def factory_empty_def)
  have "pair_entry (Address 99) ex_net (Address 100)"
    by (simp add: pair_entry_def pair look fac factory_is_pair_frozen_def)
  moreover have "fc_pair (sy_factory ex_net) (a, b) = fc_pair (sy_factory ex_net) (b, a)" for a b
    unfolding look by auto
  moreover have "p = Address 100 \<and> min a b = Address 10 \<and> max a b = Address 11"
    if "fc_pair (sy_factory ex_net) (a, b) = Some p" for a b p
    using that by (auto simp: look min_def max_def split: if_splits)
  ultimately show ?thesis
    unfolding registry_ok_def Let_def fac by (auto simp: pair get_total_pairs_def fac)
qed

lemma ex_net_outsiders: "pool_outsider ex_net (Address 1)" "pool_outsider ex_net (Address 61)"
  by (simp_all add: pool_outsider_def ex_net_def factory_fee_to_def fee_to_of_def ex_fs_def)

lemma ex_net_pool:
  "get_pair_address net_clients (Address 99) (ex_net\<lparr>sy_tok := tok\<rparr>) (Address 10) (Address 11) = Inr (Address 100)"
  "hop_pool net_clients (Address 99) ex_net (Address 10) (Address 11) = Inr (1000000, 1000000, 30)"
proof -
  show 1: "get_pair_address net_clients (Address 99) (ex_net\<lparr>sy_tok := tok\<rparr>) (Address 10) (Address 11) = Inr (Address 100)" for tok
    by (simp add: get_pair_address_def system_clients_simps factory_get_pair_def factory_is_pair_def ex_net_def
        or_panic_def ok_or_def reject_def)
  have "ex_net\<lparr>sy_tok := sy_tok ex_net\<rparr> = ex_net"
    by simp
  then have 2: "get_pair_address net_clients (Address 99) ex_net (Address 10) (Address 11) = Inr (Address 100)"
    using 1 by metis
  have pair: "sy_pairs ex_net (Address 100) = Some ex_pair" "fc_fee_override (sy_factory ex_net) = Map.empty"
    by (simp_all add: ex_net_def factory_empty_def)
  show "hop_pool net_clients (Address 99) ex_net (Address 10) (Address 11) = Inr (1000000, 1000000, 30)"
    unfolding hop_pool_def 2 get_pair_reserves_and_fee_def bindR_simps system_clients_simps ask_pair_def pair
      option.case
    by (simp add: pair pair_get_reserves_def pair_get_effective_fee_bps_def view_of_def sort_tokens_def
        swap_defs pool_defs int_ops_defs ok_or_def reject_def ok_result_def i128_checked_mul_def)
qed

lemma ex_net_quote: "get_amount_out 10000 1000000 1000000 30 = Inr 9871"
  by (simp add: get_amount_out_def map_errR_def quote_output_amount_def fee_factor_def policy_defs
      int_ops_defs)

definition net_tok1 :: bank where
  "net_tok1 = (ex_tokens 1000000 1000000)(Address 10 :=
     (ex_token [Address 1 \<mapsto> 4990000, Address 100 \<mapsto> 1010000])
       \<lparr>lp_log := [LE_transfer (Address 1) (Address 100) 10000]\<rparr>)"

lemma ex_net_pays:
  "cl_transfer net_clients net_env (Address 10) (Address 1) (Address 100) 10000 ex_net
     = Some (ex_net\<lparr>sy_tok := net_tok1\<rparr>)"
proof -
  have "tok_transfer bank_ops net_env (Address 10) (Address 1) (Address 100) 10000 (ex_tokens 1000000 1000000)
     = Some net_tok1"
    by (simp add: call_defs pool_defs int_ops_defs net_env_def net_tok1_def)
  moreover have "sy_tok ex_net = ex_tokens 1000000 1000000"
    by (simp add: ex_net_def)
  ultimately show ?thesis
    by (simp add: system_clients_simps)
qed

lemma ex_net_swaps:
  "\<exists>sy. cl_swap net_clients net_env (Address 100) 0 9871 (Address 1) (ex_net\<lparr>sy_tok := net_tok1\<rparr>) = Some sy"
proof -
  let ?sy = "ex_net\<lparr>sy_tok := net_tok1\<rparr>"
  have w: "world_of ?sy ex_pair = \<lparr>w_pair = ex_pair, w_lp = ex_pool_lp, w_tok = net_tok1, w_events = []\<rparr>"
    by (simp add: world_of_def lp_of_pair_def ex_pair_def ex_storage_def ex_net_def)
  have v: "view_of (sy_factory ?sy) = \<lparr>fv_fee_override = (\<lambda>_. Some None), fv_fee_to = Some None,
      fv_fee_bps = Some 0, fv_is_pair = (\<lambda>p. Some (factory_is_pair (sy_factory ?sy) p)),
      fv_is_lp_token = (\<lambda>t. Some (factory_is_lp_token (sy_factory ?sy) t))\<rparr>"
    by (simp add: view_of_def fee_to_of_def fee_bps_of_def ex_net_def ex_fs_def factory_empty_def)
  have "\<exists>w'. pair_swap bank_ops (view_of (sy_factory ?sy)) (nested_env net_env (Address 100)) 0 9871 (Address 1)
      (world_of ?sy ex_pair) = Inr ((), w')"
    unfolding w v
    by (simp add: pair_swap_def swap_defs call_defs pool_defs policy_defs int_ops_defs apply_time_decay_def
        net_tok1_def nested_env_def net_env_def)
  moreover have "sy_pairs ?sy (Address 100) = Some ex_pair"
    by (simp add: ex_net_def)
  ultimately show ?thesis
    by (auto simp: system_clients_simps on_pair_def or_panic_def)
qed

abbreviation net_path :: "address list" where
  "net_path \<equiv> [Address 10, Address 11]"

text \<open>The money flow of both swaps: the input goes to the pool, which pays the output.\<close>

lemma ex_net_flow:
  "\<exists>sy. pay_first_pool net_clients net_env (Address 99) (Address 1) net_path 10000 ex_net
      = Inr (ex_net\<lparr>sy_tok := net_tok1\<rparr>) \<and>
    run_hops net_clients net_env (Address 99) (Address 1) net_path [9871] (ex_net\<lparr>sy_tok := net_tok1\<rparr>) = Inr sy"
proof -
  have "get_pair_address net_clients (Address 99) ex_net (Address 10) (Address 11) = Inr (Address 100)"
    using ex_net_pool(1) [of "sy_tok ex_net"] by simp
  moreover obtain sy where
    "cl_swap net_clients net_env (Address 100) 0 9871 (Address 1) (ex_net\<lparr>sy_tok := net_tok1\<rparr>) = Some sy"
    using ex_net_swaps by blast
  ultimately show ?thesis
    using ex_net_pays
    by (simp add: pay_first_pool_def ex_net_pool(1) sort_tokens_def reject_def or_panic_def)
qed

lemma ex_net_checks:
  "5000 \<le> d \<Longrightarrow> check_deadline net_env d None = Inr ()" "e_auth net_env (Address 1)" "hop_count net_path = Inr 1"
  "rs_factory net_router = Some (Address 99)" "e_self net_env = Address 61"
  by (simp_all add: check_deadline_def net_env_def reject_def hop_count_def require_def net_router_def)

lemma ex_net_router_balance: "cl_balance net_clients tk (Address 61) ex_net = 0"
  by (simp add: system_clients_simps ex_net_def bank_ops_def ex_tokens_def ex_token_def lp_empty_def lp_balance_def)

lemma ex_net_multi_hop:
  assumes "5000 \<le> d" "rs_factory rs = Some (Address 99)"
  shows "\<exists>sy. swap_exact_tokens_multi_hop net_clients net_env net_path 10000 9000 (Address 1)
     d None rs ex_net = Inr (9871, sy)"
proof -
  have amounts: "get_path_amounts_out net_clients (Address 99) ex_net net_path 10000 = Inr [9871]"
    by (simp add: get_path_amounts_out_def ex_net_pool(2) ex_net_quote)
  have mins: "get_path_minimums net_clients (Address 99) ex_net net_path 9000 = Inr [9000]"
    by (simp add: get_path_minimums_def ex_net_pool(2) get_amount_in_def map_errR_def quote_input_amount_def
        fee_factor_def policy_defs int_ops_defs u256_defs)
  obtain sy where flow: "pay_first_pool net_clients net_env (Address 99) (Address 1) net_path 10000 ex_net
      = Inr (ex_net\<lparr>sy_tok := net_tok1\<rparr>)"
    "run_hops net_clients net_env (Address 99) (Address 1) net_path [9871] (ex_net\<lparr>sy_tok := net_tok1\<rparr>) = Inr sy"
    using ex_net_flow by blast
  have w1: "registry_ok (Address 99) (ex_net\<lparr>sy_tok := net_tok1\<rparr>)"
    "pool_outsider (ex_net\<lparr>sy_tok := net_tok1\<rparr>) = pool_outsider ex_net"
    using bank_net.transfer_keeps [OF ex_net_pays] ex_net_registry by auto
  have "cl_balance net_clients (Address 10) (Address 61) sy = 0"
    using bank_net.run_hops_delivers [OF flow(2) _ _ _ w1(1)] w1(2) ex_net_outsiders ex_net_checks(5)
      bank_net.transfer_moves [OF ex_net_pays, of "Address 10" "Address 61"] ex_net_router_balance
    by (simp add: moved_apply)
  then show ?thesis
    using amounts mins flow ex_net_checks assms
    by (simp add: swap_exact_tokens_multi_hop_def get_router_factory_def ok_or_def reject_def require_def Let_def)
qed

section \<open>Properties\<close>

text \<open>What an exact-in swap reports is the last amount of the quote for its path.\<close>

lemma multi_hop_quote:
  assumes "swap_exact_tokens_multi_hop cl e path x m to d dl rs w = Inr (out, w')"
  obtains f amounts where "rs_factory rs = Some f" "get_path_amounts_out cl f w path x = Inr amounts"
    "amounts \<noteq> []" "out = last amounts"
proof -
  obtain f amounts where q: "rs_factory rs = Some f" "get_path_amounts_out cl f w path x = Inr amounts"
    "out = amounts ! (length amounts - 1)"
    using assms by (auto simp: swap_exact_tokens_multi_hop_def get_router_factory_def res_inv Let_def
        split: if_splits)
  moreover have "amounts \<noteq> []"
    using q(2) length_hops_out by (fastforce simp: get_path_amounts_out_def res_inv)
  ultimately show ?thesis
    using that by (simp add: last_conv_nth)
qed

text \<open>
  C6. A routed exact-in swap delivers what it promises, over up to three pools of the deployment:
  the recipient authorised it and receives exactly the last amount of the quote for its path on
  the pools as they were, at least its minimum. It pays exactly the input, less the input tokens
  that were stranded on the router before, which it is given. The router ends with none of the
  input token and what it had of every other. The recipient and the router are neither pools nor
  the receiver of protocol fees.
\<close>

theorem exact_in_swap_delivers:
  assumes "sep41 T" "registry_ok self sy"
    and "swap_exact_tokens_multi_hop (system_clients T self) e path amount_in amount_out_min to deadline limit
      rs sy = Inr (out, sy')"
    and "to \<noteq> e_self e" "pool_outsider sy to" "pool_outsider sy (e_self e)"
    and "stranded = max 0 (tok_balance T (hd path) (e_self e) (sy_tok sy))"
  shows "e_auth e to \<and> 0 < out \<and> amount_out_min \<le> out \<and>
    (\<exists>factory amounts. rs_factory rs = Some factory \<and> amounts \<noteq> [] \<and> out = last amounts \<and>
       get_path_amounts_out (system_clients T self) factory sy path amount_in = Inr amounts) \<and>
    (\<forall>tk. tok_balance T tk to (sy_tok sy') = tok_balance T tk to (sy_tok sy)
       + (if tk = last path then out else 0) - (if tk = hd path then amount_in - stranded else 0)) \<and>
    (\<forall>tk. tok_balance T tk (e_self e) (sy_tok sy') = tok_balance T tk (e_self e) (sy_tok sy)
       - (if tk = hd path then stranded else 0))"
proof -
  obtain factory amounts where quote: "rs_factory rs = Some factory" "amounts \<noteq> []" "out = last amounts"
    "get_path_amounts_out (system_clients T self) factory sy path amount_in = Inr amounts"
    using multi_hop_quote [OF assms(3)] by blast
  note flow = pool_net.exact_in_delivers [OF pool_net_system [OF assms(1)] assms(3,2,5,6,4)]
  show ?thesis
    using flow quote assms(7) by (auto simp: system_clients_simps)
qed

theorem exact_in_swap_delivers_witness:
  "\<exists>sy. swap_exact_tokens_multi_hop net_clients net_env net_path 10000 9000 (Address 1)
     6000 None net_router ex_net = Inr (9871, sy) \<and>
     tok_balance bank_ops (Address 11) (Address 1) (sy_tok sy)
       = tok_balance bank_ops (Address 11) (Address 1) (sy_tok ex_net) + 9871"
proof -
  obtain sy where sy: "swap_exact_tokens_multi_hop net_clients net_env net_path 10000 9000
      (Address 1) 6000 None net_router ex_net = Inr (9871, sy)"
    using ex_net_multi_hop [OF _ ex_net_checks(4), of 6000] by auto
  have "Address 1 \<noteq> e_self net_env" "pool_outsider ex_net (e_self net_env)"
    using ex_net_outsiders(2) by (simp_all add: net_env_def)
  from exact_in_swap_delivers [OF lp_bank.sep41_axioms ex_net_registry sy this(1) ex_net_outsiders(1) this(2) refl]
  show ?thesis
    using sy by auto
qed

text \<open>
  C18. A routed exact-out swap delivers exactly the amount asked for and costs exactly the amount it
  reports, at most the caller's maximum; the router's own balances do not change.
\<close>

theorem exact_out_swap_delivers:
  assumes "sep41 T" "registry_ok self sy"
    and "swap_tokens_for_exact_tokens (system_clients T self) e amount_out amount_in_max path to deadline limit
      rs sy = Inr (paid, sy')"
    and "to \<noteq> e_self e" "pool_outsider sy to" "pool_outsider sy (e_self e)"
  shows "\<exists>x. paid = [x] \<and> e_auth e to \<and> 0 < x \<and> x \<le> amount_in_max \<and>
    tok_balance T tk to (sy_tok sy') = tok_balance T tk to (sy_tok sy)
      + (if tk = last path then amount_out else 0) - (if tk = hd path then x else 0) \<and>
    tok_balance T tk (e_self e) (sy_tok sy') = tok_balance T tk (e_self e) (sy_tok sy)"
  using pool_net.exact_out_delivers [OF pool_net_system [OF assms(1)] assms(3,2,5,6,4), of tk]
  by (auto simp: system_clients_simps)

lemma ex_net_exact_out:
  "\<exists>sy. swap_tokens_for_exact_tokens net_clients net_env 9871 10500 net_path (Address 1)
     6000 None net_router ex_net = Inr ([10000], sy)"
proof -
  have "hops_required net_clients (Address 99) ex_net net_path 9871 = Inr ([10000], 10000)"
    by (simp add: ex_net_pool(2) get_amount_in_def map_errR_def quote_input_amount_def
        fee_factor_def policy_defs int_ops_defs u256_defs)
  then show ?thesis
    using ex_net_flow ex_net_checks
    by (auto simp: swap_tokens_for_exact_tokens_def get_router_factory_def ok_or_def reject_def require_def)
qed

theorem exact_out_swap_delivers_witness:
  "\<exists>sy. swap_tokens_for_exact_tokens net_clients net_env 9871 10500 net_path (Address 1)
     6000 None net_router ex_net = Inr ([10000], sy) \<and>
     tok_balance bank_ops (Address 10) (Address 1) (sy_tok sy)
       = tok_balance bank_ops (Address 10) (Address 1) (sy_tok ex_net) - 10000"
proof -
  obtain sy where sy: "swap_tokens_for_exact_tokens net_clients net_env 9871 10500 net_path
      (Address 1) 6000 None net_router ex_net = Inr ([10000], sy)"
    using ex_net_exact_out by blast
  have "Address 1 \<noteq> e_self net_env" "pool_outsider ex_net (e_self net_env)"
    using ex_net_outsiders(2) by (simp_all add: net_env_def)
  from exact_out_swap_delivers [OF lp_bank.sep41_axioms ex_net_registry sy this(1) ex_net_outsiders(1) this(2),
      of "Address 10"]
  show ?thesis
    using sy by auto
qed

section \<open>Commit and reveal, end to end\<close>

lemma candidate_ends:
  "p \<in> set (candidate_paths rs token_in token_out) \<Longrightarrow> hd p = token_in \<and> last p = token_out"
  by (auto simp: candidate_paths_def two_hop_paths_def three_hop_paths_def)

lemma revealed_router:
  "rs_factory (set_nonce_used a n (free_slot a rs)) = rs_factory rs"
  "rs_hubs (set_nonce_used a n (free_slot a rs)) = rs_hubs rs"
  by (simp_all add: free_slot_def Let_def router_storage_defs)

text \<open>
  C23. A successful reveal is a good trade: the sender authorised it, gets exactly what the best of
  all candidate routes (direct, over one hub, over two hubs) quotes on the state it meets, at least
  the committed minimum, and pays exactly the committed input, less what was stranded on the router
  before; no other of its balances moves, and the router keeps none of the input token and what it
  had of every other.
\<close>

theorem reveal_delivers_best_swap:
  assumes "sep41 T" "registry_ok self sy" "rs_factory rs = Some f"
    and "reveal_swap (system_clients T self) h e s rs sy = Inr (out, rs', sy')"
    and "sc_sender s \<noteq> e_self e" "pool_outsider sy (sc_sender s)" "pool_outsider sy (e_self e)"
    and "stranded = max 0 (tok_balance T (sc_token_in s) (e_self e) (sy_tok sy))"
  shows "e_auth e (sc_sender s) \<and> 0 < out \<and> sc_min_out s \<le> out \<and>
    (\<forall>p \<in> set (candidate_paths rs (sc_token_in s) (sc_token_out s)). \<forall>o'.
       route_out (system_clients T self) f sy (sc_amount_in s) p = Inr (Some o') \<longrightarrow> o' \<le> out) \<and>
    (\<forall>tk. tok_balance T tk (sc_sender s) (sy_tok sy') = tok_balance T tk (sc_sender s) (sy_tok sy)
       + (if tk = sc_token_out s then out else 0) - (if tk = sc_token_in s then sc_amount_in s - stranded else 0)) \<and>
    (\<forall>tk. tok_balance T tk (e_self e) (sy_tok sy') = tok_balance T tk (e_self e) (sy_tok sy)
       - (if tk = sc_token_in s then stranded else 0))"
  using assms(4)
proof (rule reveal_swap_Inr)
  let ?cl = "system_clients T self"
  fix c path out0
  assume rs': "rs' = set_nonce_used (sc_sender s) (sc_nonce s) (free_slot (sc_sender s) rs)"
    and best: "get_best_path ?cl rs' sy (sc_token_in s) (sc_token_out s) (sc_amount_in s) = Inr (path, out0)"
    and swap: "swap_exact_tokens_multi_hop ?cl e path (sc_amount_in s) (sc_min_out s) (sc_sender s) u64_max None rs' sy
      = Inr (out, sy')"
  have f: "rs_factory rs' = Some f"
    using assms(3) by (simp add: rs' revealed_router)
  have "candidate_paths rs' = candidate_paths rs"
    by (simp add: rs' candidate_paths_def get_hubs_def revealed_router fun_eq_iff)
  note found = get_best_path_Inr [OF best f, unfolded this]
  have "out = out0"
    using found(4) f by (auto intro: multi_hop_quote [OF swap])
  moreover have "hd path = sc_token_in s" "last path = sc_token_out s"
    using candidate_ends [OF found(2)] by simp_all
  moreover note flow = pool_net.exact_in_delivers [OF pool_net_system [OF assms(1)] swap assms(2,6,7,5)]
  ultimately show ?thesis
    using found(5) assms(8) by (auto simp: system_clients_simps)
qed

definition net_commitment :: swap_commitment where
  "net_commitment = \<lparr>sc_sender = Address 1, sc_token_in = Address 10, sc_token_out = Address 11,
     sc_amount_in = 10000, sc_min_out = 9000, sc_nonce = 7, sc_salt = []\<rparr>"

lemma net_commitment_simps [simp]:
  "sc_sender net_commitment = Address 1" "sc_token_in net_commitment = Address 10"
  "sc_token_out net_commitment = Address 11" "sc_amount_in net_commitment = 10000"
  "sc_min_out net_commitment = 9000" "sc_nonce net_commitment = 7"
  by (simp_all add: net_commitment_def)

definition net_committed :: router_state where
  "net_committed = net_router\<lparr>rs_commit := [Address 1 \<mapsto>
     \<lparr>ce_hash = compute_swap_hash ex_host net_commitment, ce_ledger = 30\<rparr>], rs_commit_count := Some 1\<rparr>"

lemma ex_net_route: "route_out net_clients (Address 99) ex_net 10000 net_path = Inr (Some 9871)"
proof -
  have "get_pair_address net_clients (Address 99) ex_net (Address 10) (Address 11) = Inr (Address 100)"
    using ex_net_pool(1) [of "sy_tok ex_net"] by simp
  moreover have "get_pair_reserves_and_fee net_clients ex_net (Address 100) (Address 10) (Address 11)
      = Inr (1000000, 1000000, 30)"
    using ex_net_pool(2) calculation by (simp add: hop_pool_def)
  ultimately show ?thesis
    by (simp add: route_out_def ex_net_quote)
qed

lemma ex_net_reveal:
  "\<exists>rs' sy. reveal_swap net_clients ex_host net_env net_commitment net_committed ex_net = Inr (9871, rs', sy)"
proof -
  note One_nat_def [simp del]
  let ?rs = "set_nonce_used (Address 1) 7 (free_slot (Address 1) net_committed)"
  have rs: "rs_factory ?rs = Some (Address 99)" "get_hubs ?rs = []"
    by (simp_all add: revealed_router get_hubs_def net_committed_def net_router_def router_empty_def)
  have "get_best_path net_clients ?rs ex_net (Address 10) (Address 11) 10000 = Inr (net_path, 9871)"
    using rs ex_net_route
    by (simp add: get_best_path_stages [OF rs(1)] first_best_def two_hop_paths_def three_hop_paths_def reject_def)
  moreover obtain sy where "swap_exact_tokens_multi_hop net_clients net_env net_path 10000 9000 (Address 1)
      u64_max None ?rs ex_net = Inr (9871, sy)"
    using ex_net_multi_hop [OF _ rs(1), of u64_max] by (auto simp: u64_max_def)
  ultimately show ?thesis
    by (simp add: reveal_swap_def net_committed_def net_env_def get_commit_config_def ok_or_def
        net_router_def router_empty_def is_nonce_used_def default_commit_config_def commit_bounds
        u32_saturating_add_def u32_max_def reject_def Let_def)
qed

theorem reveal_delivers_best_swap_witness:
  "\<exists>rs' sy. reveal_swap net_clients ex_host net_env net_commitment net_committed ex_net = Inr (9871, rs', sy) \<and>
     tok_balance bank_ops (Address 11) (Address 1) (sy_tok sy)
       = tok_balance bank_ops (Address 11) (Address 1) (sy_tok ex_net) + 9871"
proof -
  obtain rs' sy where reveal: "reveal_swap net_clients ex_host net_env net_commitment net_committed ex_net
      = Inr (9871, rs', sy)"
    using ex_net_reveal by blast
  have "rs_factory net_committed = Some (Address 99)" "sc_sender net_commitment \<noteq> e_self net_env"
    "pool_outsider ex_net (sc_sender net_commitment)" "pool_outsider ex_net (e_self net_env)"
    using ex_net_outsiders by (simp_all add: net_committed_def net_router_def net_env_def)
  from reveal_delivers_best_swap [OF lp_bank.sep41_axioms ex_net_registry this(1) reveal this(2-4) refl]
  show ?thesis
    using reveal by auto
qed

end
