(* ===== verification/Deployment.thy ===== *)
theory Deployment
  imports Factory_Inv Pair_Others
begin

text \<open>
  The whole deployment: many pools that share their tokens, their LP tokens, the factory, and
  everybody else, interleaved in any order. A step of the deployment is a call of the factory, a
  call of one pool, a call of an LP token from outside, or activity on the pool tokens; the
  invariant of a single pool (\<open>Pair_Safety\<close>) is lifted to all of them with the guarantee that
  each call gives to the other pools (\<open>Pair_Others\<close>).
\<close>

section \<open>Reachable deployments\<close>

text \<open>
  \<open>allowed\<close> selects which entry points of the pools the run uses. No pool signs an invocation it
  does not run, the factory signs only its own; the receiver of a flash loan takes nothing from
  other pools; outside calls of an LP token burn no negative amounts; and the tokens move only
  what their holders authorised.
\<close>

inductive deployment ::
  "host \<Rightarrow> 'tok token_ops \<Rightarrow> address \<Rightarrow> (pair_call \<Rightarrow> bool) \<Rightarrow> 'tok system \<Rightarrow> bool"
  for h T self allowed where
  dep_start: "sy_factory sy = factory_empty \<Longrightarrow> sy_pairs sy = Map.empty \<Longrightarrow> sy_lps sy = Map.empty \<Longrightarrow>
     tok_solvent T (sy_tok sy) \<Longrightarrow> deployment h T self allowed sy"
| dep_factory: "deployment h T self allowed sy \<Longrightarrow> e_self e = self \<Longrightarrow> factory_call_typed op \<Longrightarrow>
     factory_step h e op sy = Inr sy' \<Longrightarrow> deployment h T self allowed sy'"
| dep_pool: "deployment h T self allowed sy \<Longrightarrow> allowed op \<Longrightarrow> \<not> e_auth e self \<Longrightarrow>
     \<forall>q \<in> dom (sy_pairs sy). \<not> e_auth e q \<Longrightarrow> receiver_keeps recv \<Longrightarrow> receiver_ok T (e_self e) recv \<Longrightarrow>
     receiver_fair T (dom (sy_pairs sy) - {e_self e}) recv \<Longrightarrow>
     pool_call T recv e op sy = Inr (u, sy') \<Longrightarrow> deployment h T self allowed sy'"
| dep_lp: "deployment h T self allowed sy \<Longrightarrow> sy_lps sy t = Some l \<Longrightarrow>
     (\<forall>a. lp_admin l = Some a \<longrightarrow> \<not> e_auth e a \<and> lp_outside_call a lop) \<Longrightarrow> lp_step c e lop l = Inr l' \<Longrightarrow>
     deployment h T self allowed (sy\<lparr>sy_lps := (sy_lps sy)(t \<mapsto> l')\<rparr>)"
| dep_tok: "deployment h T self allowed sy \<Longrightarrow> tok_fair T (dom (sy_pairs sy)) (sy_tok sy) tok \<Longrightarrow>
     deployment h T self allowed (sy\<lparr>sy_tok := tok\<rparr>)"

lemma deployment_reachable:
  "deployment h T self allowed sy \<Longrightarrow> system_reachable h T self sy"
proof (induction rule: deployment.induct)
  case (dep_lp sy t l e lop c l')
  then show ?case by (blast intro: sys_lp)
qed (blast intro: system_reachable.intros)+

section \<open>Sound pools\<close>

text \<open>The invariant of one pool; \<open>b\<close> says whether its reserves are known to be covered.\<close>

definition pool_sound :: "bool \<Rightarrow> 'tok token_ops \<Rightarrow> address \<Rightarrow> 'tok world \<Rightarrow> bool" where
  "pool_sound b T p w \<longleftrightarrow> pair_wf p w \<and> (b \<longrightarrow> backed T p w)"

definition pools_sound :: "bool \<Rightarrow> 'tok token_ops \<Rightarrow> 'tok system \<Rightarrow> bool" where
  "pools_sound b T sy \<longleftrightarrow>
     (\<forall>p c. sy_pairs sy p = Some c \<longrightarrow> pool_sound b T p (world_of sy c))"

definition lp_token_of :: "pair_contract \<Rightarrow> address option" where
  "lp_token_of c = map_option ps_lp_token (pc_state c)"

lemma pool_sound_events [simp]: "pool_sound b T p (w\<lparr>w_events := es\<rparr>) = pool_sound b T p w"
  by (simp add: pool_sound_def pair_inv_def backed_def fee_params_def get_fee_state_def get_pair_state_def)

lemma pool_sound_harmless: "pool_sound b T p w \<Longrightarrow> harmless T p w w' \<Longrightarrow> pool_sound b T p w'"
  using pair_inv_harmless unfolding pool_sound_def by blast

lemma harmless_tok:
  assumes "tok_fair T Q (w_tok w) t" "p \<in> Q"
  shows "harmless T p w (w\<lparr>w_tok := t\<rparr>)"
  using assms
  by (simp add: harmless_def pair_core_def fee_params_def lp_outside_ok_def tok_fair_def)

lemma world_of_put_self:
  assumes "pc_state (w_pair w) = Some ps"
  shows "world_of (put_world p w sy) (w_pair w) = w\<lparr>w_events := []\<rparr>"
  using assms by (cases w) (simp add: world_of_def put_world_def lp_of_pair_def)

lemma world_of_put_other:
  assumes "lp_token_of c \<noteq> lp_token_of (w_pair w)"
  shows "world_of (put_world p w sy) c = (world_of sy c)\<lparr>w_tok := w_tok w\<rparr>"
  using assms
  by (auto simp: world_of_def put_world_def lp_of_pair_def lp_token_of_def split: option.splits)

lemma world_of_frame:
  "sy_lps sy' = sy_lps sy \<Longrightarrow> sy_tok sy' = sy_tok sy \<Longrightarrow> world_of sy' c = world_of sy c"
  by (simp add: world_of_def lp_of_pair_def split: option.split)

lemma pools_sound_frame:
  "sy_pairs sy' = sy_pairs sy \<Longrightarrow> sy_lps sy' = sy_lps sy \<Longrightarrow> sy_tok sy' = sy_tok sy \<Longrightarrow>
    pools_sound b T sy' = pools_sound b T sy"
  by (simp add: pools_sound_def world_of_frame [of sy' sy])

text \<open>One pool is replaced by a sound one, fairly to the others.\<close>

lemma pools_sound_put:
  assumes "pools_sound b T sy" "pool_sound b T p w"
    and "tok_fair T (dom (sy_pairs sy) - {p}) (sy_tok sy) (w_tok w)"
    and "\<And>q c. sy_pairs sy q = Some c \<Longrightarrow> q \<noteq> p \<Longrightarrow> lp_token_of c \<noteq> lp_token_of (w_pair w)"
  shows "pools_sound b T (put_world p w sy)"
proof -
  have "pool_sound b T q (world_of (put_world p w sy) c)"
    if q: "sy_pairs (put_world p w sy) q = Some c" for q c
  proof (cases "q = p")
    case True
    moreover have "\<exists>ps. pc_state (w_pair w) = Some ps"
      using assms(2) by (auto simp: pool_sound_def pair_inv_def get_pair_state_def)
    ultimately show ?thesis
      using q assms(2) world_of_put_self [of w] by auto
  next
    case False
    with q have c: "sy_pairs sy q = Some c" by simp
    have "harmless T q (world_of sy c) ((world_of sy c)\<lparr>w_tok := w_tok w\<rparr>)"
      using False c by (intro harmless_tok [of _ "dom (sy_pairs sy) - {p}"]) (auto simp: assms(3))
    then show ?thesis
      using assms(1) c world_of_put_other [OF assms(4) [OF c False]] pool_sound_harmless
      by (fastforce simp: pools_sound_def)
  qed
  then show ?thesis by (simp add: pools_sound_def)
qed

text \<open>No two pools have the same LP token.\<close>

lemma registry_lp_tokens:
  assumes "registry_ok self sy" "sy_pairs sy p = Some c"
  shows "\<exists>t l. lp_token_of c = Some t \<and> sy_lps sy t = Some l \<and> lp_admin l = Some p"
  using registry_deployed [OF assms] assms(2)
  by (auto simp: pair_entry_def pair_identity_def lp_token_of_def)

lemma registry_lp_distinct:
  assumes "registry_ok self sy" "sy_pairs sy p = Some c" "sy_pairs sy q = Some d" "q \<noteq> p"
  shows "lp_token_of d \<noteq> lp_token_of c"
  using registry_lp_tokens [OF assms(1,2)] registry_lp_tokens [OF assms(1,3)] assms(4) by auto

lemma lp_token_of_fixed: "pair_fixed w = pair_fixed w' \<Longrightarrow> lp_token_of (w_pair w) = lp_token_of (w_pair w')"
  by (cases "pc_state (w_pair w)"; cases "pc_state (w_pair w')")
    (auto simp: pair_fixed_def pair_identity_def lp_token_of_def)

text \<open>A harmless change of one pool.\<close>

lemma pools_sound_harmless:
  assumes "pools_sound b T sy" "registry_ok self sy" "sy_pairs sy p = Some c"
    and "harmless T p (world_of sy c) w" "w_tok w = sy_tok sy"
  shows "pools_sound b T (put_world p w sy)"
proof (rule pools_sound_put [OF assms(1)])
  show "pool_sound b T p w"
    using assms(1,3,4) pool_sound_harmless unfolding pools_sound_def by blast
  show "tok_fair T (dom (sy_pairs sy) - {p}) (sy_tok sy) (w_tok w)"
    by (simp add: assms(5))
  have "lp_token_of (w_pair w) = lp_token_of c"
    using assms(4) by (simp add: harmless_def pair_core_def lp_token_of_def)
  then show "lp_token_of d \<noteq> lp_token_of (w_pair w)" if "sy_pairs sy q = Some d" "q \<noteq> p" for q d
    using registry_lp_distinct [OF assms(2,3) that] by simp
qed

section \<open>Every step keeps all pools sound\<close>

lemma receiver_strangers:
  assumes "\<forall>q \<in> dom (sy_pairs sy). \<not> e_auth e q"
  shows "strangers e (dom (sy_pairs sy) - {e_self e})"
  using assms by (auto simp: strangers_def)

context sep41_funded begin

lemma pool_call_sound:
  assumes "pool_call T recv e op sy = Inr (u, sy')" "pools_sound b T sy"
    and ok: "registry_ok self sy" "config_ok (sy_factory sy)" "tok_solvent T (sy_tok sy)"
    and e: "\<not> e_auth e self" "\<forall>q \<in> dom (sy_pairs sy). \<not> e_auth e q"
    and recv: "receiver_keeps recv" "receiver_ok T (e_self e) recv"
      "receiver_fair T (dom (sy_pairs sy) - {e_self e}) recv"
    and "b \<longrightarrow> \<not> single_sided_mint op"
  shows "pools_sound b T sy' \<and> tok_solvent T (sy_tok sy')"
proof -
  let ?p = "e_self e"
  obtain c w where c: "sy_pairs sy ?p = Some c" and
    step: "pair_step T (view_of (sy_factory sy)) recv e op (world_of sy c) = Inr w"
    and sy': "sy' = put_world ?p w sy"
    using assms(1) by (auto simp: pool_call_def on_pair_Inr res_inv)
  have fair: "tok_fair T (dom (sy_pairs sy) - {?p}) (sy_tok sy) (w_tok w)"
    using pair_step_fair [OF step receiver_strangers [OF e(2)] recv(3)] by simp
  have "pool_sound b T ?p (world_of sy c)"
    using assms(2) c by (simp add: pools_sound_def)
  moreover have "\<forall>bps. fv_fee_override (view_of (sy_factory sy)) ?p = Some (Some bps) \<longrightarrow> bps \<le> 10000"
    using config_view(2) [OF ok(2), of ?p] by (fastforce simp: view_of_def)
  ultimately have "pool_sound b T ?p w"
    using pair_step_wf [OF step _ refl _ recv(2) config_view(1) [OF ok(2)]] e(2) c ok(3) assms(11)
    by (auto simp: pool_sound_def tok_solvent_def)
  moreover have "\<forall>ps. pc_state (w_pair (world_of sy c)) = Some ps \<longrightarrow> \<not> e_auth e (ps_factory ps)"
    using registry_deployed [OF ok(1) c] c e(1) by (auto simp: pair_entry_def pair_identity_def)
  then have "lp_token_of (w_pair w) = lp_token_of c"
    using lp_token_of_fixed [OF pair_step_fixed [OF step recv(1)]] by simp
  ultimately show ?thesis
    using pools_sound_put [OF assms(2) _ fair] registry_lp_distinct [OF ok(1) c] sy'
      tok_fair_solvent [OF fair ok(3)] by simp
qed

end

lemma relay_sound:
  assumes "relay h p f sy = Inr sy'" "pools_sound b T sy" "registry_ok self sy"
    and "\<And>w u w'. f w = Inr (u, w') \<Longrightarrow> harmless T p w w' \<and> w_tok w' = w_tok w"
  shows "pools_sound b T sy' \<and> sy_tok sy' = sy_tok sy"
proof (cases "sy_pairs sy p")
  case None
  then show ?thesis
    using assms(1,2) by (auto simp: relay_def res_inv)
next
  case (Some c)
  then obtain u w where w: "f (world_of sy c) = Inr (u, w)" "sy' = put_world p w sy"
    using assms(1) by (auto simp: relay_def res_inv on_pair_Inr)
  then show ?thesis
    using pools_sound_harmless [OF assms(2,3) Some] assms(4) [OF w(1)] by auto
qed

lemma frozen_state_sound:
  assumes "set_pair_frozen_state e p f sy = Inr sy'" "pools_sound b T sy" "registry_ok self sy"
  shows "pools_sound b T sy' \<and> sy_tok sy' = sy_tok sy"
  using assms(1)
proof (cases rule: set_pair_frozen_state_Inr)
  case (1 c)
  let ?w = "(world_of sy c)\<lparr>w_pair := c\<lparr>pc_frozen := f\<rparr>\<rparr>"
  have "harmless T p (world_of sy c) ?w"
    by (simp add: harmless_def pair_core_def fee_params_def get_fee_state_def lp_outside_ok_def)
  then have "pools_sound b T (put_world p ?w sy)"
    using pools_sound_harmless [OF assms(2,3) 1(2)] by simp
  then show ?thesis
    using 1(3) pools_sound_frame [of sy' "put_world p ?w sy"] by simp
qed

lemma lp_base_fresh:
  assumes "lp_initialize p d n y lp_empty = Inr l"
  shows "lp_base p l" "lp_total_supply l = 0"
proof -
  have "lp_admin l = Some p" "lp_balances l = Map.empty" "lp_allowances l = Map.empty"
    and "lp_total_supply l = 0"
    using assms by (auto simp: lp_initialize_Inr lp_empty_def)
  then show "lp_base p l" "lp_total_supply l = 0"
    by (simp_all add: lp_base_def lp_supply_ok_def lp_balance_sum_def lp_balance_def)
qed

lemma create_pair_sound:
  assumes "factory_create_pair h e a b sy = Inr (p, sy')" "pools_sound k T sy"
    and "registry_ok (e_self e) sy" "tok_solvent T (sy_tok sy)"
  shows "pools_sound k T sy' \<and> sy_tok sy' = sy_tok sy"
  using assms(1)
proof (cases rule: create_pair_Inr)
  case (1 fs lp name symbol l w)
  note fresh = pair_initialize_fresh [OF 1(10)]
  note l = lp_base_fresh [OF 1(9)]
  have "pair_wf p w \<and> backed T p w"
    using pair_initialize_wf [OF 1(10), where self = p and T = T] l assms(4) by (simp add: tok_solvent_def)
  then have w: "pool_sound k T p w"
    by (simp add: pool_sound_def)
  have tok: "w_tok w = sy_tok sy" and "lp_token_of (w_pair w) = Some lp"
    using fresh(1,5) by (auto simp: pair_identity_def lp_token_of_def)
  moreover have "lp_token_of c \<noteq> Some lp" if "sy_pairs sy q = Some c" for q c
    using registry_lp_tokens [OF assms(3) that] 1(7) by (auto simp: address_free_def)
  ultimately have "pools_sound k T (put_world p w sy)"
    using pools_sound_put [OF assms(2) w] by auto
  then show ?thesis
    using 1(11) tok pools_sound_frame [of sy' "put_world p w sy"] by simp
qed

lemma factory_step_sound:
  assumes "factory_step h e op sy = Inr sy'" "pools_sound b T sy"
    and "registry_ok (e_self e) sy" "tok_solvent T (sy_tok sy)"
  shows "pools_sound b T sy' \<and> sy_tok sy' = sy_tok sy"
proof (cases "registry_neutral op")
  case True
  then show ?thesis
    using neutral_registry [OF assms(1)] pools_sound_frame [of sy' sy] assms(2) by simp
next
  case False
  then show ?thesis
  proof (cases op)
    case (FC_create_pair a b)
    then obtain p where "factory_create_pair h e a b sy = Inr (p, sy')"
      using assms(1) by (auto simp: res_inv)
    then show ?thesis by (rule create_pair_sound [OF _ assms(2-4)])
  next
    case (FC_freeze_pair s p)
    then obtain sy1 where sy1: "set_pair_frozen_state e p True sy = Inr sy1" "sy_pairs sy' = sy_pairs sy1"
      "sy_lps sy' = sy_lps sy1" "sy_tok sy' = sy_tok sy1"
      using assms(1) by (auto simp: factory_freeze_pair_def res_inv)
    then show ?thesis
      using frozen_state_sound [OF sy1(1) assms(2,3)] pools_sound_frame [of sy' sy1] by simp
  next
    case (FC_unfreeze_pair s p)
    then obtain sy1 where sy1: "set_pair_frozen_state e p False sy = Inr sy1" "sy_pairs sy' = sy_pairs sy1"
      "sy_lps sy' = sy_lps sy1" "sy_tok sy' = sy_tok sy1"
      using assms(1) by (auto simp: factory_unfreeze_pair_def res_inv)
    then show ?thesis
      using frozen_state_sound [OF sy1(1) assms(2,3)] pools_sound_frame [of sy' sy1] by simp
  next
    case (FC_set_pair_lp_token_paused s p x)
    have "harmless T p w w' \<and> w_tok w' = w_tok w"
      if "pair_set_lp_token_paused (nested_env e p) x w = Inr (u, w')" for w u w' and T :: "'a token_ops"
      using that admin_step_harmless [of T undefined undefined "nested_env e p" "PC_set_lp_token_paused x" w w']
      by (auto elim!: pair_set_lp_token_paused_Inr)
    then show ?thesis
      using FC_set_pair_lp_token_paused assms relay_sound [OF _ assms(2,3)]
      by (auto simp: factory_set_pair_lp_token_paused_def res_inv)
  next
    case (FC_set_pair_stale_threshold s p n)
    have "harmless T p w w' \<and> w_tok w' = w_tok w"
      if "pair_set_stale_threshold (nested_env e p) n w = Inr (u, w')" for w u w' and T :: "'a token_ops"
      using that admin_step_harmless [of T undefined undefined "nested_env e p" "PC_set_stale_threshold n" w w']
      by (auto simp: pair_set_stale_threshold_def res_inv)
    then show ?thesis
      using FC_set_pair_stale_threshold assms relay_sound [OF _ assms(2,3)]
      by (auto simp: factory_set_pair_stale_threshold_def res_inv)
  next
    case (FC_initialize s a b' c f)
    then have "sy_pairs sy' = sy_pairs sy \<and> sy_lps sy' = sy_lps sy \<and> sy_tok sy' = sy_tok sy"
      using assms(1) by (auto simp: factory_initialize_def res_inv)
    then show ?thesis
      using assms(2) pools_sound_frame [of sy' sy] by simp
  qed (use assms in auto)
qed

section \<open>The invariant of the deployment\<close>

lemma lp_step_sound:
  assumes "sy_lps sy t = Some l" "lp_step c e lop l = Inr l'"
    and "\<forall>a. lp_admin l = Some a \<longrightarrow> \<not> e_auth e a \<and> lp_outside_call a lop"
    and "registry_ok self sy" "pools_sound b T sy"
  shows "pools_sound b T (sy\<lparr>sy_lps := (sy_lps sy)(t \<mapsto> l')\<rparr>)" (is "pools_sound b T ?sy")
proof -
  have "pool_sound b T p (world_of ?sy pc)" if p: "sy_pairs sy p = Some pc" for p pc
  proof (cases "lp_token_of pc = Some t")
    case True
    then have "lp_of_pair sy pc = l" and w: "world_of ?sy pc = (world_of sy pc)\<lparr>w_lp := l'\<rparr>"
      using assms(1) by (auto simp: lp_token_of_def world_of_def lp_of_pair_def)
    moreover have "lp_admin l = Some p"
      using registry_lp_tokens [OF assms(4) p] True assms(1) by auto
    ultimately have "outside T p (world_of sy pc) (world_of ?sy pc)"
      using outside_lp [OF outside_done, of c e lop "world_of sy pc" l' p T] assms(2,3) by simp
    then show ?thesis
      using assms(5) p pool_sound_harmless [OF _ outside_harmless] unfolding pools_sound_def by blast
  next
    case False
    then have "world_of ?sy pc = world_of sy pc"
      by (auto simp: lp_token_of_def world_of_def lp_of_pair_def split: option.splits)
    then show ?thesis
      using assms(5) p by (simp add: pools_sound_def)
  qed
  then show ?thesis by (simp add: pools_sound_def)
qed

context sep41_funded begin

lemma deployment_sound:
  assumes "deployment h T self allowed sy" "b \<Longrightarrow> \<forall>op. allowed op \<longrightarrow> \<not> single_sided_mint op"
  shows "pools_sound b T sy \<and> tok_solvent T (sy_tok sy)"
  using assms(1)
proof (induction rule: deployment.induct)
  case (dep_start sy)
  then show ?case by (simp add: pools_sound_def)
next
  case (dep_factory sy e op sy')
  then have "registry_ok (e_self e) sy"
    using system_registry [OF deployment_reachable] by blast
  then show ?case
    using dep_factory factory_step_sound by metis
next
  case (dep_pool sy op e recv u sy')
  note reach = deployment_reachable [OF dep_pool.hyps(1)]
  show ?case
    using pool_call_sound [OF dep_pool.hyps(8) _ system_registry [OF reach] system_config [OF reach]]
      dep_pool.hyps(2-7) dep_pool.IH assms(2) by blast
next
  case (dep_lp sy t l e lop c l')
  then show ?case
    using lp_step_sound [OF dep_lp.hyps(2,4,3) system_registry [OF deployment_reachable [OF dep_lp.hyps(1)]]]
    by simp
next
  case (dep_tok sy tok)
  have "pool_sound b T p (world_of (sy\<lparr>sy_tok := tok\<rparr>) c)" if "sy_pairs sy p = Some c" for p c
  proof -
    have "world_of (sy\<lparr>sy_tok := tok\<rparr>) c = (world_of sy c)\<lparr>w_tok := tok\<rparr>"
      by (simp add: world_of_def lp_of_pair_def split: option.split)
    moreover have "harmless T p (world_of sy c) ((world_of sy c)\<lparr>w_tok := tok\<rparr>)"
      using dep_tok.hyps(2) that by (intro harmless_tok) auto
    ultimately show ?thesis
      using dep_tok.IH that pool_sound_harmless unfolding pools_sound_def by metis
  qed
  then show ?case
    using dep_tok.IH tok_fair_solvent [OF dep_tok.hyps(2)] by (simp add: pools_sound_def)
qed

end

end
