(* ===== verification/Router_Deployment.thy ===== *)
theory Router_Deployment
  imports Router_Net Deployment
begin

text \<open>
  The router as one more user of the deployment. Everything it does to other contracts is a swap,
  a mint, a staging of LP, a burn or a transfer; the locale \<open>steady_clients\<close> says of a predicate
  that each of these keeps it, and its lemmas that every entry point of the router does. The
  interpretation is the deployment: whatever the router does is a run of ordinary steps.
\<close>

section \<open>The entry points that move tokens\<close>

datatype router_op =
  RO_swap_exact_in int int "address list" address int "int option"
| RO_swap_exact_out int int "address list" address int "int option"
| RO_add_liquidity address address int int int int address int "int option"
| RO_remove_liquidity address address int int int address int "int option"
| RO_sweep address address
| RO_reveal swap_commitment

fun router_moves ::
  "'w clients \<Rightarrow> host \<Rightarrow> env \<Rightarrow> router_op \<Rightarrow> router_state \<Rightarrow> 'w \<Rightarrow> (router_error, 'w) res" where
  "router_moves cl h e (RO_swap_exact_in x m path to d dl) rs w =
     bindR (swap_exact_tokens_for_tokens cl e x m path to d dl rs w) (\<lambda>(_, w'). Inr w')"
| "router_moves cl h e (RO_swap_exact_out x m path to d dl) rs w =
     bindR (swap_tokens_for_exact_tokens cl e x m path to d dl rs w) (\<lambda>(_, w'). Inr w')"
| "router_moves cl h e (RO_add_liquidity a b x y xm ym to d dl) rs w =
     bindR (router_add_liquidity cl e a b x y xm ym to d dl rs w) (\<lambda>(_, w'). Inr w')"
| "router_moves cl h e (RO_remove_liquidity a b l xm ym to d dl) rs w =
     bindR (router_remove_liquidity cl e a b l xm ym to d dl rs w) (\<lambda>(_, w'). Inr w')"
| "router_moves cl h e (RO_sweep t r) rs w = bindR (router_sweep cl e t r rs w) (\<lambda>(_, w'). Inr w')"
| "router_moves cl h e (RO_reveal s) rs w =
     bindR (reveal_swap cl h e s rs w) (\<lambda>(_, _, w'). Inr w')"

section \<open>What every call of the router keeps\<close>

locale steady_clients =
  fixes cl :: "'w clients" and steady :: "env \<Rightarrow> 'w \<Rightarrow> bool"
  assumes swap_steady: "cl_swap cl e p x y to w = Some w' \<Longrightarrow> steady e w \<Longrightarrow> steady e w'"
    and mint_steady: "cl_mint cl e p to w = Some (l, w') \<Longrightarrow> steady e w \<Longrightarrow> steady e w'"
    and deposit_steady: "cl_deposit_lp cl e p who x w = Some w' \<Longrightarrow> steady e w \<Longrightarrow> steady e w'"
    and burn_steady: "cl_burn cl e p to w = Some (ab, w') \<Longrightarrow> steady e w \<Longrightarrow> steady e w'"
    and transfer_steady: "cl_transfer cl e tk f t x w = Some w' \<Longrightarrow> steady e w \<Longrightarrow> steady e w'"
begin

lemma run_hops_steady:
  "run_hops cl e fac to path outs w = Inr w' \<Longrightarrow> steady e w \<Longrightarrow> steady e w'"
proof (induction path arbitrary: outs w rule: induct_list012)
  case (3 a b path)
  show ?case
  proof (cases outs)
    case Nil
    then show ?thesis using "3.prems" by simp
  next
    case (Cons x xs)
    show ?thesis
    proof (cases path)
      case Nil
      then show ?thesis
        using "3.prems" Cons swap_steady by (auto simp: res_inv Let_def split: if_splits)
    next
      case c: (Cons c rest)
      then obtain p y z dest w1 q w2 where "cl_swap cl e p y z dest w = Some w1"
        "cl_transfer cl e b (e_self e) q x w1 = Some w2" "run_hops cl e fac to (b # path) xs w2 = Inr w'"
        using "3.prems"(1) Cons by (auto simp: res_inv Let_def split: if_splits)
      then show ?thesis
        using "3.IH"(2) "3.prems"(2) swap_steady transfer_steady by blast
    qed
  qed
qed auto

lemma pay_first_pool_steady:
  "pay_first_pool cl e fac to path x w = Inr w' \<Longrightarrow> steady e w \<Longrightarrow> steady e w'"
  using transfer_steady by (auto simp: pay_first_pool_def res_inv Let_def)

lemma exact_in_steady:
  assumes "swap_exact_tokens_multi_hop cl e path x m to d dl rs w = Inr (y, w')" "steady e w"
  shows "steady e w'"
proof -
  obtain fac w1 amounts w2 where pay: "pay_first_pool cl e fac to path x w = Inr w1"
    and run: "run_hops cl e fac to path amounts w1 = Inr w2"
    and dust: "if cl_balance cl (path ! 0) (e_self e) w2 > 0
      then cl_transfer cl e (path ! 0) (e_self e) to (cl_balance cl (path ! 0) (e_self e) w2) w2 = Some w'
      else w' = w2"
    using assms(1) by (auto simp: swap_exact_tokens_multi_hop_def res_inv Let_def split: if_splits)
  have "steady e w2"
    using run pay assms(2) pay_first_pool_steady run_hops_steady by blast
  then show ?thesis
    using dust transfer_steady by (auto split: if_splits)
qed

lemma exact_out_steady:
  assumes "swap_tokens_for_exact_tokens cl e x m path to d dl rs w = Inr (y, w')" "steady e w"
  shows "steady e w'"
proof -
  obtain fac n w1 amounts where "pay_first_pool cl e fac to path n w = Inr w1"
    "run_hops cl e fac to path amounts w1 = Inr w'"
    using assms(1) by (auto simp: swap_tokens_for_exact_tokens_def res_inv Let_def)
  then show ?thesis
    using assms(2) pay_first_pool_steady run_hops_steady by blast
qed

lemma add_liquidity_steady:
  assumes "router_add_liquidity cl e a b x y xm ym to d dl rs w = Inr (r, w')" "steady e w"
  shows "steady e w'"
proof -
  obtain t0 t1 p n m w1 w2 l where "cl_transfer cl e t0 to p n w = Some w1"
    "cl_transfer cl e t1 to p m w1 = Some w2" "cl_mint cl e p to w2 = Some (l, w')"
    using assms(1) by (auto simp: router_add_liquidity_def res_inv Let_def split: if_splits)
  then show ?thesis
    using assms(2) transfer_steady mint_steady by blast
qed

lemma remove_liquidity_steady:
  assumes "router_remove_liquidity cl e a b l xm ym to d dl rs w = Inr (r, w')" "steady e w"
  shows "steady e w'"
proof -
  obtain p w1 ab where "cl_deposit_lp cl e p to l w = Some w1" "cl_burn cl e p to w1 = Some (ab, w')"
    using assms(1) by (auto simp: router_remove_liquidity_def res_inv Let_def split: if_splits)
  then show ?thesis
    using assms(2) deposit_steady burn_steady by blast
qed

lemma router_steady:
  assumes "router_moves cl h e op rs w = Inr w'" "steady e w"
  shows "steady e w'"
proof (cases op)
  case (RO_swap_exact_in x m path to d dl)
  then show ?thesis
    using assms exact_in_steady by (auto simp: swap_exact_tokens_for_tokens_def res_inv)
next
  case (RO_sweep t r)
  then show ?thesis
    using assms transfer_steady by (auto simp: router_sweep_def res_inv Let_def)
next
  case (RO_reveal s)
  then show ?thesis
    using assms exact_in_steady by (auto simp: reveal_swap_def res_inv Let_def)
qed (use assms exact_out_steady add_liquidity_steady remove_liquidity_steady in \<open>auto simp: res_inv\<close>)

end

section \<open>The deployment is steady\<close>

text \<open>
  The router's invocation is signed neither by the factory nor by a pool; it leaves the factory
  as \<open>fc\<close> and the deployed pools as \<open>D\<close>.
\<close>

definition router_steady_on ::
  "host \<Rightarrow> 'tok token_ops \<Rightarrow> address \<Rightarrow> (pair_call \<Rightarrow> bool) \<Rightarrow> factory_state \<Rightarrow> address set \<Rightarrow>
     env \<Rightarrow> 'tok system \<Rightarrow> bool" where
  "router_steady_on h T self allowed fc D e sy \<longleftrightarrow>
     deployment h T self allowed sy \<and> sy_factory sy = fc \<and> dom (sy_pairs sy) = D \<and>
     strangers e (insert self D)"

text \<open>A call of a pool on behalf of the router is a step of the deployment.\<close>

lemma on_pair_steady:
  assumes "on_pair p f sy = Inr (x, sy')" "router_steady_on h T self allowed fc D e sy" "allowed op"
    and "\<And>w y w'. f w = Inr (y, w') \<Longrightarrow>
      pair_step T (view_of (sy_factory sy)) silent_receiver (nested_env e p) op w = Inr w'"
  shows "router_steady_on h T self allowed fc D e sy'"
proof -
  obtain c w where c: "sy_pairs sy p = Some c" "f (world_of sy c) = Inr (x, w)" "sy' = put_world p w sy"
    using assms(1) by (auto simp: on_pair_Inr)
  have call: "pool_call T silent_receiver (nested_env e p) op sy = Inr ((), sy')"
    using c assms(4) [OF c(2)] by (simp add: pool_call_def on_pair_def or_panic_def)
  have "strangers e (insert self (dom (sy_pairs sy)))"
    using assms(2) by (auto simp: router_steady_on_def)
  then have auth: "\<not> e_auth (nested_env e p) self" "\<forall>q \<in> dom (sy_pairs sy). \<not> e_auth (nested_env e p) q"
    by (auto simp: strangers_def)
  have "deployment h T self allowed sy'"
    by (rule dep_pool [where op = op and e = "nested_env e p" and recv = silent_receiver and sy = sy
          and allowed = allowed, OF _ _ _ _ _ _ _ call])
      (use assms(2,3) auth in \<open>simp_all add: router_steady_on_def\<close>)
  moreover have "dom (sy_pairs sy') = dom (sy_pairs sy)"
    using c(1,3) by auto
  ultimately show ?thesis
    using assms(2) c(3) by (simp add: router_steady_on_def)
qed

lemma steady_system:
  assumes "sep41_funded T" "\<forall>op. \<not> single_sided_mint op \<longrightarrow> allowed op"
  shows "steady_clients (system_clients T self) (router_steady_on h T self allowed fc D)"
proof
  fix e p x y to and w w' :: "'a system"
  assume "cl_swap (system_clients T self) e p x y to w = Some w'" and ok: "router_steady_on h T self allowed fc D e w"
  then obtain u where "on_pair p (pair_swap T (view_of (sy_factory w)) (nested_env e p) x y to) w = Inr (u, w')"
    by (auto simp: system_clients_def)
  then show "router_steady_on h T self allowed fc D e w'"
    by (rule on_pair_steady [OF _ ok, of _ _ _ _ "PC_swap x y to"]) (use assms(2) in auto)
next
  fix e p to l and w w' :: "'a system"
  assume "cl_mint (system_clients T self) e p to w = Some (l, w')" and ok: "router_steady_on h T self allowed fc D e w"
  then obtain u where "on_pair p (pair_mint T (nested_env e p) to) w = Inr (u, w')"
    by (auto simp: system_clients_def)
  then show "router_steady_on h T self allowed fc D e w'"
    by (rule on_pair_steady [OF _ ok, of _ _ _ _ "PC_mint to"]) (use assms(2) in auto)
next
  fix e p who x and w w' :: "'a system"
  assume "cl_deposit_lp (system_clients T self) e p who x w = Some w'" and ok: "router_steady_on h T self allowed fc D e w"
  then obtain u where "on_pair p (pair_deposit_lp (nested_env e p) who x) w = Inr (u, w')"
    by (auto simp: system_clients_def)
  then show "router_steady_on h T self allowed fc D e w'"
    by (rule on_pair_steady [OF _ ok, of _ _ _ _ "PC_deposit_lp who x"]) (use assms(2) in auto)
next
  fix e p to ab and w w' :: "'a system"
  assume "cl_burn (system_clients T self) e p to w = Some (ab, w')" and ok: "router_steady_on h T self allowed fc D e w"
  then obtain u where "on_pair p (pair_burn T (nested_env e p) to) w = Inr (u, w')"
    by (auto simp: system_clients_def)
  then show "router_steady_on h T self allowed fc D e w'"
    by (rule on_pair_steady [OF _ ok, of _ _ _ _ "PC_burn to"]) (use assms(2) in auto)
next
  fix e tk f t x and w w' :: "'a system"
  assume "cl_transfer (system_clients T self) e tk f t x w = Some w'" and ok: "router_steady_on h T self allowed fc D e w"
  then obtain tok where tok: "tok_transfer T e tk f t x (sy_tok w) = Some tok" "w' = w\<lparr>sy_tok := tok\<rparr>"
    by (auto simp: system_clients_def)
  have "tok_fair T (dom (sy_pairs w)) (sy_tok w) tok"
    using ok by (intro sep41_funded.transfer_fair [OF assms(1) tok(1)])
      (auto simp: router_steady_on_def strangers_def)
  then show "router_steady_on h T self allowed fc D e w'"
    using ok tok(2) dep_tok by (auto simp: router_steady_on_def)
qed

interpretation bank_steady:
  steady_clients "system_clients bank_ops self" "router_steady_on h bank_ops self (\<lambda>op. \<not> single_sided_mint op) fc D"
  by (rule steady_system [OF lp_bank_funded.sep41_funded_axioms]) simp

end
