(* ===== verification/Deployment_Props.thy ===== *)
theory Deployment_Props
  imports Router_Deployment Pair_Effects Factory_Props Pair_Props2
begin

text \<open>
  The properties of the whole deployment. Their witnesses run on a deployment that is built step
  by step: the factory is initialised, a user gets tokens, the factory creates a pool of them,
  and the user funds it through the router.
\<close>

section \<open>A deployment built step by step\<close>

definition user_token :: lp_state where
  "user_token = lp_empty\<lparr>lp_balances := [Address 3 \<mapsto> 5000000], lp_total_supply := 5000000\<rparr>"

definition user_tok :: bank where
  "user_tok = (\<lambda>_. lp_empty)(Address 1 := user_token, Address 2 := user_token)"

definition ex_sys2 :: "bank system" where
  "ex_sys2 = ex_sys1\<lparr>sy_tok := user_tok\<rparr>"

definition new_storage :: pair_storage where
  "new_storage = \<lparr>ps_factory = Address 50, ps_token_a = Address 1, ps_token_b = Address 2,
     ps_lp_token = Address 1988, ps_reserve_a = 0, ps_reserve_b = 0, ps_timestamp_last = 1000, ps_k_last = 0\<rparr>"

definition new_pool :: pair_contract where
  "new_pool = pair_deployed\<lparr>pc_state := Some new_storage, pc_fee := Some initial_fee_state\<rparr>"

abbreviation (input) plain_call :: "pair_call \<Rightarrow> bool" where
  "plain_call op \<equiv> \<not> single_sided_mint op"

lemma ex_sys2_deployment: "deployment ex_host bank_ops (Address 50) plain_call ex_sys2"
proof -
  have "tok_solvent bank_ops (sy_tok ex_sys0)"
    by (simp add: tok_solvent_def bank_ops_def ex_sys0_def)
  then have "deployment ex_host bank_ops (Address 50) plain_call ex_sys0"
    by (intro dep_start) (simp_all add: ex_sys0_def)
  then have "deployment ex_host bank_ops (Address 50) plain_call ex_sys1"
    by (rule dep_factory [where e = fac_env and
          op = "FC_initialize [Address 10, Address 11, Address 12] [1] [2] [3] (Address 20)"])
      (simp_all add: ex_initialize_ok)
  then show ?thesis
    unfolding ex_sys2_def
    by (rule dep_tok)
      (simp add: tok_fair_def tok_solvent_def bank_ops_def user_tok_def user_token_def lp_balance_def
        ex_sys1_def ex_sys0_def lp_empty_def)
qed

lemma ex_pool_created:
  obtains sy l where "deployment ex_host bank_ops (Address 50) plain_call sy"
    "sy_pairs sy = [Address 118 \<mapsto> new_pool]" "sy_lps sy = [Address 1988 \<mapsto> l]"
    "lp_admin l = Some (Address 118)" "lp_total_supply l = 0" "lp_balances l = Map.empty"
    "\<not> lp_paused l" "sy_tok sy = user_tok"
    "sy_factory sy = register_pair (Address 1) (Address 2) (Address 118) (Address 1988) ex_fs
       (factory_empty\<lparr>fc_storage := Some ex_fs\<rparr>)"
proof -
  have sys2: "sy_factory ex_sys2 = factory_empty\<lparr>fc_storage := Some ex_fs\<rparr>" "sy_tok ex_sys2 = user_tok"
    "sy_pairs ex_sys2 = Map.empty" "sy_lps ex_sys2 = Map.empty"
    by (simp_all add: ex_sys2_def ex_sys1_def ex_sys0_def)
  have "create_args_ok ex_host fac_env (Address 1) (Address 2) ex_sys2"
    using ex_create_args by (simp add: create_args_ok_def ex_sys2_def address_free_def)
  then obtain p sy where *: "factory_create_pair ex_host fac_env (Address 1) (Address 2) ex_sys2 = Inr (p, sy)"
    using create_pair_ok [of ex_host fac_env "Address 1" "Address 2" ex_sys2] refused_view_knows_nothing
    by (auto simp: ex_host_def)
  show ?thesis
    using *
  proof (cases rule: create_pair_Inr)
    case (1 fs lp name symbol l w)
    have addr: "p = Address 118" "lp = Address 1988" "fs = ex_fs"
      using 1(3,5,12) by (simp_all add: ex_host_def fac_env_def pair_salt_def lp_salt_def sys2 min_def
          max_def less_eq_address_def)
    have mm: "min (Address 1) (Address 2) = Address 1" "max (Address 1) (Address 2) = Address 2"
      by (simp_all add: min_def max_def less_eq_address_def)
    have w: "w = \<lparr>w_pair = new_pool, w_lp = l, w_tok = user_tok, w_events = []\<rparr>"
      using 1(10)
      by (auto simp: addr mm sys2 pair_initialize_def res_inv Let_def new_pool_def new_storage_def
          set_pair_def set_fee_state_def set_pair_state_def pair_deployed_def fac_env_def)
    have "deployment ex_host bank_ops (Address 50) plain_call sy"
      using * by (intro dep_factory [OF ex_sys2_deployment, of fac_env "FC_create_pair (Address 1) (Address 2)"])
        simp_all
    moreover have "sy_pairs sy = [Address 118 \<mapsto> new_pool]" "sy_lps sy = [Address 1988 \<mapsto> l]"
      "sy_tok sy = user_tok" "sy_factory sy = register_pair (Address 1) (Address 2) (Address 118)
         (Address 1988) ex_fs (factory_empty\<lparr>fc_storage := Some ex_fs\<rparr>)"
      using 1(11) by (simp_all add: addr mm w sys2 put_world_def new_pool_def new_storage_def)
    ultimately show ?thesis
      using 1(9) by (intro that [of sy l]) (auto simp: addr lp_initialize_Inr lp_empty_def)
  qed
qed

text \<open>The user funds the pool through the router.\<close>

definition user_env :: env where
  "user_env = \<lparr>e_timestamp = 5000, e_sequence = 60010, e_self = Address 61, e_auth = (\<lambda>a. a = Address 3)\<rparr>"

definition user_router :: router_state where
  "user_router = router_empty\<lparr>rs_factory := Some (Address 50)\<rparr>"

abbreviation user_clients :: "bank system clients" where
  "user_clients \<equiv> system_clients bank_ops (Address 50)"

definition funded_pool :: pair_contract where
  "funded_pool = new_pool\<lparr>pc_state := Some (new_storage\<lparr>ps_reserve_a := 1000000, ps_reserve_b := 1000000,
     ps_timestamp_last := 5000, ps_k_last := 1000000000000\<rparr>)\<rparr>"

abbreviation (input) user_deposit :: router_op where
  "user_deposit \<equiv> RO_add_liquidity (Address 1) (Address 2) 1000000 1000000 900000 900000 (Address 3) 9000 None"

definition paid_token :: lp_state where
  "paid_token = user_token\<lparr>lp_balances := [Address 3 \<mapsto> 4000000, Address 118 \<mapsto> 1000000],
     lp_log := [LE_transfer (Address 3) (Address 118) 1000000]\<rparr>"

definition paid_tok :: bank where
  "paid_tok = user_tok(Address 1 := paid_token, Address 2 := paid_token)"

lemma user_pays:
  "tok_transfer bank_ops user_env (Address 1) (Address 3) (Address 118) 1000000 user_tok
     = Some (user_tok(Address 1 := paid_token))"
  "tok_transfer bank_ops user_env (Address 2) (Address 3) (Address 118) 1000000 (user_tok(Address 1 := paid_token))
     = Some paid_tok"
  by (simp_all add: call_defs user_env_def user_tok_def user_token_def paid_token_def paid_tok_def lp_empty_def
      int_ops_defs fun_upd_twist)

text \<open>What is known of the LP token of the funded pool.\<close>

definition funded_lp :: "lp_state \<Rightarrow> bool" where
  "funded_lp l \<longleftrightarrow> lp_admin l = Some (Address 118) \<and> lp_total_supply l = 1000000 \<and>
     lp_balances l = [Address 118 \<mapsto> 1000, Address 3 \<mapsto> 999000] \<and> \<not> lp_paused l"

lemma first_mint:
  assumes "lp_admin l = Some (Address 118)" "lp_total_supply l = 0" "lp_balances l = Map.empty" "\<not> lp_paused l"
  shows "\<exists>w. pair_mint bank_ops (nested_env user_env (Address 118)) (Address 3)
      \<lparr>w_pair = new_pool, w_lp = l, w_tok = paid_tok, w_events = []\<rparr> = Inr (999000, w) \<and>
    w_pair w = funded_pool \<and> w_tok w = paid_tok \<and> funded_lp (w_lp w)"
  using assms
  by (simp add: pair_mint_def mint_liquidity_def initial_liquidity_def sqrt_i128_def newton.simps
      new_pool_def new_storage_def funded_pool_def funded_lp_def user_env_def nested_env_def paid_tok_def
      paid_token_def call_defs pool_defs policy_defs int_ops_defs)

lemma ex_funded:
  obtains sy sy' l where "deployment ex_host bank_ops (Address 50) plain_call sy"
    "dom (sy_pairs sy) = {Address 118}"
    "router_add_liquidity user_clients user_env (Address 1) (Address 2) 1000000 1000000 900000 900000
       (Address 3) 9000 None user_router sy = Inr ((1000000, 1000000, 999000), sy')"
    "sy_pairs sy' = [Address 118 \<mapsto> funded_pool]" "sy_lps sy' = [Address 1988 \<mapsto> l]" "funded_lp l"
    "sy_tok sy' = paid_tok" "sy_factory sy' = sy_factory sy"
    "get_pair_address user_clients (Address 50) sy' (Address 1) (Address 2) = Inr (Address 118)"
proof -
  note One_nat_def [simp del]
  obtain sy l where sy: "deployment ex_host bank_ops (Address 50) plain_call sy"
    "sy_pairs sy = [Address 118 \<mapsto> new_pool]" "sy_lps sy = [Address 1988 \<mapsto> l]"
    "lp_admin l = Some (Address 118)" "lp_total_supply l = 0" "lp_balances l = Map.empty"
    "\<not> lp_paused l" "sy_tok sy = user_tok"
    "sy_factory sy = register_pair (Address 1) (Address 2) (Address 118) (Address 1988) ex_fs
       (factory_empty\<lparr>fc_storage := Some ex_fs\<rparr>)"
    by (rule ex_pool_created)
  have pair: "get_pair_address user_clients (Address 50) sy (Address 1) (Address 2) = Inr (Address 118)"
    by (simp add: get_pair_address_def system_clients_simps factory_get_pair_def factory_is_pair_def sy(9)
        register_pair_def or_panic_def ok_or_def reject_def)
  have res: "cl_get_reserves user_clients (Address 118) sy = Some (0, 0, 1000)"
    by (simp add: system_clients_simps ask_pair_def sy(2) pair_get_reserves_def new_pool_def new_storage_def
        ok_result_def ok_or_def)
  define sy1 where "sy1 = sy\<lparr>sy_tok := user_tok(Address 1 := paid_token)\<rparr>"
  define sy2 where "sy2 = sy\<lparr>sy_tok := paid_tok\<rparr>"
  have t1: "cl_transfer user_clients user_env (Address 1) (Address 3) (Address 118) 1000000 sy = Some sy1"
    by (simp add: system_clients_simps user_pays(1) sy(8) sy1_def)
  have t2: "cl_transfer user_clients user_env (Address 2) (Address 3) (Address 118) 1000000 sy1 = Some sy2"
    by (simp add: system_clients_simps user_pays(2) sy1_def sy2_def)
  obtain w where w: "pair_mint bank_ops (nested_env user_env (Address 118)) (Address 3)
      \<lparr>w_pair = new_pool, w_lp = l, w_tok = paid_tok, w_events = []\<rparr> = Inr (999000, w)"
    "w_pair w = funded_pool" "w_tok w = paid_tok" "funded_lp (w_lp w)"
    using first_mint [OF sy(4-7)] by blast
  have "world_of sy2 new_pool = \<lparr>w_pair = new_pool, w_lp = l, w_tok = paid_tok, w_events = []\<rparr>"
    by (simp add: world_of_def sy2_def lp_of_pair_def new_pool_def new_storage_def sy(3))
  then have m: "cl_mint user_clients user_env (Address 118) (Address 3) sy2
      = Some (999000, put_world (Address 118) w sy2)"
    using w(1) sy(2) by (simp add: system_clients_def on_pair_def or_panic_def sy2_def)
  have sort: "sort_tokens (Address 1) (Address 2) = Inr (Address 1, Address 2)"
    by (simp add: sort_tokens_def reject_def less_address_def)
  have add: "router_add_liquidity user_clients user_env (Address 1) (Address 2) 1000000 1000000 900000 900000
       (Address 3) 9000 None user_router sy = Inr ((1000000, 1000000, 999000), put_world (Address 118) w sy2)"
    by (simp add: router_add_liquidity_def check_deadline_def reject_def sort get_router_factory_def
        user_router_def ok_or_def pair res t1 t2 m compute_optimal_amounts_def or_panic_def require_def
        user_env_def [THEN arg_cong [where f = e_auth]] user_env_def [THEN arg_cong [where f = e_timestamp]])
  have "sy_lps (put_world (Address 118) w sy2) = [Address 1988 \<mapsto> w_lp w]"
    by (simp add: put_world_def w(2) funded_pool_def new_storage_def sy2_def sy(3))
  moreover have "get_pair_address user_clients (Address 50) (put_world (Address 118) w sy2) (Address 1) (Address 2)
      = Inr (Address 118)"
    using pair by (simp add: get_pair_address_def system_clients_simps factory_get_pair_def sy2_def)
  ultimately show ?thesis
    using that [of sy "put_world (Address 118) w sy2" "w_lp w"] sy(1,2) w(2-4) add by (simp add: sy2_def)
qed

text \<open>The funded deployment is reached by ordinary steps.\<close>

lemma ex_funded_deployment:
  assumes "deployment ex_host bank_ops (Address 50) plain_call sy" "dom (sy_pairs sy) = {Address 118}"
    and "router_moves user_clients ex_host user_env rop user_router sy = Inr sy'"
  shows "deployment ex_host bank_ops (Address 50) plain_call sy'"
proof -
  have "router_steady_on ex_host bank_ops (Address 50) plain_call (sy_factory sy) {Address 118} user_env sy'"
    using assms(1,2) by (intro bank_steady.router_steady [OF assms(3)])
      (simp add: router_steady_on_def strangers_def user_env_def)
  then show ?thesis
    by (simp add: router_steady_on_def)
qed

section \<open>All pools at once\<close>

text \<open>
  C1. In a deployment of any number of pools that share tokens, in every state that interleaved calls
  of the factory, the pools, the LP tokens and everybody else lead to, with the exceptions below,
  every pool keeps its accounts: its LP supply is the sum of all LP balances, the staged amounts
  add up to the recorded total, the pool holds the seed and everything staged once any LP exists,
  and without single-sided mints its reserves are covered by tokens it really holds. Left out of
  the interleavings are burns of a negative amount of LP (the code accepts them, and they break
  the accounts: \<open>lp_burn_negative_mints\<close>) and permits that a pool itself would have signed; the
  receiver of a flash loan acts on the lending pool, its LP token and the tokens only. Relied on: SEP-41 tokens move exactly what was authorised and no more than the sender has; no pool
  signs a call it does not run.
\<close>

theorem deployed_pools_are_solvent:
  assumes "sep41_funded T" "deployment h T self allowed sy" "sy_pairs sy p = Some c"
  shows "\<exists>ps l. pc_state c = Some ps \<and> sy_lps sy (ps_lp_token ps) = Some l \<and> lp_admin l = Some p \<and>
    \<not> pc_locked c \<and> 0 \<le> ps_reserve_a ps \<and> 0 \<le> ps_reserve_b ps \<and>
    lp_total_supply l = (\<Sum>a \<in> dom (lp_balances l). lp_balance l a) \<and>
    (\<Sum>a \<in> dom (pc_pending c). get_pending_lp (world_of sy c) a) = pc_pending_total c \<and>
    (lp_total_supply l = 0 \<and> pc_pending_total c = 0 \<or> 1000 + pc_pending_total c \<le> lp_balance l p) \<and>
    ((\<forall>op. allowed op \<longrightarrow> \<not> single_sided_mint op) \<longrightarrow>
       ps_reserve_a ps \<le> tok_balance T (ps_token_a ps) p (sy_tok sy) \<and>
       ps_reserve_b ps \<le> tok_balance T (ps_token_b ps) p (sy_tok sy))"
proof -
  let ?b = "\<forall>op. allowed op \<longrightarrow> \<not> single_sided_mint op"
  have "pool_sound ?b T p (world_of sy c)"
    using sep41_funded.deployment_sound [OF assms(1,2), of ?b] assms(3) by (auto simp: pools_sound_def)
  moreover obtain t l where l: "lp_token_of c = Some t" "sy_lps sy t = Some l" "lp_admin l = Some p"
    using registry_lp_tokens [OF system_registry [OF deployment_reachable [OF assms(2)]] assms(3)] by blast
  then obtain ps where ps: "pc_state c = Some ps" "ps_lp_token ps = t"
    by (auto simp: lp_token_of_def)
  moreover have "lp_of_pair sy c = l"
    using l(2) ps by (simp add: lp_of_pair_def)
  ultimately show ?thesis
    using l by (auto simp: pool_sound_def pair_inv_def backed_def pending_ok_def lp_seeded_def entry_sum_def
        get_pending_entry lp_base_def lp_supply_ok_def lp_balance_sum_def)
qed

theorem deployed_pools_are_solvent_witness:
  "\<exists>sy. deployment ex_host bank_ops (Address 50) plain_call sy \<and> dom (sy_pairs sy) = {Address 118} \<and>
     1000000 \<le> tok_balance bank_ops (Address 1) (Address 118) (sy_tok sy)"
proof -
  obtain sy sy' where sy: "deployment ex_host bank_ops (Address 50) plain_call sy"
    "dom (sy_pairs sy) = {Address 118}"
    "router_add_liquidity user_clients user_env (Address 1) (Address 2) 1000000 1000000 900000 900000
       (Address 3) 9000 None user_router sy = Inr ((1000000, 1000000, 999000), sy')"
    "sy_pairs sy' = [Address 118 \<mapsto> funded_pool]"
    by (rule ex_funded)
  have sy': "deployment ex_host bank_ops (Address 50) plain_call sy'"
    by (rule ex_funded_deployment [OF sy(1,2), of user_deposit]) (simp add: sy(3) del: One_nat_def)
  have "1000000 \<le> tok_balance bank_ops (Address 1) (Address 118) (sy_tok sy')"
    using deployed_pools_are_solvent [OF lp_bank_funded.sep41_funded_axioms sy', of "Address 118" funded_pool]
      sy(4) by (auto simp: funded_pool_def new_storage_def simp del: One_nat_def)
  moreover have "dom (sy_pairs sy') = {Address 118}"
    by (simp add: sy(4))
  ultimately show ?thesis
    using sy' by blast
qed

text \<open>
  The router is just a user of the deployment: whichever entry point is called with whatever
  arguments by whomever, as long as neither the factory nor a pool signs the call, what it leaves
  behind is again a deployment reached by ordinary steps, with the same factory and the same
  pools; so every property of the deployment survives every call of the router.
\<close>

lemma router_keeps_the_deployment:
  assumes "sep41_funded T" "deployment h T self allowed sy" "\<forall>op. \<not> single_sided_mint op \<longrightarrow> allowed op"
    and "strangers e (insert self (dom (sy_pairs sy)))"
    and "router_moves (system_clients T self) h e rop rs sy = Inr sy'"
  shows "deployment h T self allowed sy' \<and> sy_factory sy' = sy_factory sy \<and>
    dom (sy_pairs sy') = dom (sy_pairs sy)"
proof -
  have "router_steady_on h T self allowed (sy_factory sy) (dom (sy_pairs sy)) e sy'"
    by (rule steady_clients.router_steady [OF steady_system [OF assms(1,3)] assms(5)])
      (use assms(2,4) in \<open>simp add: router_steady_on_def\<close>)
  then show ?thesis
    by (simp add: router_steady_on_def)
qed

section \<open>Liquidity through the router\<close>

lemma deployed_pool_of:
  assumes "sep41_funded T" "deployment h T self allowed sy" "factory_get_pair sy a b = Some p"
  obtains c ps where "sy_pairs sy p = Some c" "pc_state c = Some ps" "ps_token_a ps = min a b"
    "ps_token_b ps = max a b" "pair_wf p (world_of sy c)"
proof -
  have ok: "registry_ok self sy"
    using system_registry [OF deployment_reachable [OF assms(2)]] .
  obtain c where c: "sy_pairs sy p = Some c"
    using registered_pair [OF ok assms(3)] by blast
  obtain ps where "pc_state c = Some ps" "ps_token_a ps = min a b" "ps_token_b ps = max a b"
    using registry_lookup [OF ok assms(3) c] by auto
  moreover have "pair_wf p (world_of sy c)"
    using sep41_funded.deployment_sound [OF assms(1,2), of False] c by (simp add: pools_sound_def pool_sound_def)
  ultimately show ?thesis using c that by blast
qed

lemma sorted_pair: "sort_tokens a b = Inr (t0, t1) \<longleftrightarrow> a \<noteq> b \<and> t0 = min a b \<and> t1 = max a b"
  by (auto simp: sort_tokens_def res_inv min_def max_def)

lemma sorted_min_max: "min (min a b) (max a b) = min a b" "max (min a b) (max a b) = max a (b :: address)"
  by (auto simp: min_def max_def)

lemma system_pair_address:
  "get_pair_address (system_clients T self) fac sy a b = Inr p \<Longrightarrow> factory_get_pair sy a b = Some p \<and> fac = self"
  by (auto simp: get_pair_address_def system_clients_simps res_inv split: if_splits)

text \<open>
  C8. Withdrawing through the router redeems exactly the LP the user asked for, together with any
  LP the user had staged before: the user receives the proportional share of both reserves, each
  at least its minimum, pays for it with that much LP, and no other account outside the pool
  gains or loses a token; nothing stays staged.
\<close>

theorem withdrawal_pays_the_share:
  assumes "sep41_funded T" "deployment h T self allowed sy" "sy_pairs sy to = None"
    and "router_remove_liquidity (system_clients T self) e a b n a_min b_min to d dl rs sy = Inr ((x, y), sy')"
  shows "\<exists>p c ps c'. factory_get_pair sy (min a b) (max a b) = Some p \<and> sy_pairs sy p = Some c \<and>
    pc_state c = Some ps \<and> sy_pairs sy' p = Some c' \<and> e_auth e to \<and> a_min \<le> x \<and> b_min \<le> y \<and>
    (let m = get_pending_lp (world_of sy c) to + n; S = lp_total_supply (lp_of_pair sy c) - 1000 in
       x = m * (if a < b then ps_reserve_a ps else ps_reserve_b ps) div S \<and>
       y = m * (if a < b then ps_reserve_b ps else ps_reserve_a ps) div S \<and>
       lp_balance (lp_of_pair sy' c') to = lp_balance (lp_of_pair sy c) to - n \<and>
       lp_total_supply (lp_of_pair sy' c') = lp_total_supply (lp_of_pair sy c) - m) \<and>
    get_pending_lp (world_of sy' c') to = 0 \<and>
    (\<forall>tk who. who \<noteq> p \<longrightarrow> tok_balance T tk who (sy_tok sy') = tok_balance T tk who (sy_tok sy) +
       (if who = to then (if tk = a then x else 0) + (if tk = b then y else 0) else 0))"
proof -
  let ?cl = "system_clients T self"
  let ?a = "min a b" and ?b = "max a b"
  obtain fac p sy1 x0 y0 where r: "get_pair_address ?cl fac sy ?a ?b = Inr p" "a \<noteq> b" "e_auth e to"
    "cl_deposit_lp ?cl e p to n sy = Some sy1" "cl_burn ?cl e p to sy1 = Some ((x0, y0), sy')"
    "(x, y) = (if ?a \<noteq> a then (y0, x0) else (x0, y0))"
    "(if ?a \<noteq> a then b_min else a_min) \<le> x0" "(if ?a \<noteq> a then a_min else b_min) \<le> y0"
    using assms(4) by (auto simp: router_remove_liquidity_def res_inv sorted_pair Let_def not_less split: if_splits)
  have found: "factory_get_pair sy ?a ?b = Some p"
    using system_pair_address [OF r(1)] by simp
  obtain c ps where c: "sy_pairs sy p = Some c" "pc_state c = Some ps" "ps_token_a ps = ?a" "ps_token_b ps = ?b"
    "pair_wf p (world_of sy c)"
    by (rule deployed_pool_of [OF assms(1,2) found, unfolded sorted_min_max])
  obtain u w1 where st: "pair_deposit_lp (nested_env e p) to n (world_of sy c) = Inr (u, w1)"
    "sy1 = put_world p w1 sy"
    using r(4) c(1) by (auto simp: system_clients_def on_pair_Inr)
  have s1: "\<exists>ps1. pc_state (w_pair w1) = Some ps1"
    using st(1) by (cases rule: pair_deposit_lp_Inr) (auto simp: get_pair_state_def)
  then have "world_of sy1 (w_pair w1) = w1\<lparr>w_events := []\<rparr>"
    using world_of_put_self st(2) by blast
  then obtain w2 where bu: "pair_burn T (nested_env e p) to (w1\<lparr>w_events := []\<rparr>) = Inr ((x0, y0), w2)"
    "sy' = put_world p w2 sy1"
    using r(5) st(2) by (auto simp: system_clients_def on_pair_Inr)
  note eff = sep41_funded.stage_then_burn [OF assms(1) st(1) bu(1) c(5), of ps]
  have "\<exists>ps2. pc_state (w_pair w2) = Some ps2"
    using bu(1) by (cases rule: pair_burn_Inr) auto
  then have w2: "world_of sy' (w_pair w2) = w2\<lparr>w_events := []\<rparr>"
    using world_of_put_self bu(2) by blast
  then have obs: "w_lp w2 = lp_of_pair sy' (w_pair w2)" "get_pending_lp w2 to = get_pending_lp (world_of sy' (w_pair w2)) to"
    by (auto simp: get_pending_lp_def dest: arg_cong [where f = w_lp])
  have sy': "sy_pairs sy' p = Some (w_pair w2)" "sy_tok sy' = w_tok w2"
    by (simp_all add: bu(2))
  have side: "if a < b then ?a = a \<and> ?b = b \<and> x = x0 \<and> y = y0 else ?a = b \<and> ?b = a \<and> x = y0 \<and> y = x0"
    using r(2,6) by (auto simp: min_def max_def)
  show ?thesis
    by (rule exI [of _ p], rule exI [of _ c], rule exI [of _ ps], rule exI [of _ "w_pair w2"])
      (use eff obs sy' side found c r(2,3,7,8) r(2) [symmetric] in \<open>cases "a < b"; simp add: Let_def\<close>)
qed

text \<open>What a successful deposit through the router asks of its clients.\<close>

lemma router_add_liquidity_Inr:
  assumes "router_add_liquidity cl e a b a_des b_des a_min b_min to d dl rs w = Inr ((x, y, l), w')"
  obtains fac p r0 r1 ts x0 y0 w1 w2 where "get_pair_address cl fac w (min a b) (max a b) = Inr p" "a \<noteq> b"
    "e_auth e to" "0 < a_des" "0 < b_des" "cl_get_reserves cl p w = Some (r0, r1, ts)"
    "compute_optimal_amounts (if min a b \<noteq> a then b_des else a_des) (if min a b \<noteq> a then a_des else b_des)
       (if min a b \<noteq> a then b_min else a_min) (if min a b \<noteq> a then a_min else b_min) r0 r1 = Inr (x0, y0)"
    "cl_transfer cl e (min a b) to p x0 w = Some w1" "cl_transfer cl e (max a b) to p y0 w1 = Some w2"
    "cl_mint cl e p to w2 = Some (l, w')" "(x, y) = (if min a b \<noteq> a then (y0, x0) else (x0, y0))"
  using assms by (auto simp: router_add_liquidity_def res_inv sorted_pair Let_def not_le split: if_splits)

text \<open>Two payments into a deployed pool, and the mint that follows them.\<close>

lemma paid_mint:
  assumes "sep41_funded T" "sy_pairs sy p = Some c" "pc_state c = Some ps" "ps_token_a ps = ta" "ps_token_b ps = tb"
    and "pair_wf p (world_of sy c)" "to \<noteq> p" "ta \<noteq> tb"
    and "cl_transfer (system_clients T self) e ta to p x sy = Some w1"
    and "cl_transfer (system_clients T self) e tb to p y w1 = Some w2"
    and "cl_mint (system_clients T self) e p to w2 = Some (l, sy')"
  defines "S \<equiv> lp_total_supply (lp_of_pair sy c)"
    and "d_a \<equiv> tok_balance T ta p (sy_tok sy') - ps_reserve_a ps"
    and "d_b \<equiv> tok_balance T tb p (sy_tok sy') - ps_reserve_b ps"
  obtains c' ps' where "sy_pairs sy' p = Some c'" "pc_state c' = Some ps'"
    "ps_reserve_a ps' = tok_balance T ta p (sy_tok sy')" "ps_reserve_b ps' = tok_balance T tb p (sy_tok sy')"
    "\<forall>tk who. tok_balance T tk who (sy_tok sy') = tok_balance T tk who (sy_tok sy) +
       ((if tk = ta then x else 0) + (if tk = tb then y else 0)) * (if who = p then 1 else if who = to then - 1 else 0)"
    "1000 \<le> l" "lp_balance (lp_of_pair sy' c') to = lp_balance (lp_of_pair sy c) to + l"
    "lp_total_supply (lp_of_pair sy' c') = S + l + (if S = 0 then 1000 else 0)"
    "if S = 0 then is_isqrt (d_a * d_b) (l + 1000)
     else l = min (d_a * S div ps_reserve_a ps) (d_b * S div ps_reserve_b ps)"
proof -
  note tok = sep41_funded.axioms(1) [OF assms(1), THEN sep41.transfer_moves]
  obtain t1 t2 where t: "tok_transfer T e ta to p x (sy_tok sy) = Some t1"
    "tok_transfer T e tb to p y t1 = Some t2" "w2 = sy\<lparr>sy_tok := t2\<rparr>"
    using assms(9,10) by (auto simp: system_clients_simps)
  let ?w = "(world_of sy c)\<lparr>w_tok := t2\<rparr>"
  have "world_of w2 c = ?w"
    by (simp add: t(3) world_of_def lp_of_pair_def split: option.split)
  then obtain v where v: "pair_mint T (nested_env e p) to ?w = Inr (l, v)" "sy' = put_world p v w2"
    using assms(2,11) by (auto simp: system_clients_def on_pair_Inr t(3))
  have "pair_wf p ?w"
    using assms(6) by (simp add: pair_inv_def get_pair_state_def fee_params_def get_fee_state_def)
  note eff = sep41_funded.mint_effects [OF assms(1) v(1) this _ assms(7), of ps]
  obtain qs where qs: "pc_state (w_pair v) = Some qs" "ps_reserve_a qs = tok_balance T ta p t2"
    "ps_reserve_b qs = tok_balance T tb p t2"
    using eff assms(3-5) by (simp add: get_pair_state_def)
  have "w_lp v = lp_of_pair sy' (w_pair v)"
    using world_of_put_self [OF qs(1), of p w2] v(2) by (auto dest: arg_cong [where f = w_lp])
  then have obs: "lp_of_pair sy' (w_pair v) = w_lp v" by simp
  have sy': "sy_pairs sy' p = Some (w_pair v)" "sy_tok sy' = t2"
    using eff assms(3) by (simp_all add: v(2) get_pair_state_def)
  have "\<forall>tk who. tok_balance T tk who t2 = tok_balance T tk who (sy_tok sy) +
      ((if tk = ta then x else 0) + (if tk = tb then y else 0)) * (if who = p then 1 else if who = to then - 1 else 0)"
    using assms(7,8) by (auto simp: tok [OF t(1)] tok [OF t(2)] moved_apply)
  then show ?thesis
    using eff obs sy' qs assms(3-5) by (intro that [OF sy'(1) qs(1)])
      (simp_all add: S_def d_a_def d_b_def get_pair_state_def cong: if_cong)
qed

text \<open>
  C7. A deposit through the router takes at most what the user desired, one amount in full and
  both in the ratio of the reserves; exactly these tokens move from the user to the pool and
  nothing else moves; the pool's new reserves are its balances; and the user gets LP for
  everything the pool held above its old reserves: the root of the product for the first
  deposit, of which the pool keeps the seed, otherwise the smaller of the two shares.
\<close>

theorem deposit_buys_the_share:
  assumes "sep41_funded T" "deployment h T self allowed sy" "sy_pairs sy to = None"
    and "router_add_liquidity (system_clients T self) e a b a_des b_des a_min b_min to d dl rs sy
      = Inr ((x, y, l), sy')"
  shows "\<exists>p c ps c' ps'. factory_get_pair sy (min a b) (max a b) = Some p \<and> sy_pairs sy p = Some c \<and>
    pc_state c = Some ps \<and> sy_pairs sy' p = Some c' \<and> pc_state c' = Some ps' \<and> e_auth e to \<and>
    0 \<le> x \<and> x \<le> a_des \<and> 0 \<le> y \<and> y \<le> b_des \<and> (x = a_des \<or> y = b_des) \<and>
    (0 < ps_reserve_a ps \<and> 0 < ps_reserve_b ps \<longrightarrow>
       in_ratio (if a < b then x else y) (if a < b then y else x) (ps_reserve_a ps) (ps_reserve_b ps)) \<and>
    (\<forall>tk who. tok_balance T tk who (sy_tok sy') = tok_balance T tk who (sy_tok sy) +
       ((if tk = a then x else 0) + (if tk = b then y else 0)) *
         (if who = p then 1 else if who = to then - 1 else 0)) \<and>
    ps_reserve_a ps' = tok_balance T (min a b) p (sy_tok sy') \<and>
    ps_reserve_b ps' = tok_balance T (max a b) p (sy_tok sy') \<and>
    (let S = lp_total_supply (lp_of_pair sy c); d_a = ps_reserve_a ps' - ps_reserve_a ps;
         d_b = ps_reserve_b ps' - ps_reserve_b ps in
       1000 \<le> l \<and> lp_balance (lp_of_pair sy' c') to = lp_balance (lp_of_pair sy c) to + l \<and>
       lp_total_supply (lp_of_pair sy' c') = S + l + (if S = 0 then 1000 else 0) \<and>
       (if S = 0 then is_isqrt (d_a * d_b) (l + 1000)
        else l = min (d_a * S div ps_reserve_a ps) (d_b * S div ps_reserve_b ps)))"
  using assms(4)
proof (cases rule: router_add_liquidity_Inr)
  case (1 fac p r0 r1 ts x0 y0 w1 w2)
  let ?a = "min a b" and ?b = "max a b"
  have found: "factory_get_pair sy ?a ?b = Some p"
    using system_pair_address [OF 1(1)] by simp
  obtain c ps where c: "sy_pairs sy p = Some c" "pc_state c = Some ps" "ps_token_a ps = ?a" "ps_token_b ps = ?b"
    "pair_wf p (world_of sy c)"
    by (rule deployed_pool_of [OF assms(1,2) found, unfolded sorted_min_max])
  have res: "r0 = ps_reserve_a ps" "r1 = ps_reserve_b ps" "0 \<le> r0" "0 \<le> r1"
    using 1(6) c(1,2,5) by (auto simp: system_clients_simps ask_pair_def pair_get_reserves_def pair_inv_def res_inv)
  have amounts: "0 \<le> x0 \<and> 0 \<le> y0 \<and> (if ?a \<noteq> a then x0 \<le> b_des \<and> y0 \<le> a_des else x0 \<le> a_des \<and> y0 \<le> b_des) \<and>
      (if ?a \<noteq> a then y0 = a_des \<or> x0 = b_des else x0 = a_des \<or> y0 = b_des)"
    using optimal_amounts_bounded [OF 1(7) _ _ res(3,4)] 1(4,5) by (cases "?a = a"; simp; blast)
  have ratio: "in_ratio x0 y0 r0 r1" if "0 < r0" "0 < r1"
    using optimal_amounts_keep_ratio [OF 1(7) _ _ that] 1(4,5)
    by (cases "?a = a"; simp add: in_ratio_def; blast)
  have "to \<noteq> p" "?a \<noteq> ?b"
    using c(1) assms(3) 1(2) by (auto simp: min_def max_def)
  then obtain c' ps' where minted: "sy_pairs sy' p = Some c'" "pc_state c' = Some ps'"
    "ps_reserve_a ps' = tok_balance T ?a p (sy_tok sy')" "ps_reserve_b ps' = tok_balance T ?b p (sy_tok sy')"
    "\<forall>tk who. tok_balance T tk who (sy_tok sy') = tok_balance T tk who (sy_tok sy) +
       ((if tk = ?a then x0 else 0) + (if tk = ?b then y0 else 0)) * (if who = p then 1 else if who = to then - 1 else 0)"
    and lp: "1000 \<le> l" "lp_balance (lp_of_pair sy' c') to = lp_balance (lp_of_pair sy c) to + l"
    "let S = lp_total_supply (lp_of_pair sy c); d_a = ps_reserve_a ps' - ps_reserve_a ps; d_b = ps_reserve_b ps' - ps_reserve_b ps
     in lp_total_supply (lp_of_pair sy' c') = S + l + (if S = 0 then 1000 else 0) \<and>
       (if S = 0 then is_isqrt (d_a * d_b) (l + 1000)
        else l = min (d_a * S div ps_reserve_a ps) (d_b * S div ps_reserve_b ps))"
    using paid_mint [OF assms(1) c _ _ 1(8-10)] by (metis (no_types, lifting))
  have side: "if a < b then ?a = a \<and> ?b = b \<and> x = x0 \<and> y = y0 else ?a = b \<and> ?b = a \<and> x = y0 \<and> y = x0"
    using 1(2,11) by (auto simp: min_def max_def)
  show ?thesis
    by (rule exI [of _ p], rule exI [of _ c], rule exI [of _ ps], rule exI [of _ c'], rule exI [of _ ps'])
      (use minted lp side found c 1(2,3) 1(2) [symmetric] amounts ratio res in
        \<open>cases "a < b"; simp add: Let_def cong: if_cong\<close>)
qed

theorem deposit_buys_the_share_witness:
  "\<exists>(sy :: bank system) sy'. router_add_liquidity user_clients user_env (Address 1) (Address 2) 1000000 1000000
      900000 900000 (Address 3) 9000 None user_router sy = Inr ((1000000, 1000000, 999000), sy') \<and>
    tok_balance bank_ops (Address 2) (Address 118) (sy_tok sy')
      = tok_balance bank_ops (Address 2) (Address 118) (sy_tok sy) + 1000000 \<and>
    tok_balance bank_ops (Address 1) (Address 3) (sy_tok sy')
      = tok_balance bank_ops (Address 1) (Address 3) (sy_tok sy) - 1000000"
proof -
  note One_nat_def [simp del]
  obtain sy sy' where sy: "deployment ex_host bank_ops (Address 50) plain_call sy"
    "dom (sy_pairs sy) = {Address 118}"
    "router_add_liquidity user_clients user_env (Address 1) (Address 2) 1000000 1000000 900000 900000
       (Address 3) 9000 None user_router sy = Inr ((1000000, 1000000, 999000), sy')"
    by (rule ex_funded)
  have "Address 3 \<notin> dom (sy_pairs sy)"
    by (simp add: sy(2))
  then have "sy_pairs sy (Address 3) = None"
    by (simp add: domIff)
  from deposit_buys_the_share [OF lp_bank_funded.sep41_funded_axioms sy(1) this sy(3)]
  obtain p c where pool: "sy_pairs sy p = Some c"
    and moved: "\<forall>tk who. tok_balance bank_ops tk who (sy_tok sy') = tok_balance bank_ops tk who (sy_tok sy) +
       ((if tk = Address 1 then 1000000 else 0) + (if tk = Address 2 then 1000000 else 0)) *
         (if who = p then 1 else if who = Address 3 then - 1 else 0)"
    by blast
  have "p = Address 118"
    using pool sy(2) by auto
  then show ?thesis
    by (intro exI [of _ sy] exI [of _ sy']) (simp add: sy(3) moved)
qed

text \<open>The user withdraws a tenth of the LP again.\<close>

lemma withdraw_ok:
  assumes "funded_lp l"
  shows "\<exists>w1 w2. pair_deposit_lp (nested_env user_env (Address 118)) (Address 3) 99900
      \<lparr>w_pair = funded_pool, w_lp = l, w_tok = paid_tok, w_events = []\<rparr> = Inr ((), w1) \<and>
    pc_state (w_pair w1) = pc_state funded_pool \<and>
    pair_burn bank_ops (nested_env user_env (Address 118)) (Address 3) (w1\<lparr>w_events := []\<rparr>)
      = Inr ((100000, 100000), w2)"
  using assms
  by (simp add: pair_deposit_lp_def pair_burn_def burn_lp_amount_def burn_amounts_def mul_then_div_def
      get_pending_lp_def get_pending_lp_total_def set_pending_lp_def set_pending_lp_total_def
      new_pool_def new_storage_def funded_pool_def funded_lp_def user_env_def nested_env_def paid_tok_def
      paid_token_def user_tok_def user_token_def call_defs pool_defs policy_defs int_ops_defs)

theorem withdrawal_pays_the_share_witness:
  "\<exists>(sy :: bank system) sy'. router_remove_liquidity user_clients user_env (Address 1) (Address 2) 99900 90000 90000
      (Address 3) 9000 None user_router sy = Inr ((100000, 100000), sy') \<and>
    tok_balance bank_ops (Address 1) (Address 3) (sy_tok sy')
      = tok_balance bank_ops (Address 1) (Address 3) (sy_tok sy) + 100000"
proof -
  note One_nat_def [simp del]
  obtain sy0 sy l where sy0: "deployment ex_host bank_ops (Address 50) plain_call sy0"
    "dom (sy_pairs sy0) = {Address 118}"
    "router_add_liquidity user_clients user_env (Address 1) (Address 2) 1000000 1000000 900000 900000
       (Address 3) 9000 None user_router sy0 = Inr ((1000000, 1000000, 999000), sy)"
    and sy: "sy_pairs sy = [Address 118 \<mapsto> funded_pool]" "sy_lps sy = [Address 1988 \<mapsto> l]" "funded_lp l"
      "sy_tok sy = paid_tok"
    and pair: "get_pair_address user_clients (Address 50) sy (Address 1) (Address 2) = Inr (Address 118)"
    by (rule ex_funded)
  have reach: "deployment ex_host bank_ops (Address 50) plain_call sy"
    by (rule ex_funded_deployment [OF sy0(1,2), of user_deposit]) (simp add: sy0(3))
  have world: "world_of sy funded_pool = \<lparr>w_pair = funded_pool, w_lp = l, w_tok = paid_tok, w_events = []\<rparr>"
    by (simp add: world_of_def lp_of_pair_def sy(2,4)) (simp add: funded_pool_def new_storage_def sy(2))
  obtain w1 w2 where w: "pair_deposit_lp (nested_env user_env (Address 118)) (Address 3) 99900
      (world_of sy funded_pool) = Inr ((), w1)" "pc_state (w_pair w1) = pc_state funded_pool"
    "pair_burn bank_ops (nested_env user_env (Address 118)) (Address 3) (w1\<lparr>w_events := []\<rparr>)
      = Inr ((100000, 100000), w2)"
    using withdraw_ok [OF sy(3)] unfolding world by blast
  define sy1 where "sy1 = put_world (Address 118) w1 sy"
  have dep: "cl_deposit_lp user_clients user_env (Address 118) (Address 3) 99900 sy = Some sy1"
    using w(1) sy(1) by (simp add: system_clients_def on_pair_def or_panic_def sy1_def)
  have "world_of sy1 (w_pair w1) = w1\<lparr>w_events := []\<rparr>"
    using w(2) by (simp add: sy1_def world_of_put_self funded_pool_def)
  then have burn: "cl_burn user_clients user_env (Address 118) (Address 3) sy1
      = Some ((100000, 100000), put_world (Address 118) w2 sy1)"
    using w(3) by (simp add: system_clients_def on_pair_def or_panic_def sy1_def)
  have sort: "sort_tokens (Address 1) (Address 2) = Inr (Address 1, Address 2)"
    by (simp add: sort_tokens_def reject_def less_address_def)
  have run: "router_remove_liquidity user_clients user_env (Address 1) (Address 2) 99900 90000 90000
      (Address 3) 9000 None user_router sy = Inr ((100000, 100000), put_world (Address 118) w2 sy1)"
    by (simp add: router_remove_liquidity_def check_deadline_def reject_def sort get_router_factory_def
        user_router_def ok_or_def pair dep burn or_panic_def require_def
        user_env_def [THEN arg_cong [where f = e_auth]] user_env_def [THEN arg_cong [where f = e_timestamp]])
  have "sy_pairs sy (Address 3) = None"
    by (simp add: sy(1))
  from withdrawal_pays_the_share [OF lp_bank_funded.sep41_funded_axioms reach this run]
  obtain p c where "sy_pairs sy p = Some c" "\<forall>tk who. who \<noteq> p \<longrightarrow>
      tok_balance bank_ops tk who (sy_tok (put_world (Address 118) w2 sy1)) = tok_balance bank_ops tk who (sy_tok sy) +
       (if who = Address 3 then (if tk = Address 1 then 100000 else 0) + (if tk = Address 2 then 100000 else 0) else 0)"
    by blast
  moreover from this have "p = Address 118"
    by (simp add: sy(1) split: if_splits)
  ultimately show ?thesis
    by (intro exI [of _ sy] exI [of _ "put_world (Address 118) w2 sy1"]) (simp add: run)
qed

end
