(* ===== verification/Spec2Isabelle.thy ===== *)
theory Spec2Isabelle
  imports Pool_Props Pool_Exit Swap_Quote Oracle_Twap Detached_Modules Factory_Pages Factory_Events Router_Props Deployment_Props
begin

text \<open>
  CoralSwap core: a constant-product exchange of Soroban contracts in Rust, under
  \<open>src/contracts/\<close>.

  The program. A factory deploys, for each pair of tokens, a pair (the pool) and the LP token
  that the pair administers; it keeps the registry of pairs, the protocol's fee settings and
  the governance (a multisig of up to ten signers, a fee setter, an upgrade timelock). A pair
  holds reserves of two tokens and the accounting of its LP token, and offers mint, burn, swap,
  single-sided variants, flash loans, and administration that only its factory may call. A
  router quotes and executes swaps along paths of up to three pairs, adds and removes liquidity,
  and offers swaps by commit and reveal. Users call pairs directly or through the router.

  The model. A function that returns \<open>Result\<close> is a function into \<open>('e, 'a) res\<close>: \<open>Inr\<close> is \<open>Ok\<close>,
  \<open>Inl (Err e)\<close> the typed error, \<open>Inl Panic\<close> a panic, a failed \<open>require_auth\<close> or a trapping nested
  call; a failing call keeps no change of state, as on the host. Integers are \<open>int\<close> values, and
  every operation of the source on a fixed width is written out: checked operations return
  \<open>option\<close>, plain ones panic outside the range (\<open>arith\<close>; the release profile has overflow
  checks), saturating and wrapping ones compute. Environments (\<open>env\<close>) hold time, ledger sequence,
  the running contract and the set of addresses that authorise; a nested call adds the caller.

  The theories, in the order of the imports:
  \<^item> \<open>CS_Prelude\<close>: addresses with their order, fixed-width arithmetic, results and the inversion
    rules \<open>res_inv\<close> and \<open>chk_inv\<close> that all proofs about handlers use, environments, sums over
    storage maps.
  \<^item> \<open>CS_Shared\<close> (\<open>shared/src/lib.rs\<close>): policy constants, the two quotes, LP metadata.
  \<^item> \<open>Pair_Math\<close>, \<open>Pair_Fee\<close>, \<open>Pair_Oracle\<close> (\<open>pair/src/math\<close>, \<open>dynamic_fee.rs\<close>, \<open>fee_decay.rs\<close>,
    \<open>oracle\<close>): the pair's pure parts. The Newton iteration and the pruning loop have
    termination proofs; the ring buffer refines a bounded queue. \<open>Oracle_Twap\<close>: the oracle end to
    end, for a pool that reports to it.
  \<^item> \<open>Lp_Token\<close> (\<open>lp_token/src\<close>): the LP token as a state machine; \<open>Token_Iface\<close>: the locale
    \<open>sep41\<close> of what pairs and router rely on in a pool token, and its interpretation on the
    repository's own token. \<open>Lp_Lifetime\<close>: the \<open>extend_ttl\<close> calls of the token and of the shared
    policies, over the documented behaviour of the ledger.
  \<^item> \<open>Pair_State\<close>, \<open>Pair_Contract\<close> (\<open>pair/src/lib.rs\<close>, \<open>storage.rs\<close>, \<open>events.rs\<close>, \<open>reentrancy.rs\<close>,
    \<open>flash_loan.rs\<close>, \<open>factory_client.rs\<close>, and the flash receivers): the state of a pair and
    every entry point, over a world of the pair, its LP token and the pool tokens.
  \<^item> \<open>Pair_Swap\<close>, \<open>Pair_Liquidity\<close>: what a successful swap, mint or burn has established.
    \<open>Pair_Safety\<close>: the invariants of a pair over all interleavings of its calls, of calls of its
    LP token by others and of pool-token transfers. \<open>Pair_Frame\<close>: what only the factory can
    change. \<open>Pair_Props\<close>, \<open>Pair_Props2\<close>: the properties and the concrete pool of their witnesses.
  \<^item> \<open>Factory_State\<close>, \<open>Factory\<close> (\<open>factory/src\<close>): the deployment (factory, pairs, LP tokens, pool
    tokens, log) and every entry point of the factory; operations of pairs are lifted to it by
    \<open>on_pair\<close>. \<open>Factory_Inv\<close>: the deployment as a state machine, with the invariants of the registry
    and of the configuration. \<open>Factory_Props\<close>: the properties. \<open>Factory_Events\<close>: the topics of the
    events and the naming convention that the source asserts at compile time. \<open>Factory_Pages\<close>: the
    registry as an indexer reads it, over all later moves of the deployment.
  \<^item> \<open>Router_State\<close>, \<open>Router\<close> (\<open>router/src\<close>): the router over an arbitrary record of clients.
    \<open>Router_Quotes\<close>: quoting along paths, the path search, deposits. \<open>Router_Commit\<close>: commit and
    reveal as a state machine. \<open>Router_Net\<close>: the locale \<open>pool_net\<close> of what the money flow of a
    routed swap relies on, proved for the deployment (\<open>pool_net_system\<close>). \<open>Router_Props\<close>: the
    end-to-end properties of routed swaps, by path or by commit and reveal.
  \<^item> \<open>Pair_Others\<close>: what a call of one pair guarantees to all accounts that neither run nor sign
    it. \<open>Deployment\<close>: the deployment of many pools with shared tokens as a state machine, and the
    invariant of a pair lifted to all of them. \<open>Router_Deployment\<close>: the locale \<open>steady_clients\<close>,
    by which every entry point of the router is a run of ordinary steps of the deployment.
    \<open>Deployment_Props\<close>: deposits and withdrawals through the router, and the properties of the
    deployment, with a deployment built step by step as their witness.
  \<^item> \<open>Pair_Effects\<close>: what the calls of a sound pair do in full. \<open>Pair_Spec\<close>: the abstract pool (two
    reserves, the number of shares, six moves), the locale \<open>run_simulation\<close> and the proof that every
    run of a pair is a run of the abstract pool, on which the worth of a share is studied.
    \<open>Pool_Props\<close>: the properties that follow. \<open>Pool_Exit\<close>: when a burn succeeds, and from which size
    on no swap does (while deposits are still accepted, in the example). \<open>Swap_Quote\<close>: the check of the swap and the output quote are the same function.
  \<^item> \<open>Detached_Modules\<close>: four modules that no crate declares, as they are written, with lemmas that
    compare them with the contracts they are meant for.

  What the properties show. Pair: the product of the reserves never falls in a swap, reserves
  stay backed by balances (without single-sided mints, which overstate them), LP accounting
  is exact under interleaving, every run refines the abstract pool and keeps the worth of a share
  unless it mixes deposits with withdrawals, a burn redeems the proportional share, a single-sided
  burn is a burn and a swap, flash loans are repaid whatever the receiver does, the lock makes
  nested calls inert, and while the LP token is not paused a frozen pool still lets its providers
  leave. These statements about runs and interleavings leave out two kinds of calls that the code
  accepts and that break them: \<open>mint_with_one_token\<close> (for the refinement, the worth of a share and
  the backing) and LP burns of a negative amount (for those and the accounting). A one-way swap can take exactly up to the
  quote, and never more. Numbers: the quotes are
  the exact optimum of the fee-adjusted formula, square roots and the single-sided split are
  exact, fees stay in range, and a time-weighted average price is the exact average of the reported
  prices. LP token: supply is the sum of balances, allowances bound spending,
  permits are used once, a written balance stays alive for 30 days, and the contract's own entry is
  never extended. Factory: the registry is the truth about the deployment, its pages are stable
  and complete, pools are where they are predicted, fee settings
  are in range, freezing and upgrading need the authority and the delay they promise. Router:
  a routed swap delivers exactly the quote for its path, deposits and withdrawals move exactly the computed
  amounts and issue or redeem the proportional LP, quotes along a path are adjoint, the path search is
  exhaustive, commitments are counted, bound to their sender and used once. Deployment: all pools
  stay solvent together under every interleaving without those calls, and what a call of the
  router leaves behind is reached by ordinary steps of users, so it has no privilege. Where the code does
  not do what it means to, the property says what it does instead.

  Bounds and fuel. No fuel is used: every recursive function terminates. A decay of more than
  its cap of periods, a router path of more than three hops, and a ring of more than 24 samples
  cannot occur, as in the code. The state machines place no bound on the number of calls.

  Parameters and assumptions. Pool tokens (any SEP-41 contract, through \<open>sep41\<close>; they do not call
  back), flash receivers (any function on the world of the pair), XDR, SHA-256, Ed25519 and the
  derivation of contract addresses (\<open>crypto\<close>, \<open>host\<close>), and whether the host lets a contract call
  one that is on the call stack (Soroban does not). Fees answered by a factory are of type \<open>u32\<close>.
  Contracts deployed by the factory run the code of this repository; a call that the factory relays
  to an address where it deployed nothing is taken to leave the deployment alone. The
  property of permits assumes of SHA-256 that it does not collide on the two messages at hand, and of
  Ed25519 that one signature is not valid for two digests. The ledger extends entries as
  the documentation of \<open>extend_ttl\<close> says (\<open>documented_ttl\<close>). \<open>U256\<close> of the crate
  \<open>ethnum\<close> is an integer in its documented range.

  Not modelled: the lifetime of the storage entries of pairs, factory and router (their policies
  are in \<open>Lp_Lifetime\<close>; what a call does while its entries are alive is modelled everywhere),
  resource costs, and the test-only code. A pool token that is itself an LP token of the deployment is a
  separate token in the model: transfers of it by a pair do not alias the LP token's state.
  The events of LP tokens and pairs are logged in the state of each; the router emits none.
\<close>

end
